theory Spec2Isabelle
  imports Main "HOL-Library.Word"
begin

unbundle bit_operations_syntax

section \<open>TLS 1.3 message handlers shared by client and server (ssl/tls13_both.cc)\<close>

text \<open>
  The handlers of \<^verbatim>\<open>tls13_both.cc\<close> are embedded as functions on an explicit
  connection state. A C handler \<^verbatim>\<open>int f(SSL_HANDSHAKE *hs, ...)\<close> that returns 1 or 0
  and mutates \<^verbatim>\<open>hs\<close> and \<^verbatim>\<open>hs->ssl\<close> becomes a function returning the pair of
  the return value (\<open>True\<close> for 1, \<open>False\<close> for 0) and the updated state: the state is
  updated on the failing paths too, as in the C code. The model is of the regular build:
  the blocks under \<^verbatim>\<open>BORINGSSL_UNSAFE_FUZZER_MODE\<close> are not compiled in.
\<close>

subsection \<open>Bytes and big-endian integers\<close>

type_synonym byte = "8 word"
type_synonym bytes = "byte list"

fun be_nat :: "bytes \<Rightarrow> nat" where
  "be_nat [] = 0"
| "be_nat (b # bs) = unat b * 256 ^ length bs + be_nat bs"

fun be_bytes :: "nat \<Rightarrow> nat \<Rightarrow> bytes" where
  "be_bytes 0 v = []"
| "be_bytes (Suc n) v = word_of_nat (v div 256 ^ n) # be_bytes n (v mod 256 ^ n)"

subsection \<open>The byte-string reader (CBS) and builder (CBB)\<close>

text \<open>
  Modelled from the spec: the CBS and CBB functions of \<^verbatim>\<open>openssl/bytestring.h\<close> are
  not part of the file. A CBS is the list of bytes not yet read. A reader returns \<open>None\<close>
  where the C function returns 0, and otherwise the value read with the remaining bytes.
  Length prefixes are the 1-, 2- and 3-byte prefixes of the wire layout, in network byte
  order.
\<close>

definition CBS_get_bytes :: "nat \<Rightarrow> bytes \<Rightarrow> (bytes \<times> bytes) option" where
  "CBS_get_bytes n cbs = (if length cbs < n then None else Some (take n cbs, drop n cbs))"

definition cbs_get_u :: "nat \<Rightarrow> bytes \<Rightarrow> (nat \<times> bytes) option" where
  "cbs_get_u n cbs =
     (case CBS_get_bytes n cbs of
        None \<Rightarrow> None
      | Some (v, rest) \<Rightarrow> Some (be_nat v, rest))"

definition cbs_get_length_prefixed :: "nat \<Rightarrow> bytes \<Rightarrow> (bytes \<times> bytes) option" where
  "cbs_get_length_prefixed n cbs =
     (case cbs_get_u n cbs of
        None \<Rightarrow> None
      | Some (len, rest) \<Rightarrow> CBS_get_bytes len rest)"

definition CBS_get_u8 :: "bytes \<Rightarrow> (byte \<times> bytes) option" where
  "CBS_get_u8 cbs = (case cbs of [] \<Rightarrow> None | b # rest \<Rightarrow> Some (b, rest))"

definition CBS_get_u16 :: "bytes \<Rightarrow> (16 word \<times> bytes) option" where
  "CBS_get_u16 cbs =
     (case cbs_get_u 2 cbs of
        None \<Rightarrow> None
      | Some (v, rest) \<Rightarrow> Some (word_of_nat v, rest))"

definition CBS_get_u8_length_prefixed :: "bytes \<Rightarrow> (bytes \<times> bytes) option" where
  "CBS_get_u8_length_prefixed = cbs_get_length_prefixed 1"

definition CBS_get_u16_length_prefixed :: "bytes \<Rightarrow> (bytes \<times> bytes) option" where
  "CBS_get_u16_length_prefixed = cbs_get_length_prefixed 2"

definition CBS_get_u24_length_prefixed :: "bytes \<Rightarrow> (bytes \<times> bytes) option" where
  "CBS_get_u24_length_prefixed = cbs_get_length_prefixed 3"

text \<open>
  A CBB is the list of bytes written so far. Closing a length-prefixed child writes its
  length in \<open>n\<close> bytes before its contents, and fails when the length does not fit.
\<close>

definition cbb_length_prefixed :: "nat \<Rightarrow> bytes \<Rightarrow> bytes option" where
  "cbb_length_prefixed n child =
     (if length child < 256 ^ n then Some (be_bytes n (length child) @ child) else None)"

definition CBB_u16 :: "nat \<Rightarrow> bytes" where
  "CBB_u16 v = be_bytes 2 v"

subsection \<open>Constants of the protocol headers\<close>

text \<open>
  The macros below come from \<^verbatim>\<open>openssl/ssl.h\<close>, \<^verbatim>\<open>ssl3.h\<close>, \<^verbatim>\<open>tls1.h\<close>,
  \<^verbatim>\<open>x509_vfy.h\<close> and \<^verbatim>\<open>evp.h\<close>; they carry the values of the TLS registries.
  \<open>kMaxKeyUpdates\<close> is defined in the file itself.
\<close>

definition kMaxKeyUpdates :: "8 word" where "kMaxKeyUpdates = 32"

definition SSL3_MT_NEW_SESSION_TICKET :: nat where "SSL3_MT_NEW_SESSION_TICKET = 4"
definition SSL3_MT_CERTIFICATE :: nat where "SSL3_MT_CERTIFICATE = 11"
definition SSL3_MT_CERTIFICATE_VERIFY :: nat where "SSL3_MT_CERTIFICATE_VERIFY = 15"
definition SSL3_MT_FINISHED :: nat where "SSL3_MT_FINISHED = 20"
definition SSL3_MT_KEY_UPDATE :: nat where "SSL3_MT_KEY_UPDATE = 24"

definition SSL_KEY_UPDATE_NOT_REQUESTED :: byte where "SSL_KEY_UPDATE_NOT_REQUESTED = 0"
definition SSL_KEY_UPDATE_REQUESTED :: byte where "SSL_KEY_UPDATE_REQUESTED = 1"

definition TLSEXT_TYPE_status_request :: nat where "TLSEXT_TYPE_status_request = 5"
definition TLSEXT_TYPE_certificate_timestamp :: nat where
  "TLSEXT_TYPE_certificate_timestamp = 18"
definition TLSEXT_STATUSTYPE_ocsp :: byte where "TLSEXT_STATUSTYPE_ocsp = 1"

definition X509_V_OK :: int where "X509_V_OK = 0"
definition EVP_MAX_MD_SIZE :: nat where "EVP_MAX_MD_SIZE = 64"

datatype alert_level = SSL3_AL_WARNING | SSL3_AL_FATAL

datatype alert_desc =
    SSL_AD_UNEXPECTED_MESSAGE
  | SSL_AD_DECODE_ERROR
  | SSL_AD_DECRYPT_ERROR
  | SSL_AD_ILLEGAL_PARAMETER
  | SSL_AD_INTERNAL_ERROR
  | SSL_AD_UNSUPPORTED_EXTENSION
  | SSL_AD_CERTIFICATE_REQUIRED
  | SSL_AD_OTHER nat

text \<open>The reasons this file puts on the error queue with \<^verbatim>\<open>OPENSSL_PUT_ERROR\<close>.\<close>

datatype err_reason =
    SSL_R_SSL_HANDSHAKE_FAILURE
  | ERR_R_MALLOC_FAILURE
  | ERR_R_INTERNAL_ERROR
  | SSL_R_DECODE_ERROR
  | SSL_R_CERT_LENGTH_MISMATCH
  | SSL_R_UNEXPECTED_EXTENSION
  | SSL_R_ERROR_PARSING_EXTENSION
  | SSL_R_PEER_DID_NOT_RETURN_A_CERTIFICATE
  | SSL_R_BAD_SIGNATURE
  | SSL_R_DIGEST_CHECK_FAILED
  | SSL_R_TOO_MANY_KEY_UPDATES
  | SSL_R_UNEXPECTED_MESSAGE

datatype evp_aead_direction_t = evp_aead_open | evp_aead_seal

datatype ssl_cert_verify_context_t =
    ssl_cert_verify_server
  | ssl_cert_verify_client
  | ssl_cert_verify_channel_id

subsection \<open>The state: session, connection and handshake\<close>

text \<open>A parsed public key (\<^verbatim>\<open>EVP_PKEY\<close>) is represented by its encoding.\<close>

type_synonym pkey = bytes

text \<open>
  The fields of \<^verbatim>\<open>SSL_SESSION\<close> that the handlers write. \<open>certs\<close> is \<open>None\<close> for
  the null stack; a stowed buffer is \<open>None\<close> for the null pointer.
\<close>

record ssl_session =
  certs :: "bytes list option"
  peer_sha256 :: bytes
  peer_sha256_valid :: bool
  ocsp_response :: "bytes option"
  tlsext_signed_cert_timestamp_list :: "bytes option"
  verify_result :: int
  peer_signature_algorithm :: "16 word"

text \<open>
  The fields of \<^verbatim>\<open>SSL\<close>, \<^verbatim>\<open>SSL3_STATE\<close>, \<^verbatim>\<open>CERT\<close> and \<^verbatim>\<open>SSL_HANDSHAKE\<close> that the
  handlers read or write, in one record (a handshake belongs to exactly one connection).
  \<open>init_msg\<close> is the body of the current message (\<^verbatim>\<open>init_num\<close> is its length).
  \<open>key_update_count\<close> is a \<^verbatim>\<open>uint8_t\<close>, like \<open>kMaxKeyUpdates\<close>.

  Modelled from the spec: the transport, alert and key-schedule collaborators are not
  part of the file. Their effect is recorded in the state: \<open>alerts\<close> lists the alerts
  sent with \<^verbatim>\<open>ssl3_send_alert\<close>, \<open>err_queue\<close> the reasons put on the error queue by
  this file, \<open>flight\<close> the handshake messages handed to \<^verbatim>\<open>ssl_add_message_cbb\<close> (type
  and body), \<open>read_key_generation\<close> and \<open>write_key_generation\<close> count the rotations
  of the traffic key of each direction.
\<close>

record ssl_st =
  server :: bool
  init_msg :: bytes
  message_type :: nat
  retain_only_sha256_of_client_certs :: bool
  ocsp_stapling_enabled :: bool
  signed_cert_timestamps_enabled :: bool
  key_update_count :: "8 word"
  key_update_pending :: bool
  read_key_generation :: nat
  write_key_generation :: nat
  alerts :: "(alert_level \<times> alert_desc) list"
  err_queue :: "err_reason list"
  flight :: "(nat \<times> bytes) list"
  cert_chain :: "bytes list option"
  has_private_key :: bool
  cert_signed_cert_timestamp_list :: "bytes option"
  cert_ocsp_response :: "bytes option"
  peer_pubkey :: "pkey option"
  new_session :: ssl_session
  expected_client_finished :: bytes
  hash_len :: nat
  transcript_hash :: "bytes option"
  scts_requested :: bool
  ocsp_stapling_requested :: bool

text \<open>
  The collaborators the handlers call, as parameters: the functions of other files of
  the library (certificate parsing, extension parsing, policy checks, the key schedule)
  and the outcome of each allocation.
  \<^item> \<open>ssl_parse_extensions\<close> is called with the two extension types status-request and
    certificate-timestamp and unknown types rejected: it returns the alert it selects,
    or the contents of each of the two extensions when present.
  \<^item> \<open>tls12_check_peer_sigalg\<close> returns the alert of a rejected algorithm.
  \<^item> \<open>tls13_finished_mac\<close> takes the \<^verbatim>\<open>is_server\<close> flag; \<open>None\<close> is its failure.
  \<^item> \<open>session_cache_objects\<close> is the \<^verbatim>\<open>x509_method\<close> hook, run on the committed chain.
  \<^item> \<open>rotate_ok\<close> tells whether \<^verbatim>\<open>tls13_rotate_traffic_key\<close> succeeds for a
    direction at a key generation.
  \<^item> \<open>tls13_process_new_session_ticket\<close> is given by its return value and the alerts it
    sends for a ticket body.
  \<^item> \<open>sk_new_ok\<close>, \<open>buffer_new_ok\<close>, \<open>stow_ok\<close>, \<open>cbb_ok\<close> and \<open>add_message_ok\<close> tell
    whether the allocation of the certificate stack, of a certificate buffer (with its
    push on the stack), of a stowed copy, of a CBB, and the queuing of a message succeed.
\<close>

record collab =
  ssl_cert_parse_pubkey :: "bytes \<Rightarrow> pkey option"
  ssl_cert_check_digital_signature_key_usage :: "bytes \<Rightarrow> bool"
  SHA256 :: "bytes \<Rightarrow> bytes"
  ssl_parse_extensions :: "bytes \<Rightarrow> alert_desc + (bytes option \<times> bytes option)"
  ssl_is_sct_list_valid :: "bytes \<Rightarrow> bool"
  session_cache_objects :: "bytes list option \<Rightarrow> bool"
  tls12_check_peer_sigalg :: "16 word \<Rightarrow> alert_desc option"
  ssl_public_key_verify :: "bytes \<Rightarrow> 16 word \<Rightarrow> pkey \<Rightarrow> bytes \<Rightarrow> bool"
  tls13_finished_mac :: "bool \<Rightarrow> bytes option"
  rotate_ok :: "evp_aead_direction_t \<Rightarrow> nat \<Rightarrow> bool"
  tls13_process_new_session_ticket :: "bytes \<Rightarrow> bool \<times> (alert_level \<times> alert_desc) list"
  sk_new_ok :: bool
  buffer_new_ok :: "bytes \<Rightarrow> bool"
  stow_ok :: "bytes \<Rightarrow> bool"
  cbb_ok :: bool
  add_message_ok :: bool

definition ssl3_send_alert :: "alert_level \<Rightarrow> alert_desc \<Rightarrow> ssl_st \<Rightarrow> ssl_st" where
  "ssl3_send_alert level desc ssl = ssl\<lparr>alerts := alerts ssl @ [(level, desc)]\<rparr>"

definition OPENSSL_PUT_ERROR :: "err_reason \<Rightarrow> ssl_st \<Rightarrow> ssl_st" where
  "OPENSSL_PUT_ERROR reason ssl = ssl\<lparr>err_queue := err_queue ssl @ [reason]\<rparr>"

text \<open>
  Modelled from the spec: \<^verbatim>\<open>rotate_traffic_key(direction)\<close> of the key-schedule
  collaborator. A successful rotation replaces the traffic key of the direction by the
  next one; a failed one leaves the keys as they are.
\<close>

definition tls13_rotate_traffic_key ::
  "collab \<Rightarrow> evp_aead_direction_t \<Rightarrow> ssl_st \<Rightarrow> bool \<times> ssl_st" where
  "tls13_rotate_traffic_key env direction ssl =
     (case direction of
        evp_aead_open \<Rightarrow>
          if rotate_ok env evp_aead_open (read_key_generation ssl)
          then (True, ssl\<lparr>read_key_generation := Suc (read_key_generation ssl)\<rparr>)
          else (False, ssl)
      | evp_aead_seal \<Rightarrow>
          if rotate_ok env evp_aead_seal (write_key_generation ssl)
          then (True, ssl\<lparr>write_key_generation := Suc (write_key_generation ssl)\<rparr>)
          else (False, ssl))"

text \<open>
  Modelled from the spec: \<^verbatim>\<open>init_message\<close> followed by \<^verbatim>\<open>ssl_add_message_cbb\<close>
  queues a handshake message of the given type and body on the outgoing flight; the body
  length must fit the 24-bit length of the handshake header.
\<close>

definition ssl_add_message_cbb :: "collab \<Rightarrow> nat \<Rightarrow> bytes \<Rightarrow> ssl_st \<Rightarrow> bool \<times> ssl_st" where
  "ssl_add_message_cbb env typ body ssl =
     (if add_message_ok env \<and> length body < 256 ^ 3
      then (True, ssl\<lparr>flight := flight ssl @ [(typ, body)]\<rparr>)
      else (False, ssl))"

subsection \<open>The key-update sub-protocol\<close>

definition tls13_receive_key_update :: "collab \<Rightarrow> ssl_st \<Rightarrow> bool \<times> ssl_st" where
  "tls13_receive_key_update env ssl =
     (case (case CBS_get_u8 (init_msg ssl) of
              None \<Rightarrow> None
            | Some (key_update_request, cbs) \<Rightarrow>
                if length cbs \<noteq> 0 \<or>
                   (key_update_request \<noteq> SSL_KEY_UPDATE_NOT_REQUESTED \<and>
                    key_update_request \<noteq> SSL_KEY_UPDATE_REQUESTED)
                then None else Some key_update_request) of
        None \<Rightarrow>
          (False, ssl3_send_alert SSL3_AL_FATAL SSL_AD_DECODE_ERROR
                    (OPENSSL_PUT_ERROR SSL_R_DECODE_ERROR ssl))
      | Some key_update_request \<Rightarrow>
          (case tls13_rotate_traffic_key env evp_aead_open ssl of
             (False, ssl1) \<Rightarrow> (False, ssl1)
           | (True, ssl1) \<Rightarrow>
               if key_update_request = SSL_KEY_UPDATE_REQUESTED \<and> \<not> key_update_pending ssl1
               then
                 (if \<not> cbb_ok env then (False, ssl1)
                  else
                    (case ssl_add_message_cbb env SSL3_MT_KEY_UPDATE
                            [SSL_KEY_UPDATE_NOT_REQUESTED] ssl1 of
                       (False, ssl2) \<Rightarrow> (False, ssl2)
                     | (True, ssl2) \<Rightarrow>
                         (case tls13_rotate_traffic_key env evp_aead_seal ssl2 of
                            (False, ssl3) \<Rightarrow> (False, ssl3)
                          | (True, ssl3) \<Rightarrow> (True, ssl3\<lparr>key_update_pending := True\<rparr>))))
               else (True, ssl1)))"

definition tls13_post_handshake :: "collab \<Rightarrow> ssl_st \<Rightarrow> bool \<times> ssl_st" where
  "tls13_post_handshake env ssl =
     (if message_type ssl = SSL3_MT_KEY_UPDATE then
        (let ssl1 = ssl\<lparr>key_update_count := key_update_count ssl + 1\<rparr> in
         if key_update_count ssl1 > kMaxKeyUpdates
         then (False, ssl3_send_alert SSL3_AL_FATAL SSL_AD_UNEXPECTED_MESSAGE
                        (OPENSSL_PUT_ERROR SSL_R_TOO_MANY_KEY_UPDATES ssl1))
         else tls13_receive_key_update env ssl1)
      else
        (let ssl1 = ssl\<lparr>key_update_count := 0\<rparr> in
         if message_type ssl1 = SSL3_MT_NEW_SESSION_TICKET \<and> \<not> server ssl1
         then (case tls13_process_new_session_ticket env (init_msg ssl1) of
                 (ret, sent) \<Rightarrow> (ret, ssl1\<lparr>alerts := alerts ssl1 @ sent\<rparr>))
         else (False, OPENSSL_PUT_ERROR SSL_R_UNEXPECTED_MESSAGE
                        (ssl3_send_alert SSL3_AL_FATAL SSL_AD_UNEXPECTED_MESSAGE ssl1))))"

text \<open>
  A post-handshake dispatch sequence: each message (type and body) is read into the
  state and dispatched; the connection stops at the first failing dispatch.
\<close>

fun post_handshake_run :: "collab \<Rightarrow> ssl_st \<Rightarrow> (nat \<times> bytes) list \<Rightarrow> bool \<times> ssl_st" where
  "post_handshake_run env ssl [] = (True, ssl)"
| "post_handshake_run env ssl (m # ms) =
     (case tls13_post_handshake env (ssl\<lparr>message_type := fst m, init_msg := snd m\<rparr>) of
        (False, ssl1) \<Rightarrow> (False, ssl1)
      | (True, ssl1) \<Rightarrow> post_handshake_run env ssl1 ms)"

subsection \<open>The signature input of CertificateVerify\<close>

text \<open>A C string constant with its terminating NUL byte, as \<^verbatim>\<open>sizeof\<close> counts it.\<close>

definition c_string :: "string \<Rightarrow> bytes" where
  "c_string s = map of_char s @ [0]"

definition kContext_server :: bytes where
  "kContext_server = c_string ''TLS 1.3, server CertificateVerify''"

definition kContext_client :: bytes where
  "kContext_client = c_string ''TLS 1.3, client CertificateVerify''"

definition kContext_channel_id :: bytes where
  "kContext_channel_id = c_string ''TLS 1.3, Channel ID''"

text \<open>
  The result is the output buffer (\<open>None\<close> for the return value 0) and the state, whose
  error queue records the failure. \<open>transcript_hash\<close> is the outcome of
  \<^verbatim>\<open>hs->transcript.GetHash\<close>. The last branch of the C code (a context that is none of
  the three enumerators) has no counterpart: the datatype has no other value.
\<close>

definition tls13_get_cert_verify_signature_input ::
  "collab \<Rightarrow> ssl_cert_verify_context_t \<Rightarrow> ssl_st \<Rightarrow> bytes option \<times> ssl_st" where
  "tls13_get_cert_verify_signature_input env cert_verify_context hs =
     (if \<not> cbb_ok env then (None, OPENSSL_PUT_ERROR ERR_R_MALLOC_FAILURE hs)
      else
        (let cbb = replicate 64 (0x20 :: byte);
             context = (case cert_verify_context of
                          ssl_cert_verify_server \<Rightarrow> kContext_server
                        | ssl_cert_verify_client \<Rightarrow> kContext_client
                        | ssl_cert_verify_channel_id \<Rightarrow> kContext_channel_id);
             cbb1 = cbb @ context
         in case transcript_hash hs of
              None \<Rightarrow> (None, OPENSSL_PUT_ERROR ERR_R_MALLOC_FAILURE hs)
            | Some context_hash \<Rightarrow> (Some (cbb1 @ context_hash), hs)))"

subsection \<open>Processing a Certificate message\<close>

text \<open>
  \<^verbatim>\<open>CBS_stow\<close> frees the old copy and stores a fresh copy of the bytes; an empty CBS is
  stored as the null pointer. When the allocation fails the field is left null.
\<close>

definition CBS_stow :: "collab \<Rightarrow> bytes \<Rightarrow> bool \<times> bytes option" where
  "CBS_stow env cbs =
     (if cbs = [] then (True, None)
      else if stow_ok env cbs then (True, Some cbs)
      else (False, None))"

text \<open>The outer structure: the condition of the first \<^verbatim>\<open>if\<close>, giving the certificate list.\<close>

definition parse_certificate_msg :: "bytes \<Rightarrow> bytes option" where
  "parse_certificate_msg msg =
     (case CBS_get_u8_length_prefixed msg of
        None \<Rightarrow> None
      | Some (context, cbs) \<Rightarrow>
          if length context \<noteq> 0 then None
          else (case CBS_get_u24_length_prefixed cbs of
                  None \<Rightarrow> None
                | Some (certificate_list, cbs1) \<Rightarrow>
                    if length cbs1 \<noteq> 0 then None else Some certificate_list))"

text \<open>
  The condition at the head of the loop body: the certificate, its extension block and
  the rest of the list.
\<close>

definition parse_certificate_entry :: "bytes \<Rightarrow> (bytes \<times> bytes \<times> bytes) option" where
  "parse_certificate_entry certificate_list =
     (case CBS_get_u24_length_prefixed certificate_list of
        None \<Rightarrow> None
      | Some (certificate, cl1) \<Rightarrow>
          (case CBS_get_u16_length_prefixed cl1 of
             None \<Rightarrow> None
           | Some (extensions, cl2) \<Rightarrow>
               if length certificate = 0 then None
               else Some (certificate, extensions, cl2)))"

text \<open>
  The parts of the loop body return \<open>Inl\<close> with the state at a \<^verbatim>\<open>return 0\<close>, and
  \<open>Inr\<close> to go on. First the block run when the stack of certificates is still empty.
\<close>

definition leaf_certificate_checks ::
  "collab \<Rightarrow> bool \<Rightarrow> bytes \<Rightarrow> ssl_st \<Rightarrow> ssl_st + (pkey \<times> ssl_st)" where
  "leaf_certificate_checks env retain_sha256 certificate hs =
     (case ssl_cert_parse_pubkey env certificate of
        None \<Rightarrow> Inl (OPENSSL_PUT_ERROR SSL_R_DECODE_ERROR
                       (ssl3_send_alert SSL3_AL_FATAL SSL_AD_DECODE_ERROR hs))
      | Some pkey \<Rightarrow>
          if \<not> ssl_cert_check_digital_signature_key_usage env certificate
          then Inl (ssl3_send_alert SSL3_AL_FATAL SSL_AD_ILLEGAL_PARAMETER hs)
          else Inr (pkey,
                    if retain_sha256
                    then hs\<lparr>new_session :=
                              (new_session hs)\<lparr>peer_sha256 := SHA256 env certificate\<rparr>\<rparr>
                    else hs))"

text \<open>The payload of a status-request extension: the condition of its decode check.\<close>

definition parse_status_request :: "bytes \<Rightarrow> bytes option" where
  "parse_status_request status_request =
     (case CBS_get_u8 status_request of
        None \<Rightarrow> None
      | Some (status_type, sr1) \<Rightarrow>
          if status_type \<noteq> TLSEXT_STATUSTYPE_ocsp then None
          else (case CBS_get_u24_length_prefixed sr1 of
                  None \<Rightarrow> None
                | Some (ocsp, sr2) \<Rightarrow>
                    if length ocsp = 0 \<or> length sr2 \<noteq> 0 then None else Some ocsp))"

text \<open>
  The two blocks on the recognised extensions; \<open>num_certs\<close> is the number of
  certificates on the stack, the current one included.
\<close>

definition process_status_request ::
  "collab \<Rightarrow> bytes \<Rightarrow> nat \<Rightarrow> ssl_st \<Rightarrow> ssl_st + ssl_st" where
  "process_status_request env status_request num_certs hs =
     (if server hs \<or> \<not> ocsp_stapling_enabled hs
      then Inl (ssl3_send_alert SSL3_AL_FATAL SSL_AD_UNSUPPORTED_EXTENSION
                  (OPENSSL_PUT_ERROR SSL_R_UNEXPECTED_EXTENSION hs))
      else
        (case parse_status_request status_request of
           None \<Rightarrow> Inl (ssl3_send_alert SSL3_AL_FATAL SSL_AD_DECODE_ERROR hs)
         | Some ocsp \<Rightarrow>
             if num_certs = 1 then
               (case CBS_stow env ocsp of
                  (False, p) \<Rightarrow>
                    Inl (ssl3_send_alert SSL3_AL_FATAL SSL_AD_INTERNAL_ERROR
                           (hs\<lparr>new_session := (new_session hs)\<lparr>ocsp_response := p\<rparr>\<rparr>))
                | (True, p) \<Rightarrow>
                    Inr (hs\<lparr>new_session := (new_session hs)\<lparr>ocsp_response := p\<rparr>\<rparr>))
             else Inr hs))"

definition process_sct :: "collab \<Rightarrow> bytes \<Rightarrow> nat \<Rightarrow> ssl_st \<Rightarrow> ssl_st + ssl_st" where
  "process_sct env sct num_certs hs =
     (if server hs \<or> \<not> signed_cert_timestamps_enabled hs
      then Inl (ssl3_send_alert SSL3_AL_FATAL SSL_AD_UNSUPPORTED_EXTENSION
                  (OPENSSL_PUT_ERROR SSL_R_UNEXPECTED_EXTENSION hs))
      else if \<not> ssl_is_sct_list_valid env sct
      then Inl (ssl3_send_alert SSL3_AL_FATAL SSL_AD_DECODE_ERROR
                  (OPENSSL_PUT_ERROR SSL_R_ERROR_PARSING_EXTENSION hs))
      else if num_certs = 1 then
        (case CBS_stow env sct of
           (False, p) \<Rightarrow>
             Inl (ssl3_send_alert SSL3_AL_FATAL SSL_AD_INTERNAL_ERROR
                    (hs\<lparr>new_session :=
                          (new_session hs)\<lparr>tlsext_signed_cert_timestamp_list := p\<rparr>\<rparr>))
         | (True, p) \<Rightarrow>
             Inr (hs\<lparr>new_session :=
                       (new_session hs)\<lparr>tlsext_signed_cert_timestamp_list := p\<rparr>\<rparr>))
      else Inr hs)"

text \<open>The extension part of the loop body, from \<^verbatim>\<open>ssl_parse_extensions\<close> on.\<close>

definition process_entry_extensions ::
  "collab \<Rightarrow> bytes \<Rightarrow> nat \<Rightarrow> ssl_st \<Rightarrow> ssl_st + ssl_st" where
  "process_entry_extensions env extensions num_certs hs =
     (case ssl_parse_extensions env extensions of
        Inl alert \<Rightarrow> Inl (ssl3_send_alert SSL3_AL_FATAL alert hs)
      | Inr (status_request, sct) \<Rightarrow>
          (case (case status_request of
                   None \<Rightarrow> Inr hs
                 | Some sr \<Rightarrow> process_status_request env sr num_certs hs) of
             Inl hs1 \<Rightarrow> Inl hs1
           | Inr hs1 \<Rightarrow>
               (case sct of
                  None \<Rightarrow> Inr hs1
                | Some s \<Rightarrow> process_sct env s num_certs hs1)))"

text \<open>
  One iteration of the loop, on a non-empty \<open>certificate_list\<close>: \<open>stack\<close> is the stack
  of certificates so far (the local \<^verbatim>\<open>certs\<close>) and \<open>pkey\<close> the leaf key so far.
  \<open>Inr\<close> carries the rest of the list and the updated locals.
\<close>

definition process_certificate_entry ::
  "collab \<Rightarrow> bool \<Rightarrow> bytes \<Rightarrow> bytes list \<Rightarrow> pkey option \<Rightarrow> ssl_st \<Rightarrow>
   ssl_st + (bytes \<times> bytes list \<times> pkey option \<times> ssl_st)" where
  "process_certificate_entry env retain_sha256 certificate_list stack pkey hs =
     (case parse_certificate_entry certificate_list of
        None \<Rightarrow> Inl (OPENSSL_PUT_ERROR SSL_R_CERT_LENGTH_MISMATCH
                       (ssl3_send_alert SSL3_AL_FATAL SSL_AD_DECODE_ERROR hs))
      | Some (certificate, extensions, rest) \<Rightarrow>
          (case (if length stack = 0
                 then (case leaf_certificate_checks env retain_sha256 certificate hs of
                         Inl hs1 \<Rightarrow> Inl hs1
                       | Inr (k, hs1) \<Rightarrow> Inr (Some k, hs1))
                 else Inr (pkey, hs)) of
             Inl hs1 \<Rightarrow> Inl hs1
           | Inr (pkey1, hs1) \<Rightarrow>
               if \<not> buffer_new_ok env certificate
               then Inl (OPENSSL_PUT_ERROR ERR_R_MALLOC_FAILURE
                           (ssl3_send_alert SSL3_AL_FATAL SSL_AD_INTERNAL_ERROR hs1))
               else
                 (let stack1 = stack @ [certificate] in
                  case process_entry_extensions env extensions (length stack1) hs1 of
                    Inl hs2 \<Rightarrow> Inl hs2
                  | Inr hs2 \<Rightarrow> Inr (rest, stack1, pkey1, hs2))))"

lemma CBS_get_bytes_length:
  "CBS_get_bytes n cbs = Some (v, rest) \<Longrightarrow> length v = n \<and> length rest + n = length cbs"
  by (auto simp: CBS_get_bytes_def split: if_splits)

lemma cbs_get_length_prefixed_length:
  "cbs_get_length_prefixed n cbs = Some (child, rest) \<Longrightarrow>
   length rest + length child + n = length cbs"
  by (auto simp: cbs_get_length_prefixed_def cbs_get_u_def
           split: option.splits dest!: CBS_get_bytes_length)

lemma parse_certificate_entry_length:
  "parse_certificate_entry cl = Some (certificate, extensions, rest) \<Longrightarrow>
   length rest + length certificate + length extensions + 5 = length cl"
  by (auto simp: parse_certificate_entry_def CBS_get_u24_length_prefixed_def
                 CBS_get_u16_length_prefixed_def
           split: option.splits if_splits dest!: cbs_get_length_prefixed_length)

lemma process_certificate_entry_shorter:
  "process_certificate_entry env retain cl stack pkey hs = Inr (rest, stack1, pkey1, hs1) \<Longrightarrow>
   length rest < length cl"
  by (auto simp: process_certificate_entry_def Let_def
           split: option.splits sum.splits if_splits prod.splits
           dest!: parse_certificate_entry_length)

text \<open>
  The loop \<^verbatim>\<open>while (CBS_len(&certificate_list) > 0)\<close>: \<open>None\<close> with the state at a
  \<^verbatim>\<open>return 0\<close>, or the stack of certificates and the leaf key at the end of the list.
\<close>

function certificate_loop ::
  "collab \<Rightarrow> bool \<Rightarrow> bytes \<Rightarrow> bytes list \<Rightarrow> pkey option \<Rightarrow> ssl_st \<Rightarrow>
   (bytes list \<times> pkey option) option \<times> ssl_st" where
  "certificate_loop env retain_sha256 certificate_list stack pkey hs =
     (if length certificate_list > 0 then
        (case process_certificate_entry env retain_sha256 certificate_list stack pkey hs of
           Inl hs1 \<Rightarrow> (None, hs1)
         | Inr (rest, stack1, pkey1, hs1) \<Rightarrow>
             certificate_loop env retain_sha256 rest stack1 pkey1 hs1)
      else (Some (stack, pkey), hs))"
  by pat_completeness auto
termination
  by (relation "measure (\<lambda>(env, retain, cl, stack, pkey, hs). length cl)")
     (auto dest: process_certificate_entry_shorter)

declare certificate_loop.simps [simp del]

definition tls13_process_certificate :: "collab \<Rightarrow> bool \<Rightarrow> ssl_st \<Rightarrow> bool \<times> ssl_st" where
  "tls13_process_certificate env allow_anonymous hs =
     (case parse_certificate_msg (init_msg hs) of
        None \<Rightarrow> (False, OPENSSL_PUT_ERROR SSL_R_DECODE_ERROR
                          (ssl3_send_alert SSL3_AL_FATAL SSL_AD_DECODE_ERROR hs))
      | Some certificate_list \<Rightarrow>
          if \<not> sk_new_ok env
          then (False, OPENSSL_PUT_ERROR ERR_R_MALLOC_FAILURE
                         (ssl3_send_alert SSL3_AL_FATAL SSL_AD_INTERNAL_ERROR hs))
          else
            (let retain_sha256 = (server hs \<and> retain_only_sha256_of_client_certs hs) in
             case certificate_loop env retain_sha256 certificate_list [] None hs of
               (None, hs1) \<Rightarrow> (False, hs1)
             | (Some (certs0, pkey), hs1) \<Rightarrow>
                 (let certs1 = (if length certs0 = 0 then None else Some certs0);
                      hs2 = hs1\<lparr>peer_pubkey := pkey,
                                new_session := (new_session hs1)\<lparr>certs := certs1\<rparr>\<rparr>
                  in if \<not> session_cache_objects env (certs (new_session hs2))
                     then (False, ssl3_send_alert SSL3_AL_FATAL SSL_AD_DECODE_ERROR
                                    (OPENSSL_PUT_ERROR SSL_R_DECODE_ERROR hs2))
                     else if certs (new_session hs2) = None then
                       (if \<not> allow_anonymous
                        then (False, ssl3_send_alert SSL3_AL_FATAL SSL_AD_CERTIFICATE_REQUIRED
                                       (OPENSSL_PUT_ERROR
                                          SSL_R_PEER_DID_NOT_RETURN_A_CERTIFICATE hs2))
                        else (True, hs2\<lparr>new_session :=
                                          (new_session hs2)\<lparr>verify_result := X509_V_OK\<rparr>\<rparr>))
                     else (True, hs2\<lparr>new_session :=
                                       (new_session hs2)\<lparr>peer_sha256_valid := retain_sha256\<rparr>\<rparr>))))"

subsection \<open>Processing CertificateVerify and Finished\<close>

definition tls13_process_certificate_verify :: "collab \<Rightarrow> ssl_st \<Rightarrow> bool \<times> ssl_st" where
  "tls13_process_certificate_verify env hs =
     (case peer_pubkey hs of
        None \<Rightarrow> (False, OPENSSL_PUT_ERROR ERR_R_INTERNAL_ERROR hs)
      | Some pk \<Rightarrow>
          (case (case CBS_get_u16 (init_msg hs) of
                   None \<Rightarrow> None
                 | Some (signature_algorithm, cbs) \<Rightarrow>
                     (case CBS_get_u16_length_prefixed cbs of
                        None \<Rightarrow> None
                      | Some (signature, cbs1) \<Rightarrow>
                          if length cbs1 \<noteq> 0 then None
                          else Some (signature_algorithm, signature))) of
             None \<Rightarrow> (False, ssl3_send_alert SSL3_AL_FATAL SSL_AD_DECODE_ERROR
                               (OPENSSL_PUT_ERROR SSL_R_DECODE_ERROR hs))
           | Some (signature_algorithm, signature) \<Rightarrow>
               (case tls12_check_peer_sigalg env signature_algorithm of
                  Some alert \<Rightarrow> (False, ssl3_send_alert SSL3_AL_FATAL alert hs)
                | None \<Rightarrow>
                    (let hs1 = hs\<lparr>new_session := (new_session hs)
                                  \<lparr>peer_signature_algorithm := signature_algorithm\<rparr>\<rparr>
                     in case tls13_get_cert_verify_signature_input env
                               (if server hs1 then ssl_cert_verify_client
                                else ssl_cert_verify_server) hs1 of
                          (None, hs2) \<Rightarrow>
                            (False, ssl3_send_alert SSL3_AL_FATAL SSL_AD_INTERNAL_ERROR hs2)
                        | (Some msg, hs2) \<Rightarrow>
                            if \<not> ssl_public_key_verify env signature signature_algorithm pk msg
                            then (False, ssl3_send_alert SSL3_AL_FATAL SSL_AD_DECRYPT_ERROR
                                           (OPENSSL_PUT_ERROR SSL_R_BAD_SIGNATURE hs2))
                            else (True, hs2)))))"

text \<open>
  Modelled from the spec: \<^verbatim>\<open>CRYPTO_memcmp\<close> (crypto/mem.c), the constant-time byte
  comparison: it accumulates the differences of the first \<open>len\<close> bytes of both buffers
  and returns 0 exactly when there is none.
\<close>

definition CRYPTO_memcmp :: "bytes \<Rightarrow> bytes \<Rightarrow> nat \<Rightarrow> byte" where
  "CRYPTO_memcmp a b len =
     fold (\<lambda>(x, y) acc. acc OR (x XOR y)) (zip (take len a) (take len b)) 0"

text \<open>
  \<open>None\<close> is the failure of \<^verbatim>\<open>assert(ssl->server)\<close>. With a saved value the expected
  bytes are the first \<open>hash_len\<close> bytes of the buffer \<open>expected_client_finished\<close>;
  otherwise they are the output of \<open>tls13_finished_mac\<close>, with its length.
\<close>

definition tls13_process_finished ::
  "collab \<Rightarrow> bool \<Rightarrow> ssl_st \<Rightarrow> (bool \<times> ssl_st) option" where
  "tls13_process_finished env use_saved_value hs =
     (if use_saved_value \<and> \<not> server hs then None
      else
        (case (if use_saved_value
               then Some (expected_client_finished hs, hash_len hs)
               else (case tls13_finished_mac env (\<not> server hs) of
                       None \<Rightarrow> None
                     | Some verify_data_buf \<Rightarrow>
                         Some (verify_data_buf, length verify_data_buf))) of
           None \<Rightarrow> Some (False, hs)
         | Some (verify_data, verify_data_len) \<Rightarrow>
             (let finished_ok =
                    (length (init_msg hs) = verify_data_len \<and>
                     CRYPTO_memcmp verify_data (init_msg hs) verify_data_len = 0)
              in if \<not> finished_ok
                 then Some (False, OPENSSL_PUT_ERROR SSL_R_DIGEST_CHECK_FAILED
                                     (ssl3_send_alert SSL3_AL_FATAL SSL_AD_DECRYPT_ERROR hs))
                 else Some (True, hs))))"

subsection \<open>Building a Certificate message\<close>

text \<open>
  Modelled from the spec: \<^verbatim>\<open>ssl_has_certificate\<close> (ssl_cert.cc): the local chain is
  present, has a leaf, and its private key is configured.
\<close>

definition ssl_has_certificate :: "ssl_st \<Rightarrow> bool" where
  "ssl_has_certificate ssl =
     (case cert_chain ssl of
        None \<Rightarrow> False
      | Some [] \<Rightarrow> False
      | Some (leaf_buf # chain) \<Rightarrow> has_private_key ssl)"

text \<open>
  The two leaf extensions, as the bytes added to the extension block: empty when the
  extension is not sent, \<open>None\<close> when a CBB call of the block fails (a length does not
  fit its prefix).
\<close>

definition sct_extension :: "ssl_st \<Rightarrow> bytes option" where
  "sct_extension hs =
     (case (if scts_requested hs then cert_signed_cert_timestamp_list hs else None) of
        None \<Rightarrow> Some []
      | Some sct_list \<Rightarrow>
          (case cbb_length_prefixed 2 sct_list of
             None \<Rightarrow> None
           | Some contents \<Rightarrow> Some (CBB_u16 TLSEXT_TYPE_certificate_timestamp @ contents)))"

definition ocsp_extension :: "ssl_st \<Rightarrow> bytes option" where
  "ocsp_extension hs =
     (case (if ocsp_stapling_requested hs then cert_ocsp_response hs else None) of
        None \<Rightarrow> Some []
      | Some response \<Rightarrow>
          (case cbb_length_prefixed 3 response of
             None \<Rightarrow> None
           | Some ocsp \<Rightarrow>
               (case cbb_length_prefixed 2 ([TLSEXT_STATUSTYPE_ocsp] @ ocsp) of
                  None \<Rightarrow> None
                | Some contents \<Rightarrow> Some (CBB_u16 TLSEXT_TYPE_status_request @ contents))))"

text \<open>The loop over the chain from index 1: each certificate with no extensions.\<close>

fun add_chain_certificates :: "bytes list \<Rightarrow> bytes option" where
  "add_chain_certificates [] = Some []"
| "add_chain_certificates (cert_buf # chain) =
     (case cbb_length_prefixed 3 cert_buf of
        None \<Rightarrow> None
      | Some child \<Rightarrow>
          (case add_chain_certificates chain of
             None \<Rightarrow> None
           | Some tail_certs \<Rightarrow> Some (child @ CBB_u16 0 @ tail_certs)))"

text \<open>
  \<^verbatim>\<open>ssl_add_message_cbb\<close> on the finished builder: the request context (one zero byte)
  and the length-prefixed certificate list.
\<close>

definition finish_certificate_message :: "collab \<Rightarrow> bytes \<Rightarrow> ssl_st \<Rightarrow> bool \<times> ssl_st" where
  "finish_certificate_message env certificate_list hs =
     (case cbb_length_prefixed 3 certificate_list of
        None \<Rightarrow> (False, hs)
      | Some cl \<Rightarrow> ssl_add_message_cbb env SSL3_MT_CERTIFICATE ([0] @ cl) hs)"

text \<open>
  A child of the builder is closed by the next call on its parent. The extension block of
  the leaf is therefore closed by the first iteration of the loop over the chain, or,
  when the chain has the leaf only, by \<^verbatim>\<open>ssl_add_message_cbb\<close>.
\<close>

definition tls13_add_certificate :: "collab \<Rightarrow> ssl_st \<Rightarrow> bool \<times> ssl_st" where
  "tls13_add_certificate env hs =
     (if \<not> cbb_ok env then (False, OPENSSL_PUT_ERROR ERR_R_INTERNAL_ERROR hs)
      else if \<not> ssl_has_certificate hs then finish_certificate_message env [] hs
      else
        (case cert_chain hs of
           Some (leaf_buf # chain) \<Rightarrow>
             (case cbb_length_prefixed 3 leaf_buf of
                None \<Rightarrow> (False, OPENSSL_PUT_ERROR ERR_R_INTERNAL_ERROR hs)
              | Some leaf \<Rightarrow>
                  (case sct_extension hs of
                     None \<Rightarrow> (False, OPENSSL_PUT_ERROR ERR_R_INTERNAL_ERROR hs)
                   | Some ext1 \<Rightarrow>
                       (case ocsp_extension hs of
                          None \<Rightarrow> (False, OPENSSL_PUT_ERROR ERR_R_INTERNAL_ERROR hs)
                        | Some ext2 \<Rightarrow>
                            if chain = [] then
                              (case cbb_length_prefixed 2 (ext1 @ ext2) of
                                 None \<Rightarrow> (False, hs)
                               | Some extensions \<Rightarrow>
                                   finish_certificate_message env (leaf @ extensions) hs)
                            else
                              (case cbb_length_prefixed 2 (ext1 @ ext2) of
                                 None \<Rightarrow> (False, OPENSSL_PUT_ERROR ERR_R_INTERNAL_ERROR hs)
                               | Some extensions \<Rightarrow>
                                   (case add_chain_certificates chain of
                                      None \<Rightarrow>
                                        (False, OPENSSL_PUT_ERROR ERR_R_INTERNAL_ERROR hs)
                                    | Some tail_certs \<Rightarrow>
                                        finish_certificate_message env
                                          (leaf @ extensions @ tail_certs) hs)))))
         | _ \<Rightarrow> (False, hs)))"

subsection \<open>A concrete instance of the collaborators\<close>

text \<open>
  Modelled from the spec: extension parsing with an allow-list of the two recognised
  types, each a 16-bit type and a 16-bit-length-prefixed payload; an unknown type is
  rejected outright (unsupported-extension), a malformed block is a decode error, and a
  repeated type is rejected as well. This instance of \<open>ssl_parse_extensions\<close>, and the
  collaborators and the client state below, serve to run the handlers on concrete
  messages.
\<close>

function parse_two_extensions ::
  "bytes \<Rightarrow> bytes option \<Rightarrow> bytes option \<Rightarrow> alert_desc + (bytes option \<times> bytes option)" where
  "parse_two_extensions cbs status_request sct =
     (if length cbs \<noteq> 0 then
        (case cbs_get_u 2 cbs of
           None \<Rightarrow> Inl SSL_AD_DECODE_ERROR
         | Some (type, cbs1) \<Rightarrow>
             (case CBS_get_u16_length_prefixed cbs1 of
                None \<Rightarrow> Inl SSL_AD_DECODE_ERROR
              | Some (data, cbs2) \<Rightarrow>
                  if type = TLSEXT_TYPE_status_request then
                    (if status_request \<noteq> None then Inl SSL_AD_ILLEGAL_PARAMETER
                     else parse_two_extensions cbs2 (Some data) sct)
                  else if type = TLSEXT_TYPE_certificate_timestamp then
                    (if sct \<noteq> None then Inl SSL_AD_ILLEGAL_PARAMETER
                     else parse_two_extensions cbs2 status_request (Some data))
                  else Inl SSL_AD_UNSUPPORTED_EXTENSION))
      else Inr (status_request, sct))"
  by pat_completeness auto
termination
  by (relation "measure (\<lambda>(cbs, status_request, sct). length cbs)")
     (auto simp: cbs_get_u_def CBS_get_u16_length_prefixed_def
           split: option.splits
           dest!: CBS_get_bytes_length cbs_get_length_prefixed_length)

declare parse_two_extensions.simps [simp del]

definition example_collab :: collab where
  "example_collab =
     \<lparr>ssl_cert_parse_pubkey = (\<lambda>certificate. Some (take 2 certificate)),
      ssl_cert_check_digital_signature_key_usage = (\<lambda>certificate. True),
      SHA256 = (\<lambda>data. replicate 32 0),
      ssl_parse_extensions = (\<lambda>extensions. parse_two_extensions extensions None None),
      ssl_is_sct_list_valid = (\<lambda>sct. sct \<noteq> []),
      session_cache_objects = (\<lambda>chain. True),
      tls12_check_peer_sigalg = (\<lambda>sigalg. None),
      ssl_public_key_verify = (\<lambda>signature sigalg key msg. signature = key),
      tls13_finished_mac = (\<lambda>is_server. Some [1, 2, 3, 4]),
      rotate_ok = (\<lambda>direction generation. True),
      tls13_process_new_session_ticket = (\<lambda>body. (True, [])),
      sk_new_ok = True,
      buffer_new_ok = (\<lambda>certificate. True),
      stow_ok = (\<lambda>data. True),
      cbb_ok = True,
      add_message_ok = True\<rparr>"

definition empty_session :: ssl_session where
  "empty_session =
     \<lparr>certs = None, peer_sha256 = replicate 32 0, peer_sha256_valid = False,
      ocsp_response = None, tlsext_signed_cert_timestamp_list = None,
      verify_result = 1, peer_signature_algorithm = 0\<rparr>"

definition example_client :: ssl_st where
  "example_client =
     \<lparr>server = False, init_msg = [], message_type = 0,
      retain_only_sha256_of_client_certs = False,
      ocsp_stapling_enabled = True, signed_cert_timestamps_enabled = True,
      key_update_count = 0, key_update_pending = False,
      read_key_generation = 0, write_key_generation = 0,
      alerts = [], err_queue = [], flight = [],
      cert_chain = None, has_private_key = False,
      cert_signed_cert_timestamp_list = None, cert_ocsp_response = None,
      peer_pubkey = None, new_session = empty_session,
      expected_client_finished = replicate 64 0, hash_len = 32,
      transcript_hash = Some [7, 7], scts_requested = False,
      ocsp_stapling_requested = False\<rparr>"

text \<open>Inputs of the key-update handlers: a KeyUpdate arriving at the ceiling, and a
  KeyUpdate that requests one in return.\<close>

definition key_update_at_limit :: ssl_st where
  "key_update_at_limit =
     example_client\<lparr>message_type := SSL3_MT_KEY_UPDATE, init_msg := [SSL_KEY_UPDATE_REQUESTED],
                    key_update_count := 32\<rparr>"

definition key_update_requested :: ssl_st where
  "key_update_requested = example_client\<lparr>init_msg := [SSL_KEY_UPDATE_REQUESTED]\<rparr>"

text \<open>The state after the failure of the Finished check, and a received Finished
  message that differs from the expected one in one bit.\<close>

definition finished_failure :: "ssl_st \<Rightarrow> ssl_st" where
  "finished_failure hs =
     hs\<lparr>alerts := alerts hs @ [(SSL3_AL_FATAL, SSL_AD_DECRYPT_ERROR)],
        err_queue := err_queue hs @ [SSL_R_DIGEST_CHECK_FAILED]\<rparr>"

definition finished_flipped :: ssl_st where
  "finished_flipped = example_client\<lparr>init_msg := [1, 2, 7, 4]\<rparr>"

subsection \<open>The wire format of the Certificate message, as the specification words it\<close>

text \<open>
  The specification's layout of a Certificate message, used to state what the parser
  accepts: an entry is a 24-bit-length-prefixed certificate body followed by a
  16-bit-length-prefixed extension block (\<open>spec_entry\<close>, on the pair of body and
  block); the body is not empty and both lengths fit their prefixes (\<open>spec_entry_ok\<close>);
  the message is an empty 1-byte-length-prefixed context followed by the
  24-bit-length-prefixed sequence of entries (\<open>spec_certificate_msg\<close>).
  \<open>decode_error_state\<close> is the state after a fatal decode-error alert with the given
  reason on the error queue.
\<close>

definition spec_entry :: "bytes \<times> bytes \<Rightarrow> bytes" where
  "spec_entry e =
     be_bytes 3 (length (fst e)) @ fst e @ be_bytes 2 (length (snd e)) @ snd e"

definition spec_entry_ok :: "bytes \<times> bytes \<Rightarrow> bool" where
  "spec_entry_ok e \<longleftrightarrow>
     fst e \<noteq> [] \<and> length (fst e) < 256 ^ 3 \<and> length (snd e) < 256 ^ 2"

definition spec_certificate_list :: "(bytes \<times> bytes) list \<Rightarrow> bytes" where
  "spec_certificate_list entries = concat (map spec_entry entries)"

definition spec_certificate_msg :: "(bytes \<times> bytes) list \<Rightarrow> bytes" where
  "spec_certificate_msg entries =
     [0] @ be_bytes 3 (length (spec_certificate_list entries)) @ spec_certificate_list entries"

definition decode_error_state :: "err_reason \<Rightarrow> ssl_st \<Rightarrow> ssl_st" where
  "decode_error_state reason hs =
     hs\<lparr>alerts := alerts hs @ [(SSL3_AL_FATAL, SSL_AD_DECODE_ERROR)],
        err_queue := err_queue hs @ [reason]\<rparr>"

text \<open>What an iteration of the loop never changes.\<close>

definition loop_frame :: "ssl_st \<Rightarrow> ssl_st \<Rightarrow> bool" where
  "loop_frame hs hs1 \<longleftrightarrow>
     certs (new_session hs1) = certs (new_session hs) \<and>
     verify_result (new_session hs1) = verify_result (new_session hs) \<and>
     peer_pubkey hs1 = peer_pubkey hs \<and> init_msg hs1 = init_msg hs \<and>
     server hs1 = server hs \<and> ocsp_stapling_enabled hs1 = ocsp_stapling_enabled hs \<and>
     signed_cert_timestamps_enabled hs1 = signed_cert_timestamps_enabled hs \<and>
     flight hs1 = flight hs"

subsection \<open>Example messages and auxiliary notions of the properties\<close>

text \<open>Certificate messages for the client state: one certificate \<open>[9, 9, 9]\<close> with no
  extension; no certificate; a well-formed first entry followed by a truncated second
  entry, received when a chain is already stored; a leaf entry with an empty body.\<close>

definition one_certificate_msg :: ssl_st where
  "one_certificate_msg = example_client\<lparr>init_msg := [0, 0, 0, 8, 0, 0, 3, 9, 9, 9, 0, 0]\<rparr>"

definition no_certificate_msg :: ssl_st where
  "no_certificate_msg = example_client\<lparr>init_msg := [0, 0, 0, 0]\<rparr>"

definition bad_second_entry_msg :: ssl_st where
  "bad_second_entry_msg =
     example_client\<lparr>init_msg := [0, 0, 0, 11, 0, 0, 3, 9, 9, 9, 0, 0, 0, 0, 0],
                    new_session := empty_session\<lparr>certs := Some [[1]]\<rparr>\<rparr>"

definition empty_leaf_msg :: ssl_st where
  "empty_leaf_msg = example_client\<lparr>init_msg := [0, 0, 0, 5, 0, 0, 0, 0, 0]\<rparr>"

text \<open>The verdict of a part of the loop body: whether it goes on, with the alerts sent and
  the error queue.\<close>

definition verdict :: "ssl_st + ssl_st \<Rightarrow> bool \<times> (alert_level \<times> alert_desc) list \<times> err_reason list" where
  "verdict r = (case r of Inl h \<Rightarrow> (False, alerts h, err_queue h)
                        | Inr h \<Rightarrow> (True, alerts h, err_queue h))"

text \<open>The values the leaf's extension block gives the two session fields: the OCSP
  response of its status-request extension and its SCT list, or the old value of the
  field when the extension is absent.\<close>

definition leaf_ocsp_response :: "collab \<Rightarrow> bytes \<Rightarrow> bytes option \<Rightarrow> bytes option" where
  "leaf_ocsp_response env extensions old =
     (case ssl_parse_extensions env extensions of
        Inr (Some sr, sct) \<Rightarrow> parse_status_request sr
      | _ \<Rightarrow> old)"

definition leaf_sct_list :: "collab \<Rightarrow> bytes \<Rightarrow> bytes option \<Rightarrow> bytes option" where
  "leaf_sct_list env extensions old =
     (case ssl_parse_extensions env extensions of
        Inr (sr, Some sct) \<Rightarrow> (if sct = [] then None else Some sct)
      | _ \<Rightarrow> old)"

text \<open>A chain of two entries, each with a status-request extension: the leaf staples the
  OCSP response \<open>[170]\<close>, the second entry \<open>[187]\<close>.\<close>

definition stapled_chain_msg :: ssl_st where
  "stapled_chain_msg =
     example_client\<lparr>init_msg :=
       [0, 0, 0, 32,
        0, 0, 3, 9, 9, 9, 0, 9, 0, 5, 0, 5, 1, 0, 0, 1, 170,
        0, 0, 1, 8, 0, 9, 0, 5, 0, 5, 1, 0, 0, 1, 187]\<rparr>"

text \<open>The entries of a chain encoded with empty extension blocks, as
  \<open>tls13_add_certificate\<close> encodes it when nothing is stapled to the leaf.\<close>

definition bare_entries :: "bytes list \<Rightarrow> (bytes \<times> bytes) list" where
  "bare_entries chain = map (\<lambda>c. (c, [])) chain"

text \<open>A sender whose local chain is the certificate \<open>[9, 9, 9]\<close>, with its private key
  and nothing to staple.\<close>

definition example_sender :: ssl_st where
  "example_sender = example_client\<lparr>cert_chain := Some [[9, 9, 9]], has_private_key := True\<rparr>"

text \<open>Collaborators whose traffic-key rotation fails, and a KeyUpdate with the undefined
  request code 2.\<close>

definition rotation_fails :: collab where
  "rotation_fails = example_collab\<lparr>rotate_ok := (\<lambda>direction generation. False)\<rparr>"

definition key_update_undefined_code :: ssl_st where
  "key_update_undefined_code = example_client\<lparr>init_msg := [2]\<rparr>"

text \<open>
  The specification's conditions on the extension block of an entry: the block parses
  with the allow-list; a status-request extension is present only when the local role is
  not the server and OCSP stapling is enabled, with a well-formed payload; a
  certificate-timestamp extension is present only when the local role is not the server
  and SCT processing is enabled, with a list that passes validation.
\<close>

definition entry_extensions_valid :: "collab \<Rightarrow> ssl_st \<Rightarrow> bytes \<Rightarrow> bool" where
  "entry_extensions_valid env hs extensions =
     (case ssl_parse_extensions env extensions of
        Inl alert \<Rightarrow> False
      | Inr (status_request, sct) \<Rightarrow>
          (case status_request of
             None \<Rightarrow> True
           | Some sr \<Rightarrow> \<not> server hs \<and> ocsp_stapling_enabled hs \<and>
                       parse_status_request sr \<noteq> None) \<and>
          (case sct of
             None \<Rightarrow> True
           | Some s \<Rightarrow> \<not> server hs \<and> signed_cert_timestamps_enabled hs \<and>
                      ssl_is_sct_list_valid env s))"

text \<open>A valid leaf with a stapled response, followed by an entry whose status-request
  extension has the undefined status type 2.\<close>

definition bad_nonleaf_extension_msg :: ssl_st where
  "bad_nonleaf_extension_msg =
     example_client\<lparr>init_msg :=
       [0, 0, 0, 32,
        0, 0, 3, 9, 9, 9, 0, 9, 0, 5, 0, 5, 1, 0, 0, 1, 170,
        0, 0, 1, 8, 0, 9, 0, 5, 0, 5, 2, 0, 0, 1, 187]\<rparr>"

section \<open>Properties\<close>

subsection \<open>The key-update counter and the receipt of a KeyUpdate\<close>

lemmas key_update_defs = tls13_receive_key_update_def tls13_rotate_traffic_key_def
  ssl_add_message_cbb_def ssl3_send_alert_def OPENSSL_PUT_ERROR_def CBS_get_u8_def

lemma receive_key_update_count:
  "key_update_count (snd (tls13_receive_key_update env ssl)) = key_update_count ssl"
  by (simp add: key_update_defs split: list.splits option.splits)

lemma post_handshake_success_count:
  assumes "tls13_post_handshake env ssl = (True, ssl1)"
  shows "key_update_count ssl1 \<le> kMaxKeyUpdates"
proof (cases "message_type ssl = SSL3_MT_KEY_UPDATE")
  case True
  with assms have le: "\<not> kMaxKeyUpdates < key_update_count ssl + 1"
    by (auto simp: tls13_post_handshake_def Let_def split: if_splits)
  from True assms le have "ssl1 = snd (tls13_receive_key_update env (ssl\<lparr>key_update_count := key_update_count ssl + 1\<rparr>))"
    by (simp add: tls13_post_handshake_def Let_def)
  then have "key_update_count ssl1 = key_update_count ssl + 1"
    by (simp add: receive_key_update_count)
  with le show ?thesis by simp
next
  case False
  with assms have "key_update_count ssl1 = 0"
    by (auto simp: tls13_post_handshake_def Let_def OPENSSL_PUT_ERROR_def ssl3_send_alert_def
             split: if_splits prod.splits)
  then show ?thesis by simp
qed

lemma post_handshake_run_count:
  "key_update_count ssl \<le> kMaxKeyUpdates \<Longrightarrow> post_handshake_run env ssl ms = (True, ssl1) \<Longrightarrow>
   key_update_count ssl1 \<le> kMaxKeyUpdates"
proof (induction ms arbitrary: ssl)
  case Nil
  then show ?case by simp
next
  case (Cons m ms)
  obtain r s where step: "tls13_post_handshake env (ssl\<lparr>message_type := fst m, init_msg := snd m\<rparr>) = (r, s)"
    by (cases "tls13_post_handshake env (ssl\<lparr>message_type := fst m, init_msg := snd m\<rparr>)")
  with Cons.prems(2) have r: "r" and run: "post_handshake_run env s ms = (True, ssl1)"
    by (auto split: bool.splits)
  from step r have "key_update_count s \<le> kMaxKeyUpdates"
    by (simp add: post_handshake_success_count)
  then show ?case using run by (rule Cons.IH)
qed

text \<open>
  C1: in a post-handshake dispatch, a KeyUpdate message increments the key-update counter
  and any other message resets it to zero. When the incremented counter exceeds the
  ceiling \<open>kMaxKeyUpdates\<close> (32), the dispatch fails with the reason too-many-key-updates
  and one fatal unexpected-message alert, and nothing else of the state changes: no
  traffic key is rotated. In particular this is what happens with the counter at 32 and
  one more KeyUpdate. Over a sequence of dispatches that all succeed, a counter that
  starts at most 32 stays at most 32.
\<close>

theorem C1_key_update_counter:
  "(message_type ssl = SSL3_MT_KEY_UPDATE \<longrightarrow>
      key_update_count (snd (tls13_post_handshake env ssl)) = key_update_count ssl + 1) \<and>
   (message_type ssl \<noteq> SSL3_MT_KEY_UPDATE \<longrightarrow>
      key_update_count (snd (tls13_post_handshake env ssl)) = 0) \<and>
   (message_type ssl = SSL3_MT_KEY_UPDATE \<and> kMaxKeyUpdates < key_update_count ssl + 1 \<longrightarrow>
      tls13_post_handshake env ssl =
        (False, ssl\<lparr>key_update_count := key_update_count ssl + 1,
                    err_queue := err_queue ssl @ [SSL_R_TOO_MANY_KEY_UPDATES],
                    alerts := alerts ssl @ [(SSL3_AL_FATAL, SSL_AD_UNEXPECTED_MESSAGE)]\<rparr>)) \<and>
   (message_type ssl = SSL3_MT_KEY_UPDATE \<and> key_update_count ssl = 32 \<longrightarrow>
      fst (tls13_post_handshake env ssl) = False \<and>
      read_key_generation (snd (tls13_post_handshake env ssl)) = read_key_generation ssl \<and>
      write_key_generation (snd (tls13_post_handshake env ssl)) = write_key_generation ssl \<and>
      flight (snd (tls13_post_handshake env ssl)) = flight ssl \<and>
      alerts (snd (tls13_post_handshake env ssl)) =
        alerts ssl @ [(SSL3_AL_FATAL, SSL_AD_UNEXPECTED_MESSAGE)] \<and>
      err_queue (snd (tls13_post_handshake env ssl)) =
        err_queue ssl @ [SSL_R_TOO_MANY_KEY_UPDATES]) \<and>
   (key_update_count ssl \<le> kMaxKeyUpdates \<and> fst (post_handshake_run env ssl ms) \<longrightarrow>
      key_update_count (snd (post_handshake_run env ssl ms)) \<le> kMaxKeyUpdates)"
proof (intro conjI impI)
  assume "message_type ssl = SSL3_MT_KEY_UPDATE"
  then show "key_update_count (snd (tls13_post_handshake env ssl)) = key_update_count ssl + 1"
    by (simp add: tls13_post_handshake_def Let_def receive_key_update_count
                  OPENSSL_PUT_ERROR_def ssl3_send_alert_def)
next
  assume "message_type ssl \<noteq> SSL3_MT_KEY_UPDATE"
  then show "key_update_count (snd (tls13_post_handshake env ssl)) = 0"
    by (simp add: tls13_post_handshake_def Let_def OPENSSL_PUT_ERROR_def ssl3_send_alert_def
             split: prod.splits)
next
  assume "message_type ssl = SSL3_MT_KEY_UPDATE \<and> kMaxKeyUpdates < key_update_count ssl + 1"
  then show "tls13_post_handshake env ssl =
        (False, ssl\<lparr>key_update_count := key_update_count ssl + 1,
                    err_queue := err_queue ssl @ [SSL_R_TOO_MANY_KEY_UPDATES],
                    alerts := alerts ssl @ [(SSL3_AL_FATAL, SSL_AD_UNEXPECTED_MESSAGE)]\<rparr>)"
    by (simp add: tls13_post_handshake_def Let_def OPENSSL_PUT_ERROR_def ssl3_send_alert_def)
next
  assume a: "message_type ssl = SSL3_MT_KEY_UPDATE \<and> key_update_count ssl = 32"
  then have "tls13_post_handshake env ssl =
        (False, ssl\<lparr>key_update_count := key_update_count ssl + 1,
                    err_queue := err_queue ssl @ [SSL_R_TOO_MANY_KEY_UPDATES],
                    alerts := alerts ssl @ [(SSL3_AL_FATAL, SSL_AD_UNEXPECTED_MESSAGE)]\<rparr>)"
    by (simp add: tls13_post_handshake_def Let_def OPENSSL_PUT_ERROR_def ssl3_send_alert_def
                  kMaxKeyUpdates_def)
  then show "fst (tls13_post_handshake env ssl) = False"
    and "read_key_generation (snd (tls13_post_handshake env ssl)) = read_key_generation ssl"
    and "write_key_generation (snd (tls13_post_handshake env ssl)) = write_key_generation ssl"
    and "flight (snd (tls13_post_handshake env ssl)) = flight ssl"
    and "alerts (snd (tls13_post_handshake env ssl)) =
        alerts ssl @ [(SSL3_AL_FATAL, SSL_AD_UNEXPECTED_MESSAGE)]"
    and "err_queue (snd (tls13_post_handshake env ssl)) =
        err_queue ssl @ [SSL_R_TOO_MANY_KEY_UPDATES]"
    by simp_all
next
  assume "key_update_count ssl \<le> kMaxKeyUpdates \<and> fst (post_handshake_run env ssl ms)"
  then show "key_update_count (snd (post_handshake_run env ssl ms)) \<le> kMaxKeyUpdates"
    using post_handshake_run_count[of ssl env ms "snd (post_handshake_run env ssl ms)"]
    by (cases "post_handshake_run env ssl ms") auto
qed

theorem C1_key_update_counter_witness:
  "fst (tls13_post_handshake example_collab key_update_at_limit) = False \<and>
   key_update_count (snd (tls13_post_handshake example_collab key_update_at_limit)) = 33 \<and>
   read_key_generation (snd (tls13_post_handshake example_collab key_update_at_limit)) = 0 \<and>
   write_key_generation (snd (tls13_post_handshake example_collab key_update_at_limit)) = 0 \<and>
   flight (snd (tls13_post_handshake example_collab key_update_at_limit)) = [] \<and>
   alerts (snd (tls13_post_handshake example_collab key_update_at_limit)) =
     [(SSL3_AL_FATAL, SSL_AD_UNEXPECTED_MESSAGE)] \<and>
   err_queue (snd (tls13_post_handshake example_collab key_update_at_limit)) =
     [SSL_R_TOO_MANY_KEY_UPDATES]"
proof -
  have h: "message_type key_update_at_limit = SSL3_MT_KEY_UPDATE \<and>
           key_update_count key_update_at_limit = 32"
    by (simp add: key_update_at_limit_def)
  have v: "key_update_count key_update_at_limit + 1 = 33"
          "read_key_generation key_update_at_limit = 0"
          "write_key_generation key_update_at_limit = 0"
          "flight key_update_at_limit = []" "alerts key_update_at_limit = []"
          "err_queue key_update_at_limit = []"
    by (simp_all add: key_update_at_limit_def example_client_def)
  from C1_key_update_counter[of key_update_at_limit example_collab "[]"] h show ?thesis
    by (simp add: v)
qed

text \<open>
  C2: the receipt of a KeyUpdate succeeds only on a body of exactly one byte that is one
  of the two defined codes. On any other body (another value, no byte, more bytes) it
  fails with the reason decode-error and one fatal decode-error alert, and nothing else
  of the state changes: no traffic key is rotated. On success the read key has been
  rotated once. On success with the code "requested" and no acknowledgement pending, a
  KeyUpdate "not requested" has been queued, the write key rotated once and the pending
  flag set; with the code "not requested" or an acknowledgement pending, no message is
  queued and the write key and the flag are as before. A valid body succeeds when the
  collaborators do.
\<close>

theorem C2_receive_key_update:
  "(fst (tls13_receive_key_update env ssl) \<longrightarrow>
      init_msg ssl = [SSL_KEY_UPDATE_NOT_REQUESTED] \<or> init_msg ssl = [SSL_KEY_UPDATE_REQUESTED]) \<and>
   (init_msg ssl \<noteq> [SSL_KEY_UPDATE_NOT_REQUESTED] \<and> init_msg ssl \<noteq> [SSL_KEY_UPDATE_REQUESTED] \<longrightarrow>
      tls13_receive_key_update env ssl =
        (False, ssl\<lparr>err_queue := err_queue ssl @ [SSL_R_DECODE_ERROR],
                    alerts := alerts ssl @ [(SSL3_AL_FATAL, SSL_AD_DECODE_ERROR)]\<rparr>)) \<and>
   (fst (tls13_receive_key_update env ssl) \<longrightarrow>
      read_key_generation (snd (tls13_receive_key_update env ssl)) =
        Suc (read_key_generation ssl)) \<and>
   (fst (tls13_receive_key_update env ssl) \<and>
    init_msg ssl = [SSL_KEY_UPDATE_REQUESTED] \<and> \<not> key_update_pending ssl \<longrightarrow>
      flight (snd (tls13_receive_key_update env ssl)) =
        flight ssl @ [(SSL3_MT_KEY_UPDATE, [SSL_KEY_UPDATE_NOT_REQUESTED])] \<and>
      write_key_generation (snd (tls13_receive_key_update env ssl)) =
        Suc (write_key_generation ssl) \<and>
      key_update_pending (snd (tls13_receive_key_update env ssl))) \<and>
   (fst (tls13_receive_key_update env ssl) \<and>
    (init_msg ssl = [SSL_KEY_UPDATE_NOT_REQUESTED] \<or> key_update_pending ssl) \<longrightarrow>
      flight (snd (tls13_receive_key_update env ssl)) = flight ssl \<and>
      write_key_generation (snd (tls13_receive_key_update env ssl)) = write_key_generation ssl \<and>
      key_update_pending (snd (tls13_receive_key_update env ssl)) = key_update_pending ssl) \<and>
   ((init_msg ssl = [SSL_KEY_UPDATE_NOT_REQUESTED] \<or> init_msg ssl = [SSL_KEY_UPDATE_REQUESTED]) \<and>
    rotate_ok env evp_aead_open (read_key_generation ssl) \<and>
    rotate_ok env evp_aead_seal (write_key_generation ssl) \<and> cbb_ok env \<and> add_message_ok env \<longrightarrow>
      fst (tls13_receive_key_update env ssl))"
proof (intro conjI impI)
  assume "fst (tls13_receive_key_update env ssl)"
  then show "init_msg ssl = [SSL_KEY_UPDATE_NOT_REQUESTED] \<or> init_msg ssl = [SSL_KEY_UPDATE_REQUESTED]"
    by (auto simp: key_update_defs split: list.splits option.splits if_splits)
next
  assume "init_msg ssl \<noteq> [SSL_KEY_UPDATE_NOT_REQUESTED] \<and> init_msg ssl \<noteq> [SSL_KEY_UPDATE_REQUESTED]"
  then show "tls13_receive_key_update env ssl =
        (False, ssl\<lparr>err_queue := err_queue ssl @ [SSL_R_DECODE_ERROR],
                    alerts := alerts ssl @ [(SSL3_AL_FATAL, SSL_AD_DECODE_ERROR)]\<rparr>)"
    by (auto simp: key_update_defs split: list.splits option.splits if_splits)
next
  assume "fst (tls13_receive_key_update env ssl)"
  then show "read_key_generation (snd (tls13_receive_key_update env ssl)) =
        Suc (read_key_generation ssl)"
    by (auto simp: key_update_defs split: list.splits option.splits if_splits)
next
  assume a: "fst (tls13_receive_key_update env ssl) \<and>
    init_msg ssl = [SSL_KEY_UPDATE_REQUESTED] \<and> \<not> key_update_pending ssl"
  then show "flight (snd (tls13_receive_key_update env ssl)) =
        flight ssl @ [(SSL3_MT_KEY_UPDATE, [SSL_KEY_UPDATE_NOT_REQUESTED])]"
    and "write_key_generation (snd (tls13_receive_key_update env ssl)) =
        Suc (write_key_generation ssl)"
    and "key_update_pending (snd (tls13_receive_key_update env ssl))"
    by (auto simp: key_update_defs split: list.splits option.splits if_splits)
next
  assume "fst (tls13_receive_key_update env ssl) \<and>
    (init_msg ssl = [SSL_KEY_UPDATE_NOT_REQUESTED] \<or> key_update_pending ssl)"
  then show "flight (snd (tls13_receive_key_update env ssl)) = flight ssl"
    and "write_key_generation (snd (tls13_receive_key_update env ssl)) = write_key_generation ssl"
    and "key_update_pending (snd (tls13_receive_key_update env ssl)) = key_update_pending ssl"
    by (auto simp: key_update_defs SSL_KEY_UPDATE_NOT_REQUESTED_def SSL_KEY_UPDATE_REQUESTED_def
             split: list.splits option.splits if_splits)
next
  assume "(init_msg ssl = [SSL_KEY_UPDATE_NOT_REQUESTED] \<or> init_msg ssl = [SSL_KEY_UPDATE_REQUESTED]) \<and>
    rotate_ok env evp_aead_open (read_key_generation ssl) \<and>
    rotate_ok env evp_aead_seal (write_key_generation ssl) \<and> cbb_ok env \<and> add_message_ok env"
  then show "fst (tls13_receive_key_update env ssl)"
    by (auto simp: key_update_defs split: list.splits option.splits if_splits)
qed

theorem C2_receive_key_update_witness:
  "fst (tls13_receive_key_update example_collab key_update_requested) \<and>
   read_key_generation (snd (tls13_receive_key_update example_collab key_update_requested)) = 1 \<and>
   write_key_generation (snd (tls13_receive_key_update example_collab key_update_requested)) = 1 \<and>
   flight (snd (tls13_receive_key_update example_collab key_update_requested)) =
     [(SSL3_MT_KEY_UPDATE, [SSL_KEY_UPDATE_NOT_REQUESTED])] \<and>
   key_update_pending (snd (tls13_receive_key_update example_collab key_update_requested))"
proof -
  have h: "(init_msg key_update_requested = [SSL_KEY_UPDATE_NOT_REQUESTED] \<or>
            init_msg key_update_requested = [SSL_KEY_UPDATE_REQUESTED]) \<and>
           rotate_ok example_collab evp_aead_open (read_key_generation key_update_requested) \<and>
           rotate_ok example_collab evp_aead_seal (write_key_generation key_update_requested) \<and>
           cbb_ok example_collab \<and> add_message_ok example_collab"
    by (simp add: key_update_requested_def example_collab_def)
  have v: "init_msg key_update_requested = [SSL_KEY_UPDATE_REQUESTED]"
          "\<not> key_update_pending key_update_requested"
          "read_key_generation key_update_requested = 0"
          "write_key_generation key_update_requested = 0"
          "flight key_update_requested = []"
    by (simp_all add: key_update_requested_def example_client_def)
  from C2_receive_key_update[of example_collab key_update_requested] h v show ?thesis
    by simp
qed

subsection \<open>Verification of Finished\<close>

lemma xor_zero_eq:
  assumes "(x :: byte) XOR y = 0"
  shows "x = y"
proof -
  have "x = (x XOR y) XOR y" by (simp add: xor.assoc)
  also have "\<dots> = y" using assms by simp
  finally show ?thesis .
qed

lemma memcmp_fold_zero:
  "fold (\<lambda>(x, y) acc. acc OR (x XOR y)) zs (acc :: byte) = 0 \<longleftrightarrow>
   acc = 0 \<and> (\<forall>(x, y) \<in> set zs. x = y)"
proof (induction zs arbitrary: acc)
  case Nil
  then show ?case by simp
next
  case (Cons z zs)
  obtain x y where z: "z = (x, y)" by (cases z)
  have "acc OR (x XOR y) = 0 \<longleftrightarrow> acc = 0 \<and> x = y"
    by (auto simp: or_eq_0_iff dest: xor_zero_eq)
  with Cons.IH[of "acc OR (x XOR y)"] z show ?case by auto
qed

lemma CRYPTO_memcmp_zero:
  assumes "len \<le> length a" and "len \<le> length b"
  shows "CRYPTO_memcmp a b len = 0 \<longleftrightarrow> take len a = take len b"
proof -
  have "length (take len a) = length (take len b)" using assms by simp
  then have "take len a = take len b \<longleftrightarrow> (\<forall>(x, y) \<in> set (zip (take len a) (take len b)). x = y)"
    by (simp add: list_eq_iff_zip_eq)
  then show ?thesis by (simp add: CRYPTO_memcmp_def memcmp_fold_zero)
qed

lemma finished_ok_iff:
  assumes "len \<le> length verify_data"
  shows "length msg = len \<and> CRYPTO_memcmp verify_data msg len = 0 \<longleftrightarrow> msg = take len verify_data"
proof (cases "length msg = len")
  case True
  with assms show ?thesis by (auto simp: CRYPTO_memcmp_zero)
next
  case False
  with assms show ?thesis by auto
qed

lemma process_finished_computed:
  assumes "tls13_finished_mac env (\<not> server hs) = Some mac"
  shows "tls13_process_finished env False hs =
           Some (if init_msg hs = mac then (True, hs) else (False, finished_failure hs))"
  using assms finished_ok_iff[of "length mac" mac "init_msg hs"]
  by (auto simp: tls13_process_finished_def Let_def finished_failure_def
                 OPENSSL_PUT_ERROR_def ssl3_send_alert_def)

lemma process_finished_saved:
  assumes "server hs" and "hash_len hs \<le> length (expected_client_finished hs)"
  shows "tls13_process_finished env True hs =
           Some (if init_msg hs = take (hash_len hs) (expected_client_finished hs)
                 then (True, hs) else (False, finished_failure hs))"
  using assms finished_ok_iff[of "hash_len hs" "expected_client_finished hs" "init_msg hs"]
  by (auto simp: tls13_process_finished_def Let_def finished_failure_def
                 OPENSSL_PUT_ERROR_def ssl3_send_alert_def)

lemma flip_bit_neq:
  assumes "i < length (mac :: bytes)" and "j < 8"
  shows "mac[i := mac ! i XOR push_bit j 1] \<noteq> mac"
proof
  assume "mac[i := mac ! i XOR push_bit j 1] = mac"
  then have "mac[i := mac ! i XOR push_bit j 1] ! i = mac ! i" by simp
  with assms(1) have "mac ! i XOR push_bit j 1 = mac ! i" by simp
  then have "mac ! i XOR (mac ! i XOR push_bit j 1) = mac ! i XOR mac ! i" by simp
  then have "(push_bit j 1 :: byte) = 0" by (simp flip: xor.assoc)
  moreover have "bit (push_bit j 1 :: byte) j"
    using assms(2) by (simp add: bit_exp_iff)
  ultimately show False using assms(2) by simp
qed

text \<open>
  C6: the verification of a received Finished message succeeds exactly when the message
  equals the expected value, in length and in every byte. Against the value computed by
  \<open>tls13_finished_mac\<close>: an identical message succeeds and leaves the state as it is;
  a message of the right length with one bit flipped fails; a message of another length
  fails whatever its content. Every such failure sends one fatal decrypt-error alert and
  puts the reason digest-check-failed on the error queue. The same comparison applies
  against the saved value, the first \<open>hash_len\<close> bytes of \<open>expected_client_finished\<close>.
\<close>

theorem C6_process_finished:
  "(tls13_finished_mac env (\<not> server hs) = Some mac \<longrightarrow>
      tls13_process_finished env False hs =
        Some (if init_msg hs = mac then (True, hs) else (False, finished_failure hs))) \<and>
   (tls13_finished_mac env (\<not> server hs) = Some mac \<and> i < length mac \<and> j < 8 \<and>
    init_msg hs = mac[i := mac ! i XOR push_bit j 1] \<longrightarrow>
      tls13_process_finished env False hs = Some (False, finished_failure hs)) \<and>
   (tls13_finished_mac env (\<not> server hs) = Some mac \<and> length (init_msg hs) \<noteq> length mac \<longrightarrow>
      tls13_process_finished env False hs = Some (False, finished_failure hs)) \<and>
   (server hs \<and> hash_len hs \<le> length (expected_client_finished hs) \<longrightarrow>
      tls13_process_finished env True hs =
        Some (if init_msg hs = take (hash_len hs) (expected_client_finished hs)
              then (True, hs) else (False, finished_failure hs))) \<and>
   (server hs \<and> hash_len hs \<le> length (expected_client_finished hs) \<and>
    length (init_msg hs) \<noteq> hash_len hs \<longrightarrow>
      tls13_process_finished env True hs = Some (False, finished_failure hs))"
proof (intro conjI impI)
  assume "tls13_finished_mac env (\<not> server hs) = Some mac"
  then show "tls13_process_finished env False hs =
        Some (if init_msg hs = mac then (True, hs) else (False, finished_failure hs))"
    by (rule process_finished_computed)
next
  assume a: "tls13_finished_mac env (\<not> server hs) = Some mac \<and> i < length mac \<and> j < 8 \<and>
    init_msg hs = mac[i := mac ! i XOR push_bit j 1]"
  then have "init_msg hs \<noteq> mac" using flip_bit_neq[of i mac j] by simp
  with a show "tls13_process_finished env False hs = Some (False, finished_failure hs)"
    by (simp add: process_finished_computed)
next
  assume a: "tls13_finished_mac env (\<not> server hs) = Some mac \<and> length (init_msg hs) \<noteq> length mac"
  then have "init_msg hs \<noteq> mac" by auto
  with a show "tls13_process_finished env False hs = Some (False, finished_failure hs)"
    by (simp add: process_finished_computed)
next
  assume "server hs \<and> hash_len hs \<le> length (expected_client_finished hs)"
  then show "tls13_process_finished env True hs =
        Some (if init_msg hs = take (hash_len hs) (expected_client_finished hs)
              then (True, hs) else (False, finished_failure hs))"
    by (simp add: process_finished_saved)
next
  assume a: "server hs \<and> hash_len hs \<le> length (expected_client_finished hs) \<and>
    length (init_msg hs) \<noteq> hash_len hs"
  then have "init_msg hs \<noteq> take (hash_len hs) (expected_client_finished hs)" by auto
  with a show "tls13_process_finished env True hs = Some (False, finished_failure hs)"
    by (simp add: process_finished_saved)
qed

theorem C6_process_finished_witness:
  "tls13_process_finished example_collab False finished_flipped =
     Some (False, finished_failure finished_flipped)"
proof -
  have h: "tls13_finished_mac example_collab (\<not> server finished_flipped) = Some [1, 2, 3, 4] \<and>
           2 < length [1, 2, 3, 4 :: byte] \<and> (2 :: nat) < 8 \<and>
           init_msg finished_flipped = [1, 2, 3, 4][2 := [1, 2, 3, 4] ! 2 XOR push_bit 2 1]"
    by (simp add: finished_flipped_def example_collab_def)
  from C6_process_finished[of example_collab finished_flipped "[1, 2, 3, 4]" 2 2] h
  show ?thesis by blast
qed

subsection \<open>The signature input\<close>

text \<open>
  C7: for every transcript hash and each of the three context labels, the signature
  input is 64 bytes 0x20, then the context string of the label with its terminating NUL
  byte, then the transcript hash. It is a function of the label and the transcript hash
  only.
\<close>

theorem C7_signature_input:
  "(cbb_ok env \<and> transcript_hash hs = Some h \<longrightarrow>
      tls13_get_cert_verify_signature_input env ssl_cert_verify_server hs =
        (Some (replicate 64 0x20 @ map of_char ''TLS 1.3, server CertificateVerify'' @ [0] @ h), hs) \<and>
      tls13_get_cert_verify_signature_input env ssl_cert_verify_client hs =
        (Some (replicate 64 0x20 @ map of_char ''TLS 1.3, client CertificateVerify'' @ [0] @ h), hs) \<and>
      tls13_get_cert_verify_signature_input env ssl_cert_verify_channel_id hs =
        (Some (replicate 64 0x20 @ map of_char ''TLS 1.3, Channel ID'' @ [0] @ h), hs)) \<and>
   (transcript_hash hs1 = transcript_hash hs \<longrightarrow>
      fst (tls13_get_cert_verify_signature_input env ctx hs1) =
      fst (tls13_get_cert_verify_signature_input env ctx hs))"
  by (simp add: tls13_get_cert_verify_signature_input_def Let_def kContext_server_def
                kContext_client_def kContext_channel_id_def c_string_def
           split: option.splits)

theorem C7_signature_input_witness:
  "tls13_get_cert_verify_signature_input example_collab ssl_cert_verify_channel_id example_client =
     (Some (replicate 64 0x20 @ map of_char ''TLS 1.3, Channel ID'' @ [0] @ [7, 7]), example_client)"
proof -
  have h: "cbb_ok example_collab \<and> transcript_hash example_client = Some [7, 7]"
    by (simp add: example_collab_def example_client_def)
  from C7_signature_input[of example_collab example_client "[7, 7]"] h show ?thesis by blast
qed

subsection \<open>Parsing a Certificate message\<close>

lemma length_be_bytes [simp]: "length (be_bytes n v) = n"
  by (induction n arbitrary: v) auto

lemma be_nat_bound: "be_nat bs < 256 ^ length bs"
proof (induction bs)
  case Nil
  then show ?case by simp
next
  case (Cons b bs)
  have "unat b < 256" using unsigned_less[of b] by simp
  then have 1: "unat b * 256 ^ length bs \<le> 255 * 256 ^ length bs"
    by (intro mult_le_mono1) simp
  have "be_nat (b # bs) = unat b * 256 ^ length bs + be_nat bs" by simp
  also have "\<dots> < 255 * 256 ^ length bs + 256 ^ length bs"
    using 1 Cons.IH by linarith
  also have "\<dots> = 256 ^ length (b # bs)" by simp
  finally show ?case .
qed

lemma be_bytes_be_nat: "be_bytes (length bs) (be_nat bs) = bs"
proof (induction bs)
  case Nil
  then show ?case by simp
next
  case (Cons b bs)
  have lt: "be_nat bs < 256 ^ length bs" by (rule be_nat_bound)
  then have d: "(unat b * 256 ^ length bs + be_nat bs) div 256 ^ length bs = unat b"
    by simp
  from lt have m: "(unat b * 256 ^ length bs + be_nat bs) mod 256 ^ length bs = be_nat bs"
    by simp
  show ?case using Cons.IH lt by (simp add: d)
qed

lemma be_nat_be_bytes: "v < 256 ^ n \<Longrightarrow> be_nat (be_bytes n v) = v"
proof (induction n arbitrary: v)
  case 0
  then show ?case by simp
next
  case (Suc n)
  have "v div 256 ^ n < 256" using Suc.prems by (simp add: less_mult_imp_div_less mult.commute)
  then have u: "unat (word_of_nat (v div 256 ^ n) :: byte) = v div 256 ^ n"
    by (simp add: unat_of_nat)
  have "be_nat (be_bytes n (v mod 256 ^ n)) = v mod 256 ^ n"
    by (rule Suc.IH) simp
  moreover have "v div 256 ^ n * 256 ^ n + v mod 256 ^ n = v" by (rule div_mult_mod_eq)
  ultimately show ?case by (simp only: be_bytes.simps be_nat.simps u length_be_bytes)
qed

lemma cbs_get_length_prefixed_Some_iff:
  "cbs_get_length_prefixed n cbs = Some (child, rest) \<longleftrightarrow>
   length child < 256 ^ n \<and> cbs = be_bytes n (length child) @ child @ rest"
proof
  assume a: "cbs_get_length_prefixed n cbs = Some (child, rest)"
  then have n: "n \<le> length cbs"
    and c: "child = take (be_nat (take n cbs)) (drop n cbs)"
    and r: "rest = drop (be_nat (take n cbs)) (drop n cbs)"
    and l: "be_nat (take n cbs) \<le> length (drop n cbs)"
    by (auto simp: cbs_get_length_prefixed_def cbs_get_u_def CBS_get_bytes_def
             split: if_splits option.splits)
  from c l have len: "length child = be_nat (take n cbs)" by simp
  have "be_nat (take n cbs) < 256 ^ length (take n cbs)" by (rule be_nat_bound)
  with n have b: "length child < 256 ^ n" by (simp add: len)
  have "be_bytes (length (take n cbs)) (be_nat (take n cbs)) = take n cbs"
    by (rule be_bytes_be_nat)
  with n have "be_bytes n (length child) = take n cbs" by (simp add: len)
  moreover have "child @ rest = drop n cbs" by (simp only: c r append_take_drop_id)
  ultimately have "cbs = be_bytes n (length child) @ child @ rest" by simp
  with b show "length child < 256 ^ n \<and> cbs = be_bytes n (length child) @ child @ rest" by simp
next
  assume a: "length child < 256 ^ n \<and> cbs = be_bytes n (length child) @ child @ rest"
  then show "cbs_get_length_prefixed n cbs = Some (child, rest)"
    by (simp add: cbs_get_length_prefixed_def cbs_get_u_def CBS_get_bytes_def be_nat_be_bytes)
qed

lemma be_bytes_1_0: "be_bytes 1 0 = [0]"
  by simp

lemma parse_certificate_msg_Some_iff:
  "parse_certificate_msg msg = Some cl \<longleftrightarrow>
   length cl < 256 ^ 3 \<and> msg = [0] @ be_bytes 3 (length cl) @ cl"
proof
  assume "parse_certificate_msg msg = Some cl"
  then obtain cbs where 1: "cbs_get_length_prefixed 1 msg = Some ([], cbs)"
    and 2: "cbs_get_length_prefixed 3 cbs = Some (cl, [])"
    by (auto simp: parse_certificate_msg_def CBS_get_u8_length_prefixed_def
                   CBS_get_u24_length_prefixed_def split: option.splits if_splits)
  from 1 have "msg = [0] @ cbs"
    by (simp add: cbs_get_length_prefixed_Some_iff)
  moreover from 2 have "length cl < 256 ^ 3 \<and> cbs = be_bytes 3 (length cl) @ cl"
    by (simp add: cbs_get_length_prefixed_Some_iff)
  ultimately show "length cl < 256 ^ 3 \<and> msg = [0] @ be_bytes 3 (length cl) @ cl" by simp
next
  assume a: "length cl < 256 ^ 3 \<and> msg = [0] @ be_bytes 3 (length cl) @ cl"
  have 1: "cbs_get_length_prefixed 1 msg = Some ([], be_bytes 3 (length cl) @ cl)"
    using a by (simp add: cbs_get_length_prefixed_Some_iff)
  have 2: "cbs_get_length_prefixed 3 (be_bytes 3 (length cl) @ cl) = Some (cl, [])"
    using a by (simp add: cbs_get_length_prefixed_Some_iff)
  show "parse_certificate_msg msg = Some cl"
    using 1 2 by (simp add: parse_certificate_msg_def CBS_get_u8_length_prefixed_def
                  CBS_get_u24_length_prefixed_def)
qed

lemma parse_certificate_entry_Some_iff:
  "parse_certificate_entry cl = Some (c, x, rest) \<longleftrightarrow>
   c \<noteq> [] \<and> length c < 256 ^ 3 \<and> length x < 256 ^ 2 \<and>
   cl = be_bytes 3 (length c) @ c @ be_bytes 2 (length x) @ x @ rest"
proof
  assume "parse_certificate_entry cl = Some (c, x, rest)"
  then obtain cl1 where 1: "cbs_get_length_prefixed 3 cl = Some (c, cl1)"
    and 2: "cbs_get_length_prefixed 2 cl1 = Some (x, rest)" and 3: "c \<noteq> []"
    by (auto simp: parse_certificate_entry_def CBS_get_u16_length_prefixed_def
                   CBS_get_u24_length_prefixed_def split: option.splits if_splits)
  from 1 have "length c < 256 ^ 3 \<and> cl = be_bytes 3 (length c) @ c @ cl1"
    by (simp add: cbs_get_length_prefixed_Some_iff)
  moreover from 2 have "length x < 256 ^ 2 \<and> cl1 = be_bytes 2 (length x) @ x @ rest"
    by (simp add: cbs_get_length_prefixed_Some_iff)
  ultimately show "c \<noteq> [] \<and> length c < 256 ^ 3 \<and> length x < 256 ^ 2 \<and>
     cl = be_bytes 3 (length c) @ c @ be_bytes 2 (length x) @ x @ rest"
    using 3 by simp
next
  assume a: "c \<noteq> [] \<and> length c < 256 ^ 3 \<and> length x < 256 ^ 2 \<and>
     cl = be_bytes 3 (length c) @ c @ be_bytes 2 (length x) @ x @ rest"
  have 1: "cbs_get_length_prefixed 3 cl = Some (c, be_bytes 2 (length x) @ x @ rest)"
    using a by (simp add: cbs_get_length_prefixed_Some_iff)
  have 2: "cbs_get_length_prefixed 2 (be_bytes 2 (length x) @ x @ rest) = Some (x, rest)"
    using a by (simp add: cbs_get_length_prefixed_Some_iff)
  show "parse_certificate_entry cl = Some (c, x, rest)"
    using a 1 2 by (simp add: parse_certificate_entry_def CBS_get_u16_length_prefixed_def
                  CBS_get_u24_length_prefixed_def)
qed

lemma spec_entry_parse:
  "parse_certificate_entry cl = Some (c, x, rest) \<longleftrightarrow>
   spec_entry_ok (c, x) \<and> cl = spec_entry (c, x) @ rest"
  by (auto simp: parse_certificate_entry_Some_iff spec_entry_ok_def spec_entry_def)

lemma parse_empty_body: "parse_certificate_entry ([0, 0, 0] @ rest) = None"
proof (cases "parse_certificate_entry ([0, 0, 0] @ rest)")
  case None
  then show ?thesis .
next
  case (Some r)
  obtain c x t where r: "r = (c, x, t)" by (cases r)
  from Some r have c: "c \<noteq> []" and e: "[0, 0, 0] @ rest = be_bytes 3 (length c) @ c @ be_bytes 2 (length x) @ x @ t"
    and l: "length c < 256 ^ 3"
    by (simp_all add: parse_certificate_entry_Some_iff)
  from e have "take 3 ([0, 0, 0] @ rest) = take 3 (be_bytes 3 (length c) @ c @ be_bytes 2 (length x) @ x @ t)"
    by simp
  then have "be_bytes 3 (length c) = [0, 0, 0]" by simp
  then have "be_nat (be_bytes 3 (length c)) = 0" by simp
  with l have "length c = 0" by (simp add: be_nat_be_bytes)
  with c show ?thesis by simp
qed

lemma certificate_loop_Nil:
  "certificate_loop env retain [] stack pkey hs = (Some (stack, pkey), hs)"
  by (simp add: certificate_loop.simps)

lemma certificate_loop_Inl:
  "cl \<noteq> [] \<Longrightarrow> process_certificate_entry env retain cl stack pkey hs = Inl h \<Longrightarrow>
   certificate_loop env retain cl stack pkey hs = (None, h)"
  by (simp add: certificate_loop.simps)

lemma certificate_loop_Inr:
  "cl \<noteq> [] \<Longrightarrow> process_certificate_entry env retain cl stack pkey hs = Inr (rest, s1, p1, h1) \<Longrightarrow>
   certificate_loop env retain cl stack pkey hs = certificate_loop env retain rest s1 p1 h1"
  by (simp add: certificate_loop.simps)

lemma loop_frame_refl [simp]: "loop_frame hs hs"
  by (simp add: loop_frame_def)

lemma loop_frame_trans: "loop_frame a b \<Longrightarrow> loop_frame b c \<Longrightarrow> loop_frame a c"
  by (simp add: loop_frame_def)

lemmas alert_defs = ssl3_send_alert_def OPENSSL_PUT_ERROR_def

lemma process_status_request_frame:
  "process_status_request env sr n hs = Inl h \<Longrightarrow>
     loop_frame hs h \<and> (\<exists>a. alerts h = alerts hs @ [(SSL3_AL_FATAL, a)])"
  "process_status_request env sr n hs = Inr h \<Longrightarrow>
     loop_frame hs h \<and> alerts h = alerts hs \<and> err_queue h = err_queue hs"
  by (auto simp: process_status_request_def loop_frame_def alert_defs
           split: if_splits option.splits prod.splits bool.splits)

lemma process_sct_frame:
  "process_sct env sct n hs = Inl h \<Longrightarrow>
     loop_frame hs h \<and> (\<exists>a. alerts h = alerts hs @ [(SSL3_AL_FATAL, a)])"
  "process_sct env sct n hs = Inr h \<Longrightarrow>
     loop_frame hs h \<and> alerts h = alerts hs \<and> err_queue h = err_queue hs"
  by (auto simp: process_sct_def loop_frame_def alert_defs
           split: if_splits option.splits prod.splits bool.splits)

lemma process_entry_extensions_frame:
  "process_entry_extensions env x n hs = Inl h \<Longrightarrow>
     loop_frame hs h \<and> (\<exists>a. alerts h = alerts hs @ [(SSL3_AL_FATAL, a)])"
  "process_entry_extensions env x n hs = Inr h \<Longrightarrow>
     loop_frame hs h \<and> alerts h = alerts hs \<and> err_queue h = err_queue hs"
proof -
  show "process_entry_extensions env x n hs = Inl h \<Longrightarrow>
     loop_frame hs h \<and> (\<exists>a. alerts h = alerts hs @ [(SSL3_AL_FATAL, a)])"
    unfolding process_entry_extensions_def
    by (auto split: sum.splits option.splits prod.splits
             dest!: process_status_request_frame process_sct_frame
             dest: loop_frame_trans simp: alert_defs loop_frame_def)
  show "process_entry_extensions env x n hs = Inr h \<Longrightarrow>
     loop_frame hs h \<and> alerts h = alerts hs \<and> err_queue h = err_queue hs"
    unfolding process_entry_extensions_def
    by (auto split: sum.splits option.splits prod.splits
             dest!: process_status_request_frame process_sct_frame
             dest: loop_frame_trans simp: alert_defs loop_frame_def)
qed

lemma leaf_certificate_checks_frame:
  "leaf_certificate_checks env retain c hs = Inl h \<Longrightarrow>
     loop_frame hs h \<and> (\<exists>a. alerts h = alerts hs @ [(SSL3_AL_FATAL, a)])"
  "leaf_certificate_checks env retain c hs = Inr (k, h) \<Longrightarrow>
     loop_frame hs h \<and> alerts h = alerts hs \<and> err_queue h = err_queue hs \<and>
     ssl_cert_parse_pubkey env c = Some k \<and> ssl_cert_check_digital_signature_key_usage env c"
  by (auto simp: leaf_certificate_checks_def loop_frame_def alert_defs
           split: if_splits option.splits)

lemma process_certificate_entry_Inl:
  assumes "process_certificate_entry env retain cl stack pkey hs = Inl h"
  shows "loop_frame hs h \<and> (\<exists>a. alerts h = alerts hs @ [(SSL3_AL_FATAL, a)])"
  using assms unfolding process_certificate_entry_def Let_def
  by (auto split: option.splits sum.splits if_splits prod.splits
           dest!: leaf_certificate_checks_frame process_entry_extensions_frame
           simp: alert_defs loop_frame_def)

lemma process_certificate_entry_Inr:
  assumes "process_certificate_entry env retain cl stack pkey hs = Inr (rest, stack1, pkey1, h)"
  shows "loop_frame hs h \<and> alerts h = alerts hs \<and> err_queue h = err_queue hs \<and>
         (\<exists>c x. parse_certificate_entry cl = Some (c, x, rest) \<and> stack1 = stack @ [c] \<and>
                buffer_new_ok env c \<and>
                (if stack = []
                 then pkey1 = ssl_cert_parse_pubkey env c \<and> pkey1 \<noteq> None \<and>
                      ssl_cert_check_digital_signature_key_usage env c
                 else pkey1 = pkey))"
  using assms unfolding process_certificate_entry_def Let_def
  by (auto split: option.splits sum.splits if_splits prod.splits
           dest!: leaf_certificate_checks_frame process_entry_extensions_frame
           simp: alert_defs loop_frame_def)

lemma certificate_loop_None:
  "certificate_loop env retain cl stack pkey hs = (None, h) \<Longrightarrow>
   loop_frame hs h \<and> (\<exists>a. alerts h = alerts hs @ [(SSL3_AL_FATAL, a)])"
proof (induction env retain cl stack pkey hs rule: certificate_loop.induct)
  case (1 env retain cl stack pkey hs)
  from "1.prems" have ne: "cl \<noteq> []"
    by (auto simp: certificate_loop_Nil)
  show ?case
  proof (cases "process_certificate_entry env retain cl stack pkey hs")
    case (Inl h1)
    with ne "1.prems" have "h1 = h" by (simp add: certificate_loop_Inl)
    with Inl show ?thesis by (auto dest: process_certificate_entry_Inl)
  next
    case (Inr r)
    obtain rest s1 p1 h1 where r: "r = (rest, s1, p1, h1)" by (cases r)
    from Inr r have step: "process_certificate_entry env retain cl stack pkey hs = Inr (rest, s1, p1, h1)"
      by simp
    with ne "1.prems" have "certificate_loop env retain rest s1 p1 h1 = (None, h)"
      by (simp add: certificate_loop_Inr)
    then have "loop_frame h1 h \<and> (\<exists>a. alerts h = alerts h1 @ [(SSL3_AL_FATAL, a)])"
      using "1.IH"[OF _ step refl refl refl] ne by simp
    moreover from step have "loop_frame hs h1 \<and> alerts h1 = alerts hs"
      by (auto dest: process_certificate_entry_Inr)
    ultimately show ?thesis by (auto dest: loop_frame_trans)
  qed
qed

lemma certificate_loop_Some:
  "certificate_loop env retain cl stack pkey hs = (Some (stack1, pkey1), h) \<Longrightarrow>
   loop_frame hs h \<and> alerts h = alerts hs \<and> err_queue h = err_queue hs \<and>
   (\<exists>entries. cl = spec_certificate_list entries \<and> list_all spec_entry_ok entries \<and>
      stack1 = stack @ map fst entries \<and> list_all (buffer_new_ok env) (map fst entries) \<and>
      (if stack = [] \<and> entries \<noteq> []
       then pkey1 = ssl_cert_parse_pubkey env (fst (hd entries)) \<and> pkey1 \<noteq> None \<and>
            ssl_cert_check_digital_signature_key_usage env (fst (hd entries))
       else pkey1 = pkey))"
proof (induction env retain cl stack pkey hs rule: certificate_loop.induct)
  case (1 env retain cl stack pkey hs)
  show ?case
  proof (cases "cl = []")
    case True
    with "1.prems" have "stack1 = stack" "pkey1 = pkey" "h = hs"
      by (simp_all add: certificate_loop_Nil)
    with True show ?thesis
      by (auto simp: spec_certificate_list_def intro: exI[of _ "[]"])
  next
    case ne: False
    show ?thesis
    proof (cases "process_certificate_entry env retain cl stack pkey hs")
      case (Inl h1)
      with ne "1.prems" show ?thesis by (simp add: certificate_loop_Inl)
    next
      case (Inr r)
      obtain rest s1 p1 h1 where r: "r = (rest, s1, p1, h1)" by (cases r)
      from Inr r have step: "process_certificate_entry env retain cl stack pkey hs = Inr (rest, s1, p1, h1)"
        by simp
      with ne "1.prems" have rec: "certificate_loop env retain rest s1 p1 h1 = (Some (stack1, pkey1), h)"
        by (simp add: certificate_loop_Inr)
      from process_certificate_entry_Inr[OF step] obtain c x where
        f1: "loop_frame hs h1" "alerts h1 = alerts hs" "err_queue h1 = err_queue hs" and
        p: "parse_certificate_entry cl = Some (c, x, rest)" and s1: "s1 = stack @ [c]" and
        b: "buffer_new_ok env c" and
        k: "if stack = []
            then p1 = ssl_cert_parse_pubkey env c \<and> p1 \<noteq> None \<and>
                 ssl_cert_check_digital_signature_key_usage env c
            else p1 = pkey"
        by blast
      from "1.IH"[OF _ step refl refl refl rec] ne obtain entries where
        f2: "loop_frame h1 h" "alerts h = alerts h1" "err_queue h = err_queue h1" and
        e: "rest = spec_certificate_list entries" "list_all spec_entry_ok entries"
           "stack1 = s1 @ map fst entries" "list_all (buffer_new_ok env) (map fst entries)" and
        k2: "pkey1 = p1"
        using s1 by auto
      from p have pe: "spec_entry_ok (c, x)" "cl = spec_entry (c, x) @ rest"
        by (simp_all add: spec_entry_parse)
      have "cl = spec_certificate_list ((c, x) # entries)"
        using pe e(1) by (simp add: spec_certificate_list_def)
      moreover have "list_all spec_entry_ok ((c, x) # entries)" using pe e(2) by simp
      moreover have "stack1 = stack @ map fst ((c, x) # entries)" using s1 e(3) by simp
      moreover have "list_all (buffer_new_ok env) (map fst ((c, x) # entries))"
        using b e(4) by simp
      moreover have "if stack = [] \<and> (c, x) # entries \<noteq> []
         then pkey1 = ssl_cert_parse_pubkey env (fst (hd ((c, x) # entries))) \<and> pkey1 \<noteq> None \<and>
              ssl_cert_check_digital_signature_key_usage env (fst (hd ((c, x) # entries)))
         else pkey1 = pkey"
        using k k2 by (auto split: if_splits)
      moreover have "loop_frame hs h" using f1(1) f2(1) by (rule loop_frame_trans)
      moreover have "alerts h = alerts hs" "err_queue h = err_queue hs"
        using f1 f2 by simp_all
      ultimately show ?thesis by blast
    qed
  qed
qed

lemma parse_certificate_msg_None_iff:
  "parse_certificate_msg msg = None \<longleftrightarrow>
   (\<nexists>cl. length cl < 256 ^ 3 \<and> msg = [0] @ be_bytes 3 (length cl) @ cl)"
proof (cases "parse_certificate_msg msg")
  case None
  then show ?thesis using parse_certificate_msg_Some_iff[of msg] by auto
next
  case (Some cl)
  then show ?thesis using parse_certificate_msg_Some_iff[of msg cl] by auto
qed

lemma parse_certificate_entry_None_iff:
  "parse_certificate_entry cl = None \<longleftrightarrow>
   (\<nexists>c x r. spec_entry_ok (c, x) \<and> cl = spec_entry (c, x) @ r)"
proof (cases "parse_certificate_entry cl")
  case None
  then show ?thesis using spec_entry_parse[of cl] by auto
next
  case (Some e)
  obtain c x r where "e = (c, x, r)" by (cases e)
  with Some show ?thesis using spec_entry_parse[of cl c x r] by auto
qed

lemma process_certificate_decode_error:
  "parse_certificate_msg (init_msg hs) = None \<Longrightarrow>
   tls13_process_certificate env allow hs = (False, decode_error_state SSL_R_DECODE_ERROR hs)"
  by (simp add: tls13_process_certificate_def decode_error_state_def alert_defs)

lemma process_certificate_entry_mismatch:
  "parse_certificate_entry cl = None \<Longrightarrow>
   process_certificate_entry env retain cl stack pkey hs =
     Inl (decode_error_state SSL_R_CERT_LENGTH_MISMATCH hs)"
  by (simp add: process_certificate_entry_def decode_error_state_def alert_defs)

lemma be_bytes_inj:
  assumes "a < 256 ^ n" and "b < 256 ^ n" and "be_bytes n a = be_bytes n b"
  shows "a = b"
proof -
  from assms(3) have "be_nat (be_bytes n a) = be_nat (be_bytes n b)" by simp
  with assms(1,2) show ?thesis by (simp add: be_nat_be_bytes)
qed

lemma trailing_bytes_None:
  assumes "length cl < 256 ^ 3" and "t \<noteq> []"
  shows "parse_certificate_msg ([0] @ be_bytes 3 (length cl) @ cl @ t) = None"
proof (cases "parse_certificate_msg ([0] @ be_bytes 3 (length cl) @ cl @ t)")
  case None
  then show ?thesis .
next
  case (Some cl1)
  then have l: "length cl1 < 256 ^ 3"
    and e: "[0] @ be_bytes 3 (length cl) @ cl @ t = [0] @ be_bytes 3 (length cl1) @ cl1"
    by (simp_all add: parse_certificate_msg_Some_iff)
  from e have e1: "be_bytes 3 (length cl) @ (cl @ t) = be_bytes 3 (length cl1) @ cl1" by simp
  then have "be_bytes 3 (length cl) = be_bytes 3 (length cl1)" by simp
  with assms(1) l have "length cl = length cl1" by (rule be_bytes_inj)
  moreover from e1 have "length (cl @ t) = length cl1" by simp
  ultimately show ?thesis using assms(2) by simp
qed

lemma process_certificate_Some:
  assumes "parse_certificate_msg (init_msg hs) = Some cl" and "sk_new_ok env"
  shows "tls13_process_certificate env allow hs =
     (case certificate_loop env (server hs \<and> retain_only_sha256_of_client_certs hs) cl [] None hs of
        (None, hs1) \<Rightarrow> (False, hs1)
      | (Some (certs0, pkey), hs1) \<Rightarrow>
          (let hs2 = hs1\<lparr>peer_pubkey := pkey,
                        new_session := (new_session hs1)
                          \<lparr>certs := (if certs0 = [] then None else Some certs0)\<rparr>\<rparr>
           in if \<not> session_cache_objects env (if certs0 = [] then None else Some certs0)
              then (False, ssl3_send_alert SSL3_AL_FATAL SSL_AD_DECODE_ERROR
                             (OPENSSL_PUT_ERROR SSL_R_DECODE_ERROR hs2))
              else if certs0 = [] then
                (if \<not> allow
                 then (False, ssl3_send_alert SSL3_AL_FATAL SSL_AD_CERTIFICATE_REQUIRED
                                (OPENSSL_PUT_ERROR SSL_R_PEER_DID_NOT_RETURN_A_CERTIFICATE hs2))
                 else (True, hs2\<lparr>new_session :=
                                   (new_session hs2)\<lparr>verify_result := X509_V_OK\<rparr>\<rparr>))
              else (True, hs2\<lparr>new_session :=
                                (new_session hs2)\<lparr>peer_sha256_valid :=
                                   (server hs \<and> retain_only_sha256_of_client_certs hs)\<rparr>\<rparr>)))"
  using assms
  by (simp add: tls13_process_certificate_def Let_def split: prod.splits option.splits)

lemma process_certificate_True:
  assumes "tls13_process_certificate env allow hs = (True, h)"
  shows "\<exists>entries hs1 pkey.
     init_msg hs = spec_certificate_msg entries \<and> list_all spec_entry_ok entries \<and>
     sk_new_ok env \<and> length (spec_certificate_list entries) < 256 ^ 3 \<and>
     certificate_loop env (server hs \<and> retain_only_sha256_of_client_certs hs)
        (spec_certificate_list entries) [] None hs = (Some (map fst entries, pkey), hs1) \<and>
     certs (new_session h) = (if entries = [] then None else Some (map fst entries)) \<and>
     peer_pubkey h = pkey \<and> session_cache_objects env (certs (new_session h)) \<and>
     (entries = [] \<longrightarrow> allow)"
proof -
  from assms obtain cl where cl: "parse_certificate_msg (init_msg hs) = Some cl"
    by (cases "parse_certificate_msg (init_msg hs)")
       (auto simp: tls13_process_certificate_def)
  from assms cl have sk: "sk_new_ok env"
    by (auto simp: tls13_process_certificate_def split: if_splits)
  let ?r = "server hs \<and> retain_only_sha256_of_client_certs hs"
  obtain res hs1 where loop: "certificate_loop env ?r cl [] None hs = (res, hs1)"
    by (cases "certificate_loop env ?r cl [] None hs")
  from assms loop obtain certs0 pkey where res: "res = Some (certs0, pkey)"
    by (cases res) (auto simp: process_certificate_Some[OF cl sk])
  from certificate_loop_Some[OF loop[unfolded res]] obtain entries where
    e: "cl = spec_certificate_list entries" "list_all spec_entry_ok entries"
       "certs0 = map fst entries"
    by auto
  from cl have m: "length cl < 256 ^ 3" "init_msg hs = [0] @ be_bytes 3 (length cl) @ cl"
    by (simp_all add: parse_certificate_msg_Some_iff)
  have "init_msg hs = spec_certificate_msg entries"
    using m e by (simp add: spec_certificate_msg_def)
  moreover have "certs (new_session h) = (if entries = [] then None else Some (map fst entries))"
    "peer_pubkey h = pkey" "session_cache_objects env (certs (new_session h))"
    "entries = [] \<longrightarrow> allow"
    using assms loop res e(3)
    by (auto simp: process_certificate_Some[OF cl sk] Let_def alert_defs split: if_splits)
  ultimately show ?thesis using e loop res sk m by blast
qed

lemma be_bytes_3_0: "be_bytes 3 0 = [0, 0, 0]"
  by (simp add: numeral_3_eq_3)

lemma context_nonzero_None:
  assumes "b \<noteq> 0"
  shows "parse_certificate_msg (b # m) = None"
proof (cases "parse_certificate_msg (b # m)")
  case None
  then show ?thesis .
next
  case (Some cl1)
  then have "b # m = [0] @ be_bytes 3 (length cl1) @ cl1"
    by (simp only: parse_certificate_msg_Some_iff)
  then have "b = 0" by simp
  with assms show ?thesis by simp
qed

lemma truncated_None:
  assumes "length msg < 4"
  shows "parse_certificate_msg msg = None"
proof (cases "parse_certificate_msg msg")
  case None
  then show ?thesis .
next
  case (Some cl1)
  then have "msg = [0] @ be_bytes 3 (length cl1) @ cl1"
    by (simp only: parse_certificate_msg_Some_iff)
  then have "length msg = length ([0 :: byte] @ be_bytes 3 (length cl1) @ cl1)" by simp
  then have "length msg = 4 + length cl1" by simp
  with assms show ?thesis by simp
qed

lemma empty_leaf_Some:
  assumes "length rest + 3 < 256 ^ 3"
  shows "parse_certificate_msg ([0] @ be_bytes 3 (length rest + 3) @ [0, 0, 0] @ rest) =
         Some ([0, 0, 0] @ rest)"
proof -
  have "length ([0, 0, 0 :: byte] @ rest) = length rest + 3" by simp
  then show ?thesis
    unfolding parse_certificate_msg_Some_iff using assms by (simp only: append_assoc simp_thms)
qed

lemma empty_leaf_loop:
  "certificate_loop env retain ([0, 0, 0] @ rest) stack pkey hs =
     (None, decode_error_state SSL_R_CERT_LENGTH_MISMATCH hs)"
proof (rule certificate_loop_Inl)
  show "[0, 0, 0] @ rest \<noteq> []" by simp
  show "process_certificate_entry env retain ([0, 0, 0] @ rest) stack pkey hs =
          Inl (decode_error_state SSL_R_CERT_LENGTH_MISMATCH hs)"
    by (rule process_certificate_entry_mismatch) (rule parse_empty_body)
qed

lemma empty_leaf_process:
  assumes "sk_new_ok env" and "length rest + 3 < 256 ^ 3"
    and "init_msg hs = [0] @ be_bytes 3 (length rest + 3) @ [0, 0, 0] @ rest"
  shows "tls13_process_certificate env allow hs =
        (False, decode_error_state SSL_R_CERT_LENGTH_MISMATCH hs)"
proof -
  have p: "parse_certificate_msg (init_msg hs) = Some ([0, 0, 0] @ rest)"
    by (simp only: assms(3) empty_leaf_Some[OF assms(2)])
  show ?thesis
    unfolding process_certificate_Some[OF p assms(1)] empty_leaf_loop
    by (simp only: prod.case option.case)
qed

text \<open>
  C3: \<open>tls13_process_certificate\<close> succeeds only on a message that is an empty
  1-byte-length-prefixed context followed by a 24-bit-length-prefixed list of entries with
  nothing after it, each entry a 24-bit-length-prefixed non-empty certificate body
  followed by a 16-bit-length-prefixed extension block. A message that is not a zero
  context byte and a 24-bit-length-prefixed list (in particular one with a non-empty
  context, with bytes after the list, or shorter than the prefixes) fails with one fatal
  decode-error alert and the reason decode-error. A leaf entry with an empty body fails
  with one fatal decode-error alert and the reason cert-length-mismatch, and so does the
  loop body on any entry that has an empty body or is not of the entry format.
\<close>

theorem C3_certificate_structure:
  "(fst (tls13_process_certificate env allow hs) \<longrightarrow>
      (\<exists>entries. init_msg hs = spec_certificate_msg entries \<and> list_all spec_entry_ok entries \<and>
         length (spec_certificate_list entries) < 256 ^ 3)) \<and>
   ((\<nexists>cl. length cl < 256 ^ 3 \<and> init_msg hs = [0] @ be_bytes 3 (length cl) @ cl) \<longrightarrow>
      tls13_process_certificate env allow hs =
        (False, decode_error_state SSL_R_DECODE_ERROR hs)) \<and>
   (init_msg hs = b # m \<and> b \<noteq> 0 \<longrightarrow>
      tls13_process_certificate env allow hs =
        (False, decode_error_state SSL_R_DECODE_ERROR hs)) \<and>
   (length cl < 256 ^ 3 \<and> t \<noteq> [] \<and> init_msg hs = [0] @ be_bytes 3 (length cl) @ cl @ t \<longrightarrow>
      tls13_process_certificate env allow hs =
        (False, decode_error_state SSL_R_DECODE_ERROR hs)) \<and>
   (length (init_msg hs) < 4 \<longrightarrow>
      tls13_process_certificate env allow hs =
        (False, decode_error_state SSL_R_DECODE_ERROR hs)) \<and>
   (sk_new_ok env \<and> length rest + 3 < 256 ^ 3 \<and>
    init_msg hs = [0] @ be_bytes 3 (length rest + 3) @ [0, 0, 0] @ rest \<longrightarrow>
      tls13_process_certificate env allow hs =
        (False, decode_error_state SSL_R_CERT_LENGTH_MISMATCH hs)) \<and>
   process_certificate_entry env retain ([0, 0, 0] @ rest) stack pkey hs =
     Inl (decode_error_state SSL_R_CERT_LENGTH_MISMATCH hs) \<and>
   ((\<nexists>c x r. spec_entry_ok (c, x) \<and> cl = spec_entry (c, x) @ r) \<longrightarrow>
      process_certificate_entry env retain cl stack pkey hs =
        Inl (decode_error_state SSL_R_CERT_LENGTH_MISMATCH hs))"
proof (intro conjI impI)
  assume "fst (tls13_process_certificate env allow hs)"
  then have "tls13_process_certificate env allow hs =
               (True, snd (tls13_process_certificate env allow hs))"
    by (cases "tls13_process_certificate env allow hs") simp
  from process_certificate_True[OF this]
  show "\<exists>entries. init_msg hs = spec_certificate_msg entries \<and> list_all spec_entry_ok entries \<and>
         length (spec_certificate_list entries) < 256 ^ 3"
    by blast
next
  assume "\<nexists>cl. length cl < 256 ^ 3 \<and> init_msg hs = [0] @ be_bytes 3 (length cl) @ cl"
  then have "parse_certificate_msg (init_msg hs) = None"
    unfolding parse_certificate_msg_None_iff .
  then show "tls13_process_certificate env allow hs =
        (False, decode_error_state SSL_R_DECODE_ERROR hs)"
    by (rule process_certificate_decode_error)
next
  assume a: "init_msg hs = b # m \<and> b \<noteq> 0"
  then have "parse_certificate_msg (init_msg hs) = None"
    using context_nonzero_None[of b m] by simp
  then show "tls13_process_certificate env allow hs =
        (False, decode_error_state SSL_R_DECODE_ERROR hs)"
    by (rule process_certificate_decode_error)
next
  assume "length cl < 256 ^ 3 \<and> t \<noteq> [] \<and> init_msg hs = [0] @ be_bytes 3 (length cl) @ cl @ t"
  then have "parse_certificate_msg (init_msg hs) = None"
    using trailing_bytes_None[of cl t] by simp
  then show "tls13_process_certificate env allow hs =
        (False, decode_error_state SSL_R_DECODE_ERROR hs)"
    by (rule process_certificate_decode_error)
next
  assume a: "length (init_msg hs) < 4"
  then have "parse_certificate_msg (init_msg hs) = None"
    by (rule truncated_None)
  then show "tls13_process_certificate env allow hs =
        (False, decode_error_state SSL_R_DECODE_ERROR hs)"
    by (rule process_certificate_decode_error)
next
  assume a: "sk_new_ok env \<and> length rest + 3 < 256 ^ 3 \<and>
    init_msg hs = [0] @ be_bytes 3 (length rest + 3) @ [0, 0, 0] @ rest"
  then show "tls13_process_certificate env allow hs =
        (False, decode_error_state SSL_R_CERT_LENGTH_MISMATCH hs)"
    using empty_leaf_process[of env rest hs allow] by blast
next
  show "process_certificate_entry env retain ([0, 0, 0] @ rest) stack pkey hs =
     Inl (decode_error_state SSL_R_CERT_LENGTH_MISMATCH hs)"
    by (rule process_certificate_entry_mismatch) (rule parse_empty_body)
next
  assume "\<nexists>c x r. spec_entry_ok (c, x) \<and> cl = spec_entry (c, x) @ r"
  then have "parse_certificate_entry cl = None"
    unfolding parse_certificate_entry_None_iff .
  then show "process_certificate_entry env retain cl stack pkey hs =
        Inl (decode_error_state SSL_R_CERT_LENGTH_MISMATCH hs)"
    by (rule process_certificate_entry_mismatch)
qed

lemma be_bytes_numeral:
  "be_bytes (numeral k) v =
     word_of_nat (v div 256 ^ pred_numeral k) #
     be_bytes (pred_numeral k) (v mod 256 ^ pred_numeral k)"
  by (simp add: numeral_eq_Suc)

lemmas cbs_defs = CBS_get_bytes_def cbs_get_u_def cbs_get_length_prefixed_def CBS_get_u8_def
  CBS_get_u16_def CBS_get_u8_length_prefixed_def CBS_get_u16_length_prefixed_def
  CBS_get_u24_length_prefixed_def

theorem C3_certificate_structure_witness:
  "(\<exists>entries. init_msg one_certificate_msg = spec_certificate_msg entries \<and>
      list_all spec_entry_ok entries \<and> length (spec_certificate_list entries) < 256 ^ 3) \<and>
   tls13_process_certificate example_collab False empty_leaf_msg =
     (False, decode_error_state SSL_R_CERT_LENGTH_MISMATCH empty_leaf_msg)"
proof -
  have p1: "parse_certificate_msg [0, 0, 0, 8, 0, 0, 3, 9, 9, 9, 0, 0] =
              Some [0, 0, 3, 9, 9, 9, 0, 0]"
    by (simp add: parse_certificate_msg_def cbs_defs)
  have p2: "parse_certificate_entry [0, 0, 3, 9, 9, 9, 0, 0] = Some ([9, 9, 9], [], [])"
    by (simp add: parse_certificate_entry_def cbs_defs)
  have ok: "fst (tls13_process_certificate example_collab False one_certificate_msg)"
    by (simp add: tls13_process_certificate_def p1 p2 certificate_loop.simps
          process_certificate_entry_def leaf_certificate_checks_def
          process_entry_extensions_def example_collab_def parse_two_extensions.simps
          one_certificate_msg_def example_client_def empty_session_def Let_def)
  have e: "sk_new_ok example_collab \<and> length ([0, 0] :: bytes) + 3 < 256 ^ 3 \<and>
           init_msg empty_leaf_msg = [0] @ be_bytes 3 (length ([0, 0] :: bytes) + 3) @ [0, 0, 0] @ [0, 0]"
    by (simp add: example_collab_def empty_leaf_msg_def be_bytes_numeral)
  have 1: "\<exists>entries. init_msg one_certificate_msg = spec_certificate_msg entries \<and>
      list_all spec_entry_ok entries \<and> length (spec_certificate_list entries) < 256 ^ 3"
    by (rule mp[OF C3_certificate_structure[THEN conjunct1] ok])
  have 2: "tls13_process_certificate example_collab False empty_leaf_msg =
     (False, decode_error_state SSL_R_CERT_LENGTH_MISMATCH empty_leaf_msg)"
    by (rule mp[OF C3_certificate_structure[THEN conjunct2, THEN conjunct2, THEN conjunct2,
                     THEN conjunct2, THEN conjunct2, THEN conjunct1] e])
  from 1 2 show ?thesis by (rule conjI)
qed

subsection \<open>Anonymous peers and the commit of the chain\<close>

lemma spec_certificate_msg_Nil: "spec_certificate_msg [] = [0, 0, 0, 0]"
  by (simp add: spec_certificate_msg_def spec_certificate_list_def be_bytes_3_0)

lemma parse_no_certificates: "parse_certificate_msg (spec_certificate_msg []) = Some []"
  by (simp add: parse_certificate_msg_Some_iff spec_certificate_msg_def spec_certificate_list_def)

text \<open>
  C5: the well-formed Certificate message with zero certificates is the empty context and
  the empty list. When the stack allocation and the \<open>session_cache_objects\<close> hook
  succeed: with \<open>allow_anonymous\<close> false the handler fails with one fatal
  certificate-required alert (reason peer-did-not-return-a-certificate); with
  \<open>allow_anonymous\<close> true it succeeds and sets the verify result to \<open>X509_V_OK\<close>. In
  both cases the stored chain is the null stack (\<open>None\<close>), not an empty list, and the
  peer key is null.
\<close>

theorem C5_no_certificates:
  "spec_certificate_msg [] = [0, 0, 0, 0] \<and>
   (init_msg hs = spec_certificate_msg [] \<and> sk_new_ok env \<and> session_cache_objects env None \<longrightarrow>
      tls13_process_certificate env False hs =
        (False, hs\<lparr>peer_pubkey := None,
                   new_session := (new_session hs)\<lparr>certs := None\<rparr>,
                   err_queue := err_queue hs @ [SSL_R_PEER_DID_NOT_RETURN_A_CERTIFICATE],
                   alerts := alerts hs @ [(SSL3_AL_FATAL, SSL_AD_CERTIFICATE_REQUIRED)]\<rparr>) \<and>
      tls13_process_certificate env True hs =
        (True, hs\<lparr>peer_pubkey := None,
                  new_session := (new_session hs)\<lparr>certs := None, verify_result := X509_V_OK\<rparr>\<rparr>))"
proof (intro conjI impI)
  show "spec_certificate_msg [] = [0, 0, 0, 0]" by (rule spec_certificate_msg_Nil)
next
  assume a: "init_msg hs = spec_certificate_msg [] \<and> sk_new_ok env \<and> session_cache_objects env None"
  then have p: "parse_certificate_msg (init_msg hs) = Some []"
    by (simp only: parse_no_certificates)
  from a have sk: "sk_new_ok env" and sc: "session_cache_objects env None" by simp_all
  show "tls13_process_certificate env False hs =
        (False, hs\<lparr>peer_pubkey := None,
                   new_session := (new_session hs)\<lparr>certs := None\<rparr>,
                   err_queue := err_queue hs @ [SSL_R_PEER_DID_NOT_RETURN_A_CERTIFICATE],
                   alerts := alerts hs @ [(SSL3_AL_FATAL, SSL_AD_CERTIFICATE_REQUIRED)]\<rparr>)"
    unfolding process_certificate_Some[OF p sk] certificate_loop_Nil
    using sc by (simp add: alert_defs)
  show "tls13_process_certificate env True hs =
        (True, hs\<lparr>peer_pubkey := None,
                  new_session := (new_session hs)\<lparr>certs := None, verify_result := X509_V_OK\<rparr>\<rparr>)"
    unfolding process_certificate_Some[OF p sk] certificate_loop_Nil
    using sc by simp
qed

theorem C5_no_certificates_witness:
  "tls13_process_certificate example_collab False no_certificate_msg =
     (False, no_certificate_msg
        \<lparr>err_queue := [SSL_R_PEER_DID_NOT_RETURN_A_CERTIFICATE],
         alerts := [(SSL3_AL_FATAL, SSL_AD_CERTIFICATE_REQUIRED)]\<rparr>) \<and>
   tls13_process_certificate example_collab True no_certificate_msg =
     (True, no_certificate_msg\<lparr>new_session := empty_session\<lparr>verify_result := 0\<rparr>\<rparr>)"
proof -
  have h: "init_msg no_certificate_msg = spec_certificate_msg [] \<and> sk_new_ok example_collab \<and>
           session_cache_objects example_collab None"
    by (simp add: spec_certificate_msg_Nil no_certificate_msg_def example_collab_def)
  have v: "peer_pubkey no_certificate_msg = None" "err_queue no_certificate_msg = []"
    "alerts no_certificate_msg = []" "new_session no_certificate_msg = empty_session"
    "certs empty_session = None"
    by (simp_all add: no_certificate_msg_def example_client_def empty_session_def)
  have e: "no_certificate_msg\<lparr>peer_pubkey := None\<rparr> = no_certificate_msg"
          "empty_session\<lparr>certs := None\<rparr> = empty_session"
          "no_certificate_msg\<lparr>new_session := empty_session\<rparr> = no_certificate_msg"
    by (simp_all add: no_certificate_msg_def example_client_def empty_session_def)
  from mp[OF C5_no_certificates[THEN conjunct2] h] show ?thesis
    by (simp add: v e X509_V_OK_def)
qed

text \<open>
  C10: when \<open>tls13_process_certificate\<close> fails inside the loop over the certificate list
  (a malformed entry, a failed leaf check, a rejected or malformed extension, a failed
  allocation), the handler returns the state the loop stopped in, and the session's chain
  \<open>certs\<close> and the peer key are what they were before the call: the decoded chain is
  committed only after the whole list has been parsed. The same holds for the failures
  before the loop.
\<close>

theorem C10_chain_unchanged_on_loop_failure:
  "(parse_certificate_msg (init_msg hs) = Some cl \<and> sk_new_ok env \<and>
    certificate_loop env (server hs \<and> retain_only_sha256_of_client_certs hs) cl [] None hs =
      (None, hs1) \<longrightarrow>
      tls13_process_certificate env allow hs = (False, hs1) \<and>
      certs (new_session hs1) = certs (new_session hs) \<and>
      peer_pubkey hs1 = peer_pubkey hs) \<and>
   (parse_certificate_msg (init_msg hs) = None \<or> \<not> sk_new_ok env \<longrightarrow>
      fst (tls13_process_certificate env allow hs) = False \<and>
      certs (new_session (snd (tls13_process_certificate env allow hs))) = certs (new_session hs) \<and>
      peer_pubkey (snd (tls13_process_certificate env allow hs)) = peer_pubkey hs)"
proof (intro conjI impI)
  assume a: "parse_certificate_msg (init_msg hs) = Some cl \<and> sk_new_ok env \<and>
    certificate_loop env (server hs \<and> retain_only_sha256_of_client_certs hs) cl [] None hs =
      (None, hs1)"
  then have p: "parse_certificate_msg (init_msg hs) = Some cl" and sk: "sk_new_ok env"
    and l: "certificate_loop env (server hs \<and> retain_only_sha256_of_client_certs hs) cl [] None hs =
      (None, hs1)"
    by simp_all
  show "tls13_process_certificate env allow hs = (False, hs1)"
    unfolding process_certificate_Some[OF p sk] l by simp
  from certificate_loop_None[OF l] have "loop_frame hs hs1" by simp
  then show "certs (new_session hs1) = certs (new_session hs)"
    and "peer_pubkey hs1 = peer_pubkey hs"
    by (simp_all add: loop_frame_def)
next
  assume a: "parse_certificate_msg (init_msg hs) = None \<or> \<not> sk_new_ok env"
  then show "fst (tls13_process_certificate env allow hs) = False"
    and "certs (new_session (snd (tls13_process_certificate env allow hs))) = certs (new_session hs)"
    and "peer_pubkey (snd (tls13_process_certificate env allow hs)) = peer_pubkey hs"
    by (auto simp: tls13_process_certificate_def alert_defs split: option.splits)
qed

theorem C10_chain_unchanged_on_loop_failure_witness:
  "fst (tls13_process_certificate example_collab False bad_second_entry_msg) = False \<and>
   certs (new_session (snd (tls13_process_certificate example_collab False bad_second_entry_msg))) =
     Some [[1]]"
proof -
  let ?cl = "[0, 0, 3, 9, 9, 9, 0, 0, 0, 0, 0] :: bytes"
  let ?h = "decode_error_state SSL_R_CERT_LENGTH_MISMATCH bad_second_entry_msg"
  have p: "parse_certificate_msg (init_msg bad_second_entry_msg) = Some ?cl"
    by (simp add: bad_second_entry_msg_def parse_certificate_msg_def cbs_defs)
  have sk: "sk_new_ok example_collab" by (simp add: example_collab_def)
  have e1: "parse_certificate_entry ?cl = Some ([9, 9, 9], [], [0, 0, 0])"
    by (simp add: parse_certificate_entry_def cbs_defs)
  have s1: "process_certificate_entry example_collab
              (server bad_second_entry_msg \<and> retain_only_sha256_of_client_certs bad_second_entry_msg)
              ?cl [] None bad_second_entry_msg =
            Inr ([0, 0, 0], [[9, 9, 9]], Some [9, 9], bad_second_entry_msg)"
    by (simp add: process_certificate_entry_def e1 leaf_certificate_checks_def
          process_entry_extensions_def example_collab_def parse_two_extensions.simps
          bad_second_entry_msg_def example_client_def)
  have l: "certificate_loop example_collab
             (server bad_second_entry_msg \<and> retain_only_sha256_of_client_certs bad_second_entry_msg)
             ?cl [] None bad_second_entry_msg = (None, ?h)"
    using empty_leaf_loop[of example_collab _ "[]" "[[9, 9, 9]]" "Some [9, 9]" bad_second_entry_msg]
    by (simp add: certificate_loop_Inr[OF _ s1])
  have c: "certs (new_session bad_second_entry_msg) = Some [[1]]"
    by (simp add: bad_second_entry_msg_def)
  from mp[OF C10_chain_unchanged_on_loop_failure[THEN conjunct1] conjI[OF p conjI[OF sk l]]]
  show ?thesis by (simp add: c)
qed

subsection \<open>Extensions are stored from the leaf only\<close>

lemma process_status_request_verdict:
  "\<forall>d. stow_ok env d \<Longrightarrow>
   verdict (process_status_request env sr n hs) = verdict (process_status_request env sr 1 hs)"
  by (auto simp: verdict_def process_status_request_def CBS_stow_def alert_defs
           split: option.splits)

lemma process_sct_verdict:
  "\<forall>d. stow_ok env d \<Longrightarrow> alerts hs1 = alerts hs \<Longrightarrow> err_queue hs1 = err_queue hs \<Longrightarrow>
   server hs1 = server hs \<Longrightarrow>
   signed_cert_timestamps_enabled hs1 = signed_cert_timestamps_enabled hs \<Longrightarrow>
   verdict (process_sct env sct n hs) = verdict (process_sct env sct 1 hs1)"
  by (auto simp: verdict_def process_sct_def CBS_stow_def alert_defs)

lemma process_entry_extensions_verdict:
  assumes "\<forall>d. stow_ok env d"
  shows "verdict (process_entry_extensions env x n hs) =
         verdict (process_entry_extensions env x 1 hs)"
proof (cases "ssl_parse_extensions env x")
  case (Inl a)
  then show ?thesis by (simp add: process_entry_extensions_def)
next
  case (Inr p)
  obtain sr sct where p: "p = (sr, sct)" by (cases p)
  show ?thesis
  proof (cases sr)
    case None
    with Inr p show ?thesis
      using process_sct_verdict[OF assms, of hs hs]
      by (auto simp: process_entry_extensions_def verdict_def split: option.splits)
  next
    case (Some s)
    show ?thesis
    proof (cases "process_status_request env s n hs")
      case l: (Inl h)
      with process_status_request_verdict[OF assms, of s n hs]
      obtain h1 where l1: "process_status_request env s 1 hs = Inl h1"
        and eq: "alerts h1 = alerts h" "err_queue h1 = err_queue h"
        by (cases "process_status_request env s 1 hs") (auto simp: verdict_def)
      from Inr p Some l l1 eq show ?thesis
        by (simp add: process_entry_extensions_def verdict_def)
    next
      case r: (Inr h)
      with process_status_request_verdict[OF assms, of s n hs]
      obtain h1 where r1: "process_status_request env s 1 hs = Inr h1"
        by (cases "process_status_request env s 1 hs") (auto simp: verdict_def)
      from process_status_request_frame(2)[OF r] process_status_request_frame(2)[OF r1]
      have f: "alerts h1 = alerts h" "err_queue h1 = err_queue h" "server h1 = server h"
        "signed_cert_timestamps_enabled h1 = signed_cert_timestamps_enabled h"
        by (simp_all add: loop_frame_def)
      show ?thesis
      proof (cases sct)
        case None
        with Inr p Some r r1 f show ?thesis
          by (simp add: process_entry_extensions_def verdict_def)
      next
        case sc: (Some t)
        from process_sct_verdict[OF assms, of h1 h t n] f
        have "verdict (process_sct env t n h) = verdict (process_sct env t 1 h1)" by simp
        with Inr p Some r r1 sc show ?thesis
          by (simp add: process_entry_extensions_def)
      qed
    qed
  qed
qed

lemma process_entry_extensions_nonleaf:
  "n \<noteq> 1 \<Longrightarrow> process_entry_extensions env x n hs = Inr h \<Longrightarrow> h = hs"
  by (auto simp: process_entry_extensions_def process_status_request_def process_sct_def
           split: sum.splits option.splits if_splits)

lemma process_certificate_entry_nonleaf:
  assumes "stack \<noteq> []"
    and "process_certificate_entry env retain cl stack pkey hs = Inr (rest, s1, p1, h)"
  shows "h = hs \<and> s1 \<noteq> []"
proof -
  from assms(2) obtain c x where
    "process_entry_extensions env x (length (stack @ [c])) hs = Inr h" and "s1 = stack @ [c]"
    using assms(1)
    by (auto simp: process_certificate_entry_def Let_def
             split: option.splits sum.splits if_splits prod.splits)
  moreover have "length (stack @ [c]) \<noteq> 1" using assms(1) by (cases stack) simp_all
  ultimately show ?thesis using process_entry_extensions_nonleaf by blast
qed

lemma certificate_loop_nonleaf:
  "stack \<noteq> [] \<Longrightarrow> certificate_loop env retain cl stack pkey hs = (Some r, h) \<Longrightarrow> h = hs"
proof (induction env retain cl stack pkey hs rule: certificate_loop.induct)
  case (1 env retain cl stack pkey hs)
  show ?case
  proof (cases "cl = []")
    case True
    with "1.prems" show ?thesis by (simp add: certificate_loop_Nil)
  next
    case ne: False
    show ?thesis
    proof (cases "process_certificate_entry env retain cl stack pkey hs")
      case (Inl h1)
      with ne "1.prems" show ?thesis by (simp add: certificate_loop_Inl)
    next
      case (Inr q)
      obtain rest s1 p1 h1 where q: "q = (rest, s1, p1, h1)" by (cases q)
      from Inr q have step: "process_certificate_entry env retain cl stack pkey hs = Inr (rest, s1, p1, h1)"
        by simp
      with ne "1.prems" have rec: "certificate_loop env retain rest s1 p1 h1 = (Some r, h)"
        by (simp add: certificate_loop_Inr)
      from process_certificate_entry_nonleaf[OF "1.prems"(1) step] have h1: "h1 = hs" "s1 \<noteq> []"
        by simp_all
      from "1.IH"[OF _ step refl refl refl h1(2) rec] ne have "h = h1" by simp
      with h1 show ?thesis by simp
    qed
  qed
qed

lemma process_certificate_entry_leaf_fields:
  assumes "process_certificate_entry env retain cl [] pkey hs = Inr (rest, s1, p1, h)"
    and "parse_certificate_entry cl = Some (c, x, rest1)"
  shows "ocsp_response (new_session h) =
           leaf_ocsp_response env x (ocsp_response (new_session hs)) \<and>
         tlsext_signed_cert_timestamp_list (new_session h) =
           leaf_sct_list env x (tlsext_signed_cert_timestamp_list (new_session hs))"
  using assms
  by (auto simp: process_certificate_entry_def Let_def leaf_certificate_checks_def
                 process_entry_extensions_def process_status_request_def process_sct_def
                 CBS_stow_def leaf_ocsp_response_def leaf_sct_list_def parse_status_request_def
           split: option.splits sum.splits if_splits prod.splits)

lemma process_certificate_leaf_fields:
  assumes ok: "tls13_process_certificate env allow hs = (True, h)"
    and msg: "init_msg hs = spec_certificate_msg ((c1, x1) # es)"
    and e1: "spec_entry_ok (c1, x1)"
    and len: "length (spec_certificate_list ((c1, x1) # es)) < 256 ^ 3"
  shows "ocsp_response (new_session h) =
           leaf_ocsp_response env x1 (ocsp_response (new_session hs)) \<and>
         tlsext_signed_cert_timestamp_list (new_session h) =
           leaf_sct_list env x1 (tlsext_signed_cert_timestamp_list (new_session hs))"
proof -
  let ?L = "spec_certificate_list ((c1, x1) # es)"
  let ?rest = "spec_certificate_list es"
  let ?r = "server hs \<and> retain_only_sha256_of_client_certs hs"
  have L: "?L = spec_entry (c1, x1) @ ?rest" by (simp add: spec_certificate_list_def)
  have p: "parse_certificate_msg (init_msg hs) = Some ?L"
    unfolding parse_certificate_msg_Some_iff using msg len
    by (simp add: spec_certificate_msg_def)
  from ok have sk: "sk_new_ok env"
    by (auto simp: tls13_process_certificate_def split: option.splits if_splits)
  have pe: "parse_certificate_entry ?L = Some (c1, x1, ?rest)"
    unfolding spec_entry_parse using e1 L by simp
  then have ne: "?L \<noteq> []" by (auto simp: parse_certificate_entry_Some_iff)
  obtain res h2 where loop: "certificate_loop env ?r ?L [] None hs = (res, h2)"
    by (cases "certificate_loop env ?r ?L [] None hs")
  from ok loop obtain certs0 pk where res: "res = Some (certs0, pk)"
    by (cases res) (auto simp: process_certificate_Some[OF p sk])
  have fin: "ocsp_response (new_session h) = ocsp_response (new_session h2) \<and>
             tlsext_signed_cert_timestamp_list (new_session h) =
               tlsext_signed_cert_timestamp_list (new_session h2)"
    using ok loop res
    by (auto simp: process_certificate_Some[OF p sk] Let_def alert_defs split: if_splits)
  show ?thesis
  proof (cases "process_certificate_entry env ?r ?L [] None hs")
    case (Inl h1)
    from certificate_loop_Inl[OF ne Inl] loop res show ?thesis by simp
  next
    case (Inr q)
    obtain rest s1 p1 h1 where q: "q = (rest, s1, p1, h1)" by (cases q)
    from Inr q have step: "process_certificate_entry env ?r ?L [] None hs = Inr (rest, s1, p1, h1)"
      by simp
    from process_certificate_entry_Inr[OF step] pe have s1: "s1 \<noteq> []" by auto
    from certificate_loop_Inr[OF ne step] loop res
    have "certificate_loop env ?r rest s1 p1 h1 = (Some (certs0, pk), h2)" by simp
    from certificate_loop_nonleaf[OF s1 this] have "h2 = h1" .
    with process_certificate_entry_leaf_fields[OF step pe] fin show ?thesis by simp
  qed
qed

subsection \<open>Decoding a re-encoded chain\<close>

lemma be_bytes_2_0: "be_bytes 2 0 = [0, 0]"
  by (simp add: be_bytes_numeral)

lemma spec_entry_bare: "spec_entry (c, []) = be_bytes 3 (length c) @ c @ [0, 0]"
  by (simp add: spec_entry_def be_bytes_2_0)

lemma add_chain_certificates_eq:
  "add_chain_certificates chain =
     (if list_all (\<lambda>c. length c < 256 ^ 3) chain
      then Some (spec_certificate_list (bare_entries chain)) else None)"
proof (induction chain)
  case Nil
  show ?case by (simp add: spec_certificate_list_def bare_entries_def)
next
  case (Cons c chain)
  have "bare_entries (c # chain) = (c, []) # bare_entries chain"
    by (simp add: bare_entries_def)
  then have "spec_certificate_list (bare_entries (c # chain)) =
          be_bytes 3 (length c) @ c @ [0, 0] @ spec_certificate_list (bare_entries chain)"
    by (simp add: spec_certificate_list_def spec_entry_bare)
  then show ?case
    by (simp add: Cons.IH cbb_length_prefixed_def CBB_u16_def be_bytes_2_0)
qed

lemma spec_entry_length: "length (spec_entry e) = 5 + length (fst e) + length (snd e)"
  by (simp add: spec_entry_def)

lemma spec_certificate_list_Cons:
  "spec_certificate_list (e # es) = spec_entry e @ spec_certificate_list es"
  by (simp add: spec_certificate_list_def)

lemma spec_certificate_list_Nil_iff: "spec_certificate_list es = [] \<longleftrightarrow> es = []"
proof (cases es)
  case Nil
  then show ?thesis by (simp add: spec_certificate_list_def)
next
  case (Cons e es1)
  have "length (spec_certificate_list (e # es1)) \<ge> 5"
    by (simp add: spec_certificate_list_Cons spec_entry_length)
  with Cons show ?thesis by auto
qed

lemma spec_certificate_list_inj:
  "list_all spec_entry_ok es \<Longrightarrow> list_all spec_entry_ok es1 \<Longrightarrow>
   spec_certificate_list es = spec_certificate_list es1 \<Longrightarrow> es = es1"
proof (induction es arbitrary: es1)
  case Nil
  then show ?case using spec_certificate_list_Nil_iff[of es1]
    by (simp add: spec_certificate_list_def)
next
  case (Cons e es)
  from Cons.prems(3) have "es1 \<noteq> []"
    using spec_certificate_list_Nil_iff[of "e # es"] by (auto simp: spec_certificate_list_def)
  then obtain e1 es2 where es1: "es1 = e1 # es2" by (cases es1) auto
  let ?cl = "spec_certificate_list (e # es)"
  have "parse_certificate_entry ?cl = Some (fst e, snd e, spec_certificate_list es)"
    unfolding spec_entry_parse using Cons.prems(1) by (simp add: spec_certificate_list_Cons)
  moreover have "parse_certificate_entry ?cl = Some (fst e1, snd e1, spec_certificate_list es2)"
    unfolding spec_entry_parse using Cons.prems(2,3) es1 by (simp add: spec_certificate_list_Cons)
  ultimately have "fst e = fst e1" "snd e = snd e1"
    "spec_certificate_list es = spec_certificate_list es2"
    by simp_all
  moreover from this(3) Cons.prems es1 have "es = es2" using Cons.IH[of es2] by simp
  ultimately show ?case using es1 by (simp add: prod_eq_iff)
qed

lemma spec_certificate_msg_inj:
  assumes "list_all spec_entry_ok es" and "list_all spec_entry_ok es1"
    and "length (spec_certificate_list es) < 256 ^ 3"
    and "length (spec_certificate_list es1) < 256 ^ 3"
    and "spec_certificate_msg es = spec_certificate_msg es1"
  shows "es = es1"
proof -
  have "parse_certificate_msg (spec_certificate_msg es) = Some (spec_certificate_list es)"
    unfolding parse_certificate_msg_Some_iff using assms(3) by (simp add: spec_certificate_msg_def)
  moreover have "parse_certificate_msg (spec_certificate_msg es1) = Some (spec_certificate_list es1)"
    unfolding parse_certificate_msg_Some_iff using assms(4) by (simp add: spec_certificate_msg_def)
  ultimately have "spec_certificate_list es = spec_certificate_list es1"
    using assms(5) by simp
  with assms(1,2) show ?thesis by (rule spec_certificate_list_inj)
qed

lemma process_certificate_accepts:
  assumes "tls13_process_certificate env allow hs = (True, h)"
  shows "\<exists>entries.
     init_msg hs = spec_certificate_msg entries \<and> list_all spec_entry_ok entries \<and>
     length (spec_certificate_list entries) < 256 ^ 3 \<and> sk_new_ok env \<and>
     list_all (buffer_new_ok env) (map fst entries) \<and>
     certs (new_session h) = (if entries = [] then None else Some (map fst entries)) \<and>
     session_cache_objects env (certs (new_session h)) \<and>
     (if entries = [] then peer_pubkey h = None
      else peer_pubkey h = ssl_cert_parse_pubkey env (fst (hd entries)) \<and> peer_pubkey h \<noteq> None \<and>
           ssl_cert_check_digital_signature_key_usage env (fst (hd entries)))"
proof -
  from assms obtain cl where cl: "parse_certificate_msg (init_msg hs) = Some cl"
    by (cases "parse_certificate_msg (init_msg hs)")
       (auto simp: tls13_process_certificate_def)
  from assms cl have sk: "sk_new_ok env"
    by (auto simp: tls13_process_certificate_def split: if_splits)
  let ?r = "server hs \<and> retain_only_sha256_of_client_certs hs"
  obtain res hs1 where loop: "certificate_loop env ?r cl [] None hs = (res, hs1)"
    by (cases "certificate_loop env ?r cl [] None hs")
  from assms loop obtain certs0 pkey where res: "res = Some (certs0, pkey)"
    by (cases res) (auto simp: process_certificate_Some[OF cl sk])
  from certificate_loop_Some[OF loop[unfolded res]] obtain entries where
    e: "cl = spec_certificate_list entries" "list_all spec_entry_ok entries"
       "certs0 = map fst entries" "list_all (buffer_new_ok env) (map fst entries)"
       "if entries \<noteq> []
        then pkey = ssl_cert_parse_pubkey env (fst (hd entries)) \<and> pkey \<noteq> None \<and>
             ssl_cert_check_digital_signature_key_usage env (fst (hd entries))
        else pkey = None"
    by auto
  from cl have m: "length cl < 256 ^ 3" "init_msg hs = [0] @ be_bytes 3 (length cl) @ cl"
    by (simp_all add: parse_certificate_msg_Some_iff)
  have 1: "init_msg hs = spec_certificate_msg entries"
    using m e by (simp add: spec_certificate_msg_def)
  have 2: "certs (new_session h) = (if entries = [] then None else Some (map fst entries))"
    "peer_pubkey h = pkey" "session_cache_objects env (certs (new_session h))"
    using assms loop res e(3)
    by (auto simp: process_certificate_Some[OF cl sk] Let_def alert_defs split: if_splits)
  have 3: "if entries = [] then peer_pubkey h = None
      else peer_pubkey h = ssl_cert_parse_pubkey env (fst (hd entries)) \<and> peer_pubkey h \<noteq> None \<and>
           ssl_cert_check_digital_signature_key_usage env (fst (hd entries))"
    using e(5) 2(2) by (auto split: if_splits)
  from 1 2 3 e m sk show ?thesis by blast
qed

lemma spec_certificate_msg_Cons:
  "spec_certificate_msg ((leaf, x) # es) =
     [0] @ be_bytes 3 (length (spec_certificate_list ((leaf, x) # es))) @
     (be_bytes 3 (length leaf) @ leaf) @ (be_bytes 2 (length x) @ x) @ spec_certificate_list es"
  by (simp add: spec_certificate_msg_def spec_certificate_list_def spec_entry_def)

lemma spec_certificate_list_leaf:
  "spec_certificate_list ((leaf, x) # es) =
     (be_bytes 3 (length leaf) @ leaf) @ (be_bytes 2 (length x) @ x) @ spec_certificate_list es"
  by (simp add: spec_certificate_list_def spec_entry_def)

lemma add_certificate_True:
  assumes "cert_chain enc = Some (leaf # chain)" and "has_private_key enc"
    and "tls13_add_certificate env enc = (True, enc1)"
  shows "\<exists>a b. sct_extension enc = Some a \<and> ocsp_extension enc = Some b \<and>
           length leaf < 256 ^ 3 \<and> length (a @ b) < 256 ^ 2 \<and>
           list_all (\<lambda>c. length c < 256 ^ 3) chain \<and>
           length (spec_certificate_list ((leaf, a @ b) # bare_entries chain)) < 256 ^ 3 \<and>
           enc1 = enc\<lparr>flight := flight enc @
                   [(SSL3_MT_CERTIFICATE,
                     spec_certificate_msg ((leaf, a @ b) # bare_entries chain))]\<rparr>"
proof -
  from assms(1,2) have has: "ssl_has_certificate enc" by (simp add: ssl_has_certificate_def)
  from assms(3) has have cbb: "cbb_ok env"
    by (auto simp: tls13_add_certificate_def split: if_splits)
  from assms(3) has cbb assms(1) obtain lf where lf: "cbb_length_prefixed 3 leaf = Some lf"
    by (cases "cbb_length_prefixed 3 leaf") (auto simp: tls13_add_certificate_def)
  from assms(3) has cbb assms(1) lf obtain a where a: "sct_extension enc = Some a"
    by (cases "sct_extension enc") (auto simp: tls13_add_certificate_def)
  from assms(3) has cbb assms(1) lf a obtain b where b: "ocsp_extension enc = Some b"
    by (cases "ocsp_extension enc") (auto simp: tls13_add_certificate_def)
  from assms(3) has cbb assms(1) lf a b obtain ex where ex: "cbb_length_prefixed 2 (a @ b) = Some ex"
    by (cases "cbb_length_prefixed 2 (a @ b)")
       (auto simp: tls13_add_certificate_def split: if_splits)
  from assms(3) has cbb assms(1) lf a b ex obtain tl where tl: "add_chain_certificates chain = Some tl"
    by (cases "add_chain_certificates chain")
       (auto simp: tls13_add_certificate_def split: if_splits)
  from tl have ch: "list_all (\<lambda>c. length c < 256 ^ 3) chain"
    and tl_eq: "tl = spec_certificate_list (bare_entries chain)"
    by (auto simp: add_chain_certificates_eq split: if_splits)
  from lf have l1: "length leaf < 256 ^ 3" and lf_eq: "lf = be_bytes 3 (length leaf) @ leaf"
    by (auto simp: cbb_length_prefixed_def split: if_splits)
  from ex have l2: "length (a @ b) < 256 ^ 2" and ex_eq: "ex = be_bytes 2 (length (a @ b)) @ a @ b"
    by (auto simp: cbb_length_prefixed_def split: if_splits)
  have tl_nil: "chain = [] \<Longrightarrow> tl = []"
    using tl_eq by (simp add: bare_entries_def spec_certificate_list_def)
  have fin: "tls13_add_certificate env enc = finish_certificate_message env (lf @ ex @ tl) enc"
    using has cbb assms(1) lf a b ex tl tl_nil
    by (simp add: tls13_add_certificate_def)
  have L: "lf @ ex @ tl = spec_certificate_list ((leaf, a @ b) # bare_entries chain)"
    by (simp add: lf_eq ex_eq tl_eq spec_certificate_list_leaf)
  from assms(3) fin have f: "finish_certificate_message env (lf @ ex @ tl) enc = (True, enc1)"
    by simp
  then have l3: "length (lf @ ex @ tl) < 256 ^ 3"
    by (auto simp: finish_certificate_message_def cbb_length_prefixed_def split: if_splits)
  from f l3 have "enc1 = enc\<lparr>flight := flight enc @
         [(SSL3_MT_CERTIFICATE, [0] @ be_bytes 3 (length (lf @ ex @ tl)) @ lf @ ex @ tl)]\<rparr>"
    by (auto simp: finish_certificate_message_def cbb_length_prefixed_def
                   ssl_add_message_cbb_def split: if_splits)
  then have "enc1 = enc\<lparr>flight := flight enc @
         [(SSL3_MT_CERTIFICATE, spec_certificate_msg ((leaf, a @ b) # bare_entries chain))]\<rparr>"
    unfolding L by (simp only: spec_certificate_msg_def)
  with a b l1 l2 ch l3 L show ?thesis by auto
qed

lemma add_certificate_bare:
  assumes "cert_chain enc = Some (leaf # chain)" and "has_private_key enc"
    and "cbb_ok env" and "add_message_ok env"
    and "sct_extension enc = Some []" and "ocsp_extension enc = Some []"
    and "list_all (\<lambda>c. length c < 256 ^ 3) (leaf # chain)"
    and "length (spec_certificate_msg (bare_entries (leaf # chain))) < 256 ^ 3"
  shows "tls13_add_certificate env enc =
           (True, enc\<lparr>flight := flight enc @
              [(SSL3_MT_CERTIFICATE, spec_certificate_msg (bare_entries (leaf # chain)))]\<rparr>)"
proof -
  from assms(1,2) have has: "ssl_has_certificate enc" by (simp add: ssl_has_certificate_def)
  let ?tl = "spec_certificate_list (bare_entries chain)"
  let ?lf = "be_bytes 3 (length leaf) @ leaf"
  have lf: "cbb_length_prefixed 3 leaf = Some ?lf"
    using assms(7) by (simp add: cbb_length_prefixed_def)
  have ex: "cbb_length_prefixed 2 ([] @ []) = Some [0, 0]"
    by (simp add: cbb_length_prefixed_def be_bytes_2_0)
  have tl: "add_chain_certificates chain = Some ?tl"
    using assms(7) by (simp add: add_chain_certificates_eq)
  have tl_nil: "chain = [] \<Longrightarrow> ?tl = []"
    by (simp add: bare_entries_def spec_certificate_list_def)
  have fin: "tls13_add_certificate env enc = finish_certificate_message env (?lf @ [0, 0] @ ?tl) enc"
    using has assms(1,3,5,6) lf ex tl tl_nil
    by (simp add: tls13_add_certificate_def)
  have L: "?lf @ [0, 0] @ ?tl = spec_certificate_list (bare_entries (leaf # chain))"
    by (simp add: bare_entries_def spec_certificate_list_def spec_entry_bare)
  have M: "spec_certificate_msg (bare_entries (leaf # chain)) =
           [0] @ be_bytes 3 (length (?lf @ [0, 0] @ ?tl)) @ ?lf @ [0, 0] @ ?tl"
    unfolding L by (simp only: spec_certificate_msg_def)
  from assms(8) have "length (?lf @ [0, 0] @ ?tl) < 256 ^ 3"
    unfolding M by simp
  then show ?thesis
    unfolding fin using assms(4,8)
    by (simp add: finish_certificate_message_def cbb_length_prefixed_def
                  ssl_add_message_cbb_def M)
qed

lemma process_certificate_entry_bare_nonleaf:
  assumes "ssl_parse_extensions env [] = Inr (None, None)" and "stack \<noteq> []"
    and "c \<noteq> []" and "length c < 256 ^ 3" and "buffer_new_ok env c"
  shows "process_certificate_entry env retain (spec_entry (c, []) @ rest) stack pkey r =
           Inr (rest, stack @ [c], pkey, r)"
proof -
  have "parse_certificate_entry (spec_entry (c, []) @ rest) = Some (c, [], rest)"
    unfolding spec_entry_parse using assms(3,4) by (simp add: spec_entry_ok_def)
  then show ?thesis
    using assms(1,2,5)
    by (simp add: process_certificate_entry_def process_entry_extensions_def)
qed

lemma certificate_loop_bare:
  assumes "ssl_parse_extensions env [] = Inr (None, None)"
  shows "stack \<noteq> [] \<Longrightarrow>
         list_all (\<lambda>c. c \<noteq> [] \<and> length c < 256 ^ 3 \<and> buffer_new_ok env c) chain \<Longrightarrow>
         certificate_loop env retain (spec_certificate_list (bare_entries chain)) stack pkey r =
           (Some (stack @ chain, pkey), r)"
proof (induction chain arbitrary: stack)
  case Nil
  then show ?case
    by (simp add: bare_entries_def spec_certificate_list_def certificate_loop_Nil)
next
  case (Cons c chain)
  let ?rest = "spec_certificate_list (bare_entries chain)"
  have cl: "spec_certificate_list (bare_entries (c # chain)) = spec_entry (c, []) @ ?rest"
    by (simp add: bare_entries_def spec_certificate_list_def)
  have ne: "spec_entry (c, []) @ ?rest \<noteq> []" by (simp add: spec_entry_bare)
  from Cons.prems have c: "c \<noteq> []" "length c < 256 ^ 3" "buffer_new_ok env c"
    and ch: "list_all (\<lambda>c. c \<noteq> [] \<and> length c < 256 ^ 3 \<and> buffer_new_ok env c) chain"
    by simp_all
  have step: "process_certificate_entry env retain (spec_entry (c, []) @ ?rest) stack pkey r =
                Inr (?rest, stack @ [c], pkey, r)"
    using assms Cons.prems(1) c by (rule process_certificate_entry_bare_nonleaf)
  have "certificate_loop env retain ?rest (stack @ [c]) pkey r =
          (Some ((stack @ [c]) @ chain, pkey), r)"
    using ch by (intro Cons.IH) simp_all
  then show ?case
    unfolding cl certificate_loop_Inr[OF ne step] by simp
qed

lemma process_certificate_entry_bare_leaf:
  assumes "ssl_parse_extensions env [] = Inr (None, None)"
    and "c \<noteq> []" and "length c < 256 ^ 3" and "buffer_new_ok env c"
    and "ssl_cert_parse_pubkey env c = Some k"
    and "ssl_cert_check_digital_signature_key_usage env c"
  shows "\<exists>r1. process_certificate_entry env retain (spec_entry (c, []) @ rest) [] None r =
           Inr (rest, [c], Some k, r1) \<and> alerts r1 = alerts r"
proof -
  have "parse_certificate_entry (spec_entry (c, []) @ rest) = Some (c, [], rest)"
    unfolding spec_entry_parse using assms(2,3) by (simp add: spec_entry_ok_def)
  then show ?thesis
    using assms(1,4,5,6)
    by (simp add: process_certificate_entry_def process_entry_extensions_def
                  leaf_certificate_checks_def)
qed

lemma process_certificate_bare:
  assumes msg: "init_msg r = spec_certificate_msg (bare_entries (leaf # chain))"
    and len: "length (spec_certificate_list (bare_entries (leaf # chain))) < 256 ^ 3"
    and sk: "sk_new_ok env" and px: "ssl_parse_extensions env [] = Inr (None, None)"
    and ok: "list_all (\<lambda>c. c \<noteq> [] \<and> length c < 256 ^ 3 \<and> buffer_new_ok env c) (leaf # chain)"
    and pk: "ssl_cert_parse_pubkey env leaf = Some k"
    and ku: "ssl_cert_check_digital_signature_key_usage env leaf"
    and sc: "session_cache_objects env (Some (leaf # chain))"
  shows "\<exists>h2. tls13_process_certificate env a r = (True, h2) \<and>
              certs (new_session h2) = Some (leaf # chain) \<and> peer_pubkey h2 = Some k"
proof -
  let ?L = "spec_certificate_list (bare_entries (leaf # chain))"
  let ?rest = "spec_certificate_list (bare_entries chain)"
  let ?ret = "server r \<and> retain_only_sha256_of_client_certs r"
  have p: "parse_certificate_msg (init_msg r) = Some ?L"
    unfolding parse_certificate_msg_Some_iff using msg len
    by (simp add: spec_certificate_msg_def)
  have cl: "?L = spec_entry (leaf, []) @ ?rest"
    by (simp add: bare_entries_def spec_certificate_list_def)
  have ne: "spec_entry (leaf, []) @ ?rest \<noteq> []" by (simp add: spec_entry_bare)
  from ok have lf: "leaf \<noteq> []" "length leaf < 256 ^ 3" "buffer_new_ok env leaf"
    and ch: "list_all (\<lambda>c. c \<noteq> [] \<and> length c < 256 ^ 3 \<and> buffer_new_ok env c) chain"
    by simp_all
  from process_certificate_entry_bare_leaf[OF px lf pk ku, of ?ret ?rest r]
  obtain r1 where step: "process_certificate_entry env ?ret (spec_entry (leaf, []) @ ?rest) [] None r =
           Inr (?rest, [leaf], Some k, r1)"
    by blast
  have "certificate_loop env ?ret ?rest [leaf] (Some k) r1 = (Some ([leaf] @ chain, Some k), r1)"
    using px _ ch by (rule certificate_loop_bare) simp
  then have loop: "certificate_loop env ?ret ?L [] None r = (Some (leaf # chain, Some k), r1)"
    unfolding cl certificate_loop_Inr[OF ne step] by simp
  show ?thesis
    unfolding process_certificate_Some[OF p sk] loop using sc by (simp add: Let_def)
qed

lemma spec_certificate_list_bare_le:
  "length (spec_certificate_list (bare_entries (map fst es))) \<le> length (spec_certificate_list es)"
proof (induction es)
  case Nil
  then show ?case by (simp add: bare_entries_def)
next
  case (Cons e es)
  have "length (spec_certificate_list (bare_entries (map fst (e # es)))) =
          5 + length (fst e) + length (spec_certificate_list (bare_entries (map fst es)))"
    by (simp add: bare_entries_def spec_certificate_list_def spec_entry_length)
  moreover have "length (spec_certificate_list (e # es)) =
          5 + length (fst e) + length (snd e) + length (spec_certificate_list es)"
    by (simp add: spec_certificate_list_def spec_entry_length)
  ultimately show ?case using Cons.IH by simp
qed

subsection \<open>Decode, encode, decode\<close>

lemma accepted_chain_ok:
  "list_all spec_entry_ok es \<Longrightarrow>
   list_all (\<lambda>c. c \<noteq> [] \<and> length c < 256 ^ 3) (map fst es)"
  by (induction es) (auto simp: spec_entry_ok_def)

lemma bare_entries_ok:
  "list_all (\<lambda>c. c \<noteq> [] \<and> length c < 256 ^ 3) chain \<Longrightarrow>
   list_all spec_entry_ok (bare_entries chain)"
  by (induction chain) (auto simp: spec_entry_ok_def bare_entries_def)

lemma map_fst_bare_entries [simp]: "map fst (bare_entries chain) = chain"
  by (induction chain) (auto simp: bare_entries_def)

text \<open>What a successful first decoding says about the stored chain.\<close>

lemma accepted_chain_facts:
  assumes "tls13_process_certificate env allow hs = (True, h)"
    and "certs (new_session h) = Some chain"
  shows "chain \<noteq> []"
    and "list_all (\<lambda>c. c \<noteq> [] \<and> length c < 256 ^ 3) chain"
    and "list_all (buffer_new_ok env) chain" and "sk_new_ok env"
    and "session_cache_objects env (Some chain)"
    and "peer_pubkey h = ssl_cert_parse_pubkey env (hd chain)" and "peer_pubkey h \<noteq> None"
    and "ssl_cert_check_digital_signature_key_usage env (hd chain)"
    and "length (spec_certificate_list (bare_entries chain)) + 4 \<le> length (init_msg hs)"
proof -
  from process_certificate_accepts[OF assms(1)] obtain es where
    m: "init_msg hs = spec_certificate_msg es" and ok: "list_all spec_entry_ok es" and
    sk: "sk_new_ok env" and b: "list_all (buffer_new_ok env) (map fst es)" and
    c: "certs (new_session h) = (if es = [] then None else Some (map fst es))" and
    sc: "session_cache_objects env (certs (new_session h))" and
    k: "if es = [] then peer_pubkey h = None
        else peer_pubkey h = ssl_cert_parse_pubkey env (fst (hd es)) \<and> peer_pubkey h \<noteq> None \<and>
             ssl_cert_check_digital_signature_key_usage env (fst (hd es))"
    by blast
  from c assms(2) have ne: "es \<noteq> []" and ch: "chain = map fst es"
    by (auto split: if_splits)
  from ne have hd: "hd chain = fst (hd es)" unfolding ch by (simp add: hd_map)
  have "length (init_msg hs) = 4 + length (spec_certificate_list es)"
    unfolding m by (simp add: spec_certificate_msg_def)
  with spec_certificate_list_bare_le[of es]
  have l: "length (spec_certificate_list (bare_entries chain)) + 4 \<le> length (init_msg hs)"
    unfolding ch by simp
  from ne have 1: "chain \<noteq> []" unfolding ch by simp
  from ok have 2: "list_all (\<lambda>c. c \<noteq> [] \<and> length c < 256 ^ 3) chain"
    unfolding ch by (rule accepted_chain_ok)
  from b have 3: "list_all (buffer_new_ok env) chain" unfolding ch .
  from sc assms(2) have 4: "session_cache_objects env (Some chain)" by simp
  from k have kk: "peer_pubkey h = ssl_cert_parse_pubkey env (fst (hd es)) \<and>
      peer_pubkey h \<noteq> None \<and> ssl_cert_check_digital_signature_key_usage env (fst (hd es))"
    unfolding if_not_P[OF ne] .
  note k1 = kk[THEN conjunct1] and k2 = kk[THEN conjunct2, THEN conjunct1]
    and k3 = kk[THEN conjunct2, THEN conjunct2]
  have 5: "peer_pubkey h = ssl_cert_parse_pubkey env (hd chain)"
    "peer_pubkey h \<noteq> None" "ssl_cert_check_digital_signature_key_usage env (hd chain)"
    unfolding hd by (rule k1, rule k2, rule k3)
  show "chain \<noteq> []"
    and "list_all (\<lambda>c. c \<noteq> [] \<and> length c < 256 ^ 3) chain"
    and "list_all (buffer_new_ok env) chain" and "sk_new_ok env"
    and "session_cache_objects env (Some chain)"
    and "peer_pubkey h = ssl_cert_parse_pubkey env (hd chain)" and "peer_pubkey h \<noteq> None"
    and "ssl_cert_check_digital_signature_key_usage env (hd chain)"
    and "length (spec_certificate_list (bare_entries chain)) + 4 \<le> length (init_msg hs)"
    by (fact 1 2 3 sk 4 5 l)+
qed

lemma round_trip_same:
  assumes first: "tls13_process_certificate env allow hs = (True, h)"
    and chain: "certs (new_session h) = Some chain"
    and enc: "cert_chain enc = Some chain" "has_private_key enc"
    and add: "tls13_add_certificate env enc = (True, enc1)"
  shows "\<exists>body. enc1 = enc\<lparr>flight := flight enc @ [(SSL3_MT_CERTIFICATE, body)]\<rparr> \<and>
           (\<forall>r a h2. init_msg r = body \<and> tls13_process_certificate env a r = (True, h2) \<longrightarrow>
              certs (new_session h2) = Some chain \<and> peer_pubkey h2 = peer_pubkey h)"
proof -
  note ne = accepted_chain_facts(1)[OF first chain]
    and ok = accepted_chain_facts(2)[OF first chain]
    and pk = accepted_chain_facts(6)[OF first chain]
  from ne obtain leaf rest where ch: "chain = leaf # rest" by (cases chain) auto
  from add_certificate_True[OF enc(1)[unfolded ch] enc(2) add] obtain a b where
    l2: "length (a @ b) < 256 ^ 2" and
    l3: "length (spec_certificate_list ((leaf, a @ b) # bare_entries rest)) < 256 ^ 3" and
    e1: "enc1 = enc\<lparr>flight := flight enc @
           [(SSL3_MT_CERTIFICATE, spec_certificate_msg ((leaf, a @ b) # bare_entries rest))]\<rparr>"
    by blast
  let ?E = "(leaf, a @ b) # bare_entries rest"
  from ok ch l2 have okE: "list_all spec_entry_ok ?E"
    by (simp add: bare_entries_ok spec_entry_ok_def)
  have "\<forall>r a h2. init_msg r = spec_certificate_msg ?E \<and>
            tls13_process_certificate env a r = (True, h2) \<longrightarrow>
            certs (new_session h2) = Some chain \<and> peer_pubkey h2 = peer_pubkey h"
  proof (intro allI impI)
    fix r :: ssl_st and a h2
    assume s: "init_msg r = spec_certificate_msg ?E \<and>
               tls13_process_certificate env a r = (True, h2)"
    from process_certificate_accepts[of env a r h2] s obtain es where
      m: "init_msg r = spec_certificate_msg es" and ok2: "list_all spec_entry_ok es" and
      len2: "length (spec_certificate_list es) < 256 ^ 3" and
      c: "certs (new_session h2) = (if es = [] then None else Some (map fst es))" and
      k: "if es = [] then peer_pubkey h2 = None
          else peer_pubkey h2 = ssl_cert_parse_pubkey env (fst (hd es)) \<and> peer_pubkey h2 \<noteq> None \<and>
               ssl_cert_check_digital_signature_key_usage env (fst (hd es))"
      by blast
    from m s have "spec_certificate_msg es = spec_certificate_msg ?E" by simp
    with ok2 okE len2 l3 have es: "es = ?E" by (rule spec_certificate_msg_inj)
    from c have "certs (new_session h2) = Some chain" unfolding es ch by simp
    moreover from k have "peer_pubkey h2 = ssl_cert_parse_pubkey env leaf" unfolding es by simp
    ultimately show "certs (new_session h2) = Some chain \<and> peer_pubkey h2 = peer_pubkey h"
      using pk ch by simp
  qed
  with e1 show ?thesis by blast
qed

lemma round_trip_accepts:
  assumes first: "tls13_process_certificate env allow hs = (True, h)"
    and chain: "certs (new_session h) = Some chain"
    and enc: "cert_chain enc = Some chain" "has_private_key enc"
    and nosct: "\<not> scts_requested enc \<or> cert_signed_cert_timestamp_list enc = None"
    and noocsp: "\<not> ocsp_stapling_requested enc \<or> cert_ocsp_response enc = None"
    and cbb: "cbb_ok env" "add_message_ok env"
    and len: "length (init_msg hs) < 256 ^ 3"
    and px: "ssl_parse_extensions env [] = Inr (None, None)"
  shows "\<exists>body. tls13_add_certificate env enc =
             (True, enc\<lparr>flight := flight enc @ [(SSL3_MT_CERTIFICATE, body)]\<rparr>) \<and>
           (\<forall>r a. init_msg r = body \<longrightarrow>
              (\<exists>h2. tls13_process_certificate env a r = (True, h2) \<and>
                    certs (new_session h2) = Some chain \<and> peer_pubkey h2 = peer_pubkey h))"
proof -
  note ne = accepted_chain_facts(1)[OF first chain]
    and ok = accepted_chain_facts(2)[OF first chain]
    and bf = accepted_chain_facts(3)[OF first chain]
    and sk = accepted_chain_facts(4)[OF first chain]
    and sc = accepted_chain_facts(5)[OF first chain]
    and pk = accepted_chain_facts(6,7)[OF first chain]
    and ku = accepted_chain_facts(8)[OF first chain]
    and l = accepted_chain_facts(9)[OF first chain]
  from ne obtain leaf rest where ch: "chain = leaf # rest" by (cases chain) auto
  from pk ch obtain k where k: "ssl_cert_parse_pubkey env leaf = Some k" "peer_pubkey h = Some k"
    by auto
  let ?body = "spec_certificate_msg (bare_entries (leaf # rest))"
  from l len have l3: "length (spec_certificate_list (bare_entries (leaf # rest))) < 256 ^ 3"
    unfolding ch by simp
  have lb: "length ?body = length (spec_certificate_list (bare_entries (leaf # rest))) + 4"
    by (simp add: spec_certificate_msg_def)
  from l len have l4: "length ?body < 256 ^ 3" unfolding lb ch by simp
  have s1: "sct_extension enc = Some []" using nosct by (auto simp: sct_extension_def)
  have s2: "ocsp_extension enc = Some []" using noocsp by (auto simp: ocsp_extension_def)
  from ok have ok1: "list_all (\<lambda>c. length c < 256 ^ 3) (leaf # rest)"
    unfolding ch by (simp add: list_all_iff)
  from ok bf have ok2: "list_all (\<lambda>c. c \<noteq> [] \<and> length c < 256 ^ 3 \<and> buffer_new_ok env c) (leaf # rest)"
    unfolding ch by (simp add: list_all_iff)
  have add: "tls13_add_certificate env enc =
      (True, enc\<lparr>flight := flight enc @ [(SSL3_MT_CERTIFICATE, ?body)]\<rparr>)"
    using enc(1)[unfolded ch] enc(2) cbb s1 s2 ok1 l4 by (rule add_certificate_bare)
  have "\<forall>r a. init_msg r = ?body \<longrightarrow>
          (\<exists>h2. tls13_process_certificate env a r = (True, h2) \<and>
                certs (new_session h2) = Some chain \<and> peer_pubkey h2 = peer_pubkey h)"
  proof (intro allI impI)
    fix r :: ssl_st and a
    assume m: "init_msg r = ?body"
    have ku1: "ssl_cert_check_digital_signature_key_usage env leaf"
      using ku unfolding ch by simp
    have sc1: "session_cache_objects env (Some (leaf # rest))"
      using sc unfolding ch .
    have "\<exists>h2. tls13_process_certificate env a r = (True, h2) \<and>
                certs (new_session h2) = Some (leaf # rest) \<and> peer_pubkey h2 = Some k"
      using m l3 sk px ok2 k(1) ku1 sc1 by (rule process_certificate_bare)
    then show "\<exists>h2. tls13_process_certificate env a r = (True, h2) \<and>
                certs (new_session h2) = Some chain \<and> peer_pubkey h2 = peer_pubkey h"
      unfolding ch k(2) .
  qed
  with add show ?thesis by blast
qed

text \<open>
  C9: let a Certificate message be accepted by \<open>tls13_process_certificate\<close> with a stored
  chain of at least one certificate, and let \<open>tls13_add_certificate\<close> re-encode that chain.
  Whenever the re-encoding succeeds, any accepting decoding of the message it queued
  stores the same chain, byte for byte (the leaf certificate in particular), and derives
  the same peer public key. When the sender staples nothing to the leaf, the builder and
  the queue are available, the first message fits a handshake message and an empty
  extension block parses to no extension, the re-encoding does succeed and its message is
  accepted by the decoder in any state, with that chain and that key.
\<close>

theorem C9_certificate_round_trip:
  "tls13_process_certificate env allow hs = (True, h) \<and> certs (new_session h) = Some chain \<and>
   cert_chain enc = Some chain \<and> has_private_key enc \<longrightarrow>
     (tls13_add_certificate env enc = (True, enc1) \<longrightarrow>
        (\<exists>body. enc1 = enc\<lparr>flight := flight enc @ [(SSL3_MT_CERTIFICATE, body)]\<rparr> \<and>
           (\<forall>r a h2. init_msg r = body \<and> tls13_process_certificate env a r = (True, h2) \<longrightarrow>
              certs (new_session h2) = Some chain \<and> peer_pubkey h2 = peer_pubkey h))) \<and>
     ((\<not> scts_requested enc \<or> cert_signed_cert_timestamp_list enc = None) \<and>
      (\<not> ocsp_stapling_requested enc \<or> cert_ocsp_response enc = None) \<and>
      cbb_ok env \<and> add_message_ok env \<and> length (init_msg hs) < 256 ^ 3 \<and>
      ssl_parse_extensions env [] = Inr (None, None) \<longrightarrow>
        (\<exists>body. tls13_add_certificate env enc =
                  (True, enc\<lparr>flight := flight enc @ [(SSL3_MT_CERTIFICATE, body)]\<rparr>) \<and>
           (\<forall>r a. init_msg r = body \<longrightarrow>
              (\<exists>h2. tls13_process_certificate env a r = (True, h2) \<and>
                    certs (new_session h2) = Some chain \<and> peer_pubkey h2 = peer_pubkey h))))"
proof (intro impI conjI)
  assume a: "tls13_process_certificate env allow hs = (True, h) \<and>
    certs (new_session h) = Some chain \<and> cert_chain enc = Some chain \<and> has_private_key enc"
  assume b: "tls13_add_certificate env enc = (True, enc1)"
  from a b show "\<exists>body. enc1 = enc\<lparr>flight := flight enc @ [(SSL3_MT_CERTIFICATE, body)]\<rparr> \<and>
           (\<forall>r a h2. init_msg r = body \<and> tls13_process_certificate env a r = (True, h2) \<longrightarrow>
              certs (new_session h2) = Some chain \<and> peer_pubkey h2 = peer_pubkey h)"
    using round_trip_same[of env allow hs h chain enc enc1] by blast
next
  assume a: "tls13_process_certificate env allow hs = (True, h) \<and>
    certs (new_session h) = Some chain \<and> cert_chain enc = Some chain \<and> has_private_key enc"
  assume b: "(\<not> scts_requested enc \<or> cert_signed_cert_timestamp_list enc = None) \<and>
      (\<not> ocsp_stapling_requested enc \<or> cert_ocsp_response enc = None) \<and>
      cbb_ok env \<and> add_message_ok env \<and> length (init_msg hs) < 256 ^ 3 \<and>
      ssl_parse_extensions env [] = Inr (None, None)"
  from a b show "\<exists>body. tls13_add_certificate env enc =
                  (True, enc\<lparr>flight := flight enc @ [(SSL3_MT_CERTIFICATE, body)]\<rparr>) \<and>
           (\<forall>r a. init_msg r = body \<longrightarrow>
              (\<exists>h2. tls13_process_certificate env a r = (True, h2) \<and>
                    certs (new_session h2) = Some chain \<and> peer_pubkey h2 = peer_pubkey h))"
    using round_trip_accepts[of env allow hs h chain enc] by blast
qed

theorem C9_certificate_round_trip_witness:
  "\<exists>body. tls13_add_certificate example_collab example_sender =
            (True, example_sender\<lparr>flight := flight example_sender @ [(SSL3_MT_CERTIFICATE, body)]\<rparr>) \<and>
     (\<forall>r a. init_msg r = body \<longrightarrow>
        (\<exists>h2. tls13_process_certificate example_collab a r = (True, h2) \<and>
              certs (new_session h2) = Some [[9, 9, 9]] \<and> peer_pubkey h2 = Some [9, 9]))"
proof -
  let ?h = "one_certificate_msg\<lparr>peer_pubkey := Some [9, 9],
              new_session := empty_session\<lparr>certs := Some [[9, 9, 9]]\<rparr>\<rparr>"
  have p1: "parse_certificate_msg [0, 0, 0, 8, 0, 0, 3, 9, 9, 9, 0, 0] =
              Some [0, 0, 3, 9, 9, 9, 0, 0]"
    by (simp add: parse_certificate_msg_def cbs_defs)
  have p2: "parse_certificate_entry [0, 0, 3, 9, 9, 9, 0, 0] = Some ([9, 9, 9], [], [])"
    by (simp add: parse_certificate_entry_def cbs_defs)
  have first: "tls13_process_certificate example_collab False one_certificate_msg = (True, ?h)"
    by (simp add: tls13_process_certificate_def p1 p2 certificate_loop.simps
          process_certificate_entry_def leaf_certificate_checks_def
          process_entry_extensions_def example_collab_def parse_two_extensions.simps
          one_certificate_msg_def example_client_def empty_session_def Let_def)
  have c: "certs (new_session ?h) = Some [[9, 9, 9]]" by simp
  have k: "peer_pubkey ?h = Some [9, 9]" by simp
  have e: "cert_chain example_sender = Some [[9, 9, 9]]" "has_private_key example_sender"
    by (simp_all add: example_sender_def)
  have n: "(\<not> scts_requested example_sender \<or> cert_signed_cert_timestamp_list example_sender = None) \<and>
      (\<not> ocsp_stapling_requested example_sender \<or> cert_ocsp_response example_sender = None) \<and>
      cbb_ok example_collab \<and> add_message_ok example_collab \<and>
      length (init_msg one_certificate_msg) < 256 ^ 3 \<and>
      ssl_parse_extensions example_collab [] = Inr (None, None)"
    by (simp add: example_sender_def example_client_def example_collab_def
          one_certificate_msg_def parse_two_extensions.simps)
  note s1 = mp[OF C9_certificate_round_trip conjI[OF first conjI[OF c conjI[OF e(1) e(2)]]]]
  note s2 = mp[OF s1[THEN conjunct2] n]
  from s2 show ?thesis unfolding k .
qed

subsection \<open>Alerts on the failing paths\<close>

lemma process_certificate_failure_alert:
  assumes "tls13_process_certificate env allow hs = (False, h)"
  shows "\<exists>a. alerts h = alerts hs @ [(SSL3_AL_FATAL, a)]"
proof (cases "parse_certificate_msg (init_msg hs)")
  case None
  with assms show ?thesis
    by (auto simp: process_certificate_decode_error decode_error_state_def)
next
  case (Some cl)
  show ?thesis
  proof (cases "sk_new_ok env")
    case False
    with Some assms show ?thesis
      by (auto simp: tls13_process_certificate_def alert_defs)
  next
    case True
    let ?r = "server hs \<and> retain_only_sha256_of_client_certs hs"
    obtain res hs1 where loop: "certificate_loop env ?r cl [] None hs = (res, hs1)"
      by (cases "certificate_loop env ?r cl [] None hs")
    show ?thesis
    proof (cases res)
      case None
      with loop assms have "h = hs1" by (simp add: process_certificate_Some[OF Some True])
      with certificate_loop_None[OF loop[unfolded None]] show ?thesis by simp
    next
      case s: (Some p)
      obtain certs0 pkey where p: "p = (certs0, pkey)" by (cases p)
      from certificate_loop_Some[OF loop[unfolded s p]] have "alerts hs1 = alerts hs" by simp
      with assms loop s p show ?thesis
        by (auto simp: process_certificate_Some[OF Some True] Let_def alert_defs split: if_splits)
    qed
  qed
qed

lemma process_certificate_verify_failure_alert:
  assumes "tls13_process_certificate_verify env hs = (False, h)"
  shows "if peer_pubkey hs = None then alerts h = alerts hs
         else (\<exists>a. alerts h = alerts hs @ [(SSL3_AL_FATAL, a)])"
  using assms
  by (auto simp: tls13_process_certificate_verify_def tls13_get_cert_verify_signature_input_def
                 alert_defs Let_def
           split: option.splits if_splits prod.splits)

lemma process_finished_failure_alert:
  assumes "tls13_process_finished env use_saved_value hs = Some (False, h)"
  shows "if \<not> use_saved_value \<and> tls13_finished_mac env (\<not> server hs) = None
         then alerts h = alerts hs
         else alerts h = alerts hs @ [(SSL3_AL_FATAL, SSL_AD_DECRYPT_ERROR)]"
  using assms
  by (auto simp: tls13_process_finished_def alert_defs Let_def
           split: option.splits if_splits)

lemma receive_key_update_failure_alert:
  assumes "tls13_receive_key_update env ssl = (False, h)"
  shows "if init_msg ssl = [SSL_KEY_UPDATE_NOT_REQUESTED] \<or> init_msg ssl = [SSL_KEY_UPDATE_REQUESTED]
         then alerts h = alerts ssl
         else alerts h = alerts ssl @ [(SSL3_AL_FATAL, SSL_AD_DECODE_ERROR)]"
  using assms
  by (auto simp: key_update_defs split: list.splits option.splits if_splits)

lemma post_handshake_failure_alert:
  assumes "tls13_post_handshake env ssl = (False, h)"
  shows "if message_type ssl = SSL3_MT_KEY_UPDATE then
           (if kMaxKeyUpdates < key_update_count ssl + 1
            then alerts h = alerts ssl @ [(SSL3_AL_FATAL, SSL_AD_UNEXPECTED_MESSAGE)]
            else if init_msg ssl = [SSL_KEY_UPDATE_NOT_REQUESTED] \<or>
                    init_msg ssl = [SSL_KEY_UPDATE_REQUESTED]
            then alerts h = alerts ssl
            else alerts h = alerts ssl @ [(SSL3_AL_FATAL, SSL_AD_DECODE_ERROR)])
         else if message_type ssl = SSL3_MT_NEW_SESSION_TICKET \<and> \<not> server ssl
         then alerts h = alerts ssl @ snd (tls13_process_new_session_ticket env (init_msg ssl))
         else alerts h = alerts ssl @ [(SSL3_AL_FATAL, SSL_AD_UNEXPECTED_MESSAGE)]"
proof (cases "message_type ssl = SSL3_MT_KEY_UPDATE")
  case True
  show ?thesis
  proof (cases "kMaxKeyUpdates < key_update_count ssl + 1")
    case over: True
    with True assms show ?thesis
      by (auto simp: tls13_post_handshake_def Let_def alert_defs)
  next
    case False
    with True assms have
      "tls13_receive_key_update env (ssl\<lparr>key_update_count := key_update_count ssl + 1\<rparr>) = (False, h)"
      by (simp add: tls13_post_handshake_def Let_def)
    from receive_key_update_failure_alert[OF this] True False show ?thesis by simp
  qed
next
  case False
  with assms show ?thesis
    by (auto simp: tls13_post_handshake_def Let_def alert_defs split: prod.splits if_splits)
qed

text \<open>
  Two failing paths that send no alert: \<open>tls13_process_certificate_verify\<close> without a peer
  public key puts an internal error on the queue and returns 0; \<open>tls13_receive_key_update\<close>
  returns 0 as it is when the rotation of the read key fails.
\<close>

theorem C8_alert_counterexample:
  "tls13_process_certificate_verify example_collab example_client =
     (False, example_client\<lparr>err_queue := [ERR_R_INTERNAL_ERROR]\<rparr>) \<and>
   alerts (example_client\<lparr>err_queue := [ERR_R_INTERNAL_ERROR]\<rparr>) = [] \<and>
   tls13_receive_key_update rotation_fails key_update_requested = (False, key_update_requested) \<and>
   alerts key_update_requested = []"
  by (simp add: tls13_process_certificate_verify_def example_client_def alert_defs
        key_update_defs rotation_fails_def example_collab_def key_update_requested_def
        SSL_KEY_UPDATE_REQUESTED_def SSL_KEY_UPDATE_NOT_REQUESTED_def)

text \<open>
  C8 (as the code has it): a failing path of a message handler sends at most one alert,
  and it is fatal. \<open>tls13_process_certificate\<close> sends exactly one on every failing path.
  \<open>tls13_process_certificate_verify\<close> sends exactly one unless the peer public key is
  missing, where it sends none. \<open>tls13_process_finished\<close> sends exactly one
  (decrypt-error) unless the expected MAC cannot be computed, where it sends none.
  \<open>tls13_receive_key_update\<close> sends exactly one (decode-error) on a malformed body, and none
  on the failures after a valid body (a failed key rotation, a failed queuing of the
  acknowledgement). \<open>tls13_post_handshake\<close> sends exactly one (unexpected-message) when the
  counter exceeds its ceiling and on an unexpected message type, behaves as
  \<open>tls13_receive_key_update\<close> on a KeyUpdate within the ceiling, and on a ticket sends what
  the ticket handler sends.
\<close>

theorem C8_alerts_on_failure:
  "(tls13_process_certificate env allow hs = (False, h) \<longrightarrow>
      (\<exists>a. alerts h = alerts hs @ [(SSL3_AL_FATAL, a)])) \<and>
   (tls13_process_certificate_verify env hs = (False, h) \<longrightarrow>
      (if peer_pubkey hs = None then alerts h = alerts hs
       else (\<exists>a. alerts h = alerts hs @ [(SSL3_AL_FATAL, a)]))) \<and>
   (tls13_process_finished env use_saved_value hs = Some (False, h) \<longrightarrow>
      (if \<not> use_saved_value \<and> tls13_finished_mac env (\<not> server hs) = None
       then alerts h = alerts hs
       else alerts h = alerts hs @ [(SSL3_AL_FATAL, SSL_AD_DECRYPT_ERROR)])) \<and>
   (tls13_receive_key_update env hs = (False, h) \<longrightarrow>
      (if init_msg hs = [SSL_KEY_UPDATE_NOT_REQUESTED] \<or> init_msg hs = [SSL_KEY_UPDATE_REQUESTED]
       then alerts h = alerts hs
       else alerts h = alerts hs @ [(SSL3_AL_FATAL, SSL_AD_DECODE_ERROR)])) \<and>
   (tls13_post_handshake env hs = (False, h) \<longrightarrow>
      (if message_type hs = SSL3_MT_KEY_UPDATE then
         (if kMaxKeyUpdates < key_update_count hs + 1
          then alerts h = alerts hs @ [(SSL3_AL_FATAL, SSL_AD_UNEXPECTED_MESSAGE)]
          else if init_msg hs = [SSL_KEY_UPDATE_NOT_REQUESTED] \<or>
                  init_msg hs = [SSL_KEY_UPDATE_REQUESTED]
          then alerts h = alerts hs
          else alerts h = alerts hs @ [(SSL3_AL_FATAL, SSL_AD_DECODE_ERROR)])
       else if message_type hs = SSL3_MT_NEW_SESSION_TICKET \<and> \<not> server hs
       then alerts h = alerts hs @ snd (tls13_process_new_session_ticket env (init_msg hs))
       else alerts h = alerts hs @ [(SSL3_AL_FATAL, SSL_AD_UNEXPECTED_MESSAGE)]))"
proof (intro conjI impI)
  assume "tls13_process_certificate env allow hs = (False, h)"
  then show "\<exists>a. alerts h = alerts hs @ [(SSL3_AL_FATAL, a)]"
    by (rule process_certificate_failure_alert)
next
  assume "tls13_process_certificate_verify env hs = (False, h)"
  then show "if peer_pubkey hs = None then alerts h = alerts hs
       else (\<exists>a. alerts h = alerts hs @ [(SSL3_AL_FATAL, a)])"
    by (rule process_certificate_verify_failure_alert)
next
  assume "tls13_process_finished env use_saved_value hs = Some (False, h)"
  then show "if \<not> use_saved_value \<and> tls13_finished_mac env (\<not> server hs) = None
       then alerts h = alerts hs
       else alerts h = alerts hs @ [(SSL3_AL_FATAL, SSL_AD_DECRYPT_ERROR)]"
    by (rule process_finished_failure_alert)
next
  assume "tls13_receive_key_update env hs = (False, h)"
  then show "if init_msg hs = [SSL_KEY_UPDATE_NOT_REQUESTED] \<or> init_msg hs = [SSL_KEY_UPDATE_REQUESTED]
       then alerts h = alerts hs
       else alerts h = alerts hs @ [(SSL3_AL_FATAL, SSL_AD_DECODE_ERROR)]"
    by (rule receive_key_update_failure_alert)
next
  assume "tls13_post_handshake env hs = (False, h)"
  then show "if message_type hs = SSL3_MT_KEY_UPDATE then
         (if kMaxKeyUpdates < key_update_count hs + 1
          then alerts h = alerts hs @ [(SSL3_AL_FATAL, SSL_AD_UNEXPECTED_MESSAGE)]
          else if init_msg hs = [SSL_KEY_UPDATE_NOT_REQUESTED] \<or>
                  init_msg hs = [SSL_KEY_UPDATE_REQUESTED]
          then alerts h = alerts hs
          else alerts h = alerts hs @ [(SSL3_AL_FATAL, SSL_AD_DECODE_ERROR)])
       else if message_type hs = SSL3_MT_NEW_SESSION_TICKET \<and> \<not> server hs
       then alerts h = alerts hs @ snd (tls13_process_new_session_ticket env (init_msg hs))
       else alerts h = alerts hs @ [(SSL3_AL_FATAL, SSL_AD_UNEXPECTED_MESSAGE)]"
    by (rule post_handshake_failure_alert)
qed

theorem C8_alerts_on_failure_witness:
  "fst (tls13_receive_key_update example_collab key_update_undefined_code) = False \<and>
   alerts (snd (tls13_receive_key_update example_collab key_update_undefined_code)) =
     [(SSL3_AL_FATAL, SSL_AD_DECODE_ERROR)]"
proof -
  let ?s = "key_update_undefined_code"
  have f: "fst (tls13_receive_key_update example_collab ?s) = False"
    by (simp add: key_update_defs key_update_undefined_code_def example_client_def
          SSL_KEY_UPDATE_REQUESTED_def SSL_KEY_UPDATE_NOT_REQUESTED_def)
  then have r: "tls13_receive_key_update example_collab ?s =
                  (False, snd (tls13_receive_key_update example_collab ?s))"
    by (cases "tls13_receive_key_update example_collab ?s") simp
  have n: "\<not> (init_msg ?s = [SSL_KEY_UPDATE_NOT_REQUESTED] \<or> init_msg ?s = [SSL_KEY_UPDATE_REQUESTED])"
    by (simp add: key_update_undefined_code_def SSL_KEY_UPDATE_REQUESTED_def
          SSL_KEY_UPDATE_NOT_REQUESTED_def)
  have e: "alerts ?s = []"
    by (simp add: key_update_undefined_code_def example_client_def)
  note s1 = mp[OF C8_alerts_on_failure[THEN conjunct2, THEN conjunct2, THEN conjunct2,
                    THEN conjunct1] r]
  from s1 have "alerts (snd (tls13_receive_key_update example_collab ?s)) =
                  alerts ?s @ [(SSL3_AL_FATAL, SSL_AD_DECODE_ERROR)]"
    unfolding if_not_P[OF n] .
  with f e show ?thesis by simp
qed

subsection \<open>The extensions of every entry are validated\<close>

lemma entry_extensions_valid_frame:
  "loop_frame hs h \<Longrightarrow> entry_extensions_valid env h x = entry_extensions_valid env hs x"
  by (simp add: entry_extensions_valid_def loop_frame_def
           split: sum.splits option.splits prod.splits)

lemma process_entry_extensions_Inr_valid:
  "process_entry_extensions env x n hs = Inr h \<Longrightarrow> entry_extensions_valid env hs x"
  by (auto simp: process_entry_extensions_def process_status_request_def process_sct_def
                 entry_extensions_valid_def alert_defs
           split: sum.splits option.splits if_splits prod.splits bool.splits)

lemma process_entry_extensions_nonleaf_iff:
  "n \<noteq> 1 \<Longrightarrow>
   process_entry_extensions env x n hs = Inr hs \<longleftrightarrow> entry_extensions_valid env hs x"
  by (auto simp: process_entry_extensions_def process_status_request_def process_sct_def
                 entry_extensions_valid_def
           split: sum.splits option.splits if_splits prod.splits)

lemma process_certificate_entry_nonleaf_eq:
  assumes "stack \<noteq> []" and "parse_certificate_entry cl = Some (c, x, rest)"
    and "buffer_new_ok env c"
  shows "process_certificate_entry env retain cl stack pkey hs =
           (case process_entry_extensions env x (Suc (length stack)) hs of
              Inl h \<Rightarrow> Inl h
            | Inr h \<Rightarrow> Inr (rest, stack @ [c], pkey, h))"
  using assms by (simp add: process_certificate_entry_def Let_def)

lemma process_certificate_entry_Inr_valid:
  assumes "process_certificate_entry env retain cl stack pkey hs = Inr (rest, s1, p1, h)"
    and "parse_certificate_entry cl = Some (c, x, rest1)"
  shows "entry_extensions_valid env hs x"
proof -
  from assms obtain hs1 n where e: "process_entry_extensions env x n hs1 = Inr h"
    and f: "loop_frame hs hs1"
    by (auto simp: process_certificate_entry_def Let_def
             split: option.splits sum.splits if_splits prod.splits
             dest: leaf_certificate_checks_frame(2))
  from process_entry_extensions_Inr_valid[OF e] f show ?thesis
    by (simp add: entry_extensions_valid_frame)
qed

lemma certificate_loop_valid:
  "certificate_loop env retain (spec_certificate_list es) stack pkey hs = (Some r, h) \<Longrightarrow>
   list_all spec_entry_ok es \<Longrightarrow>
   list_all (\<lambda>e. entry_extensions_valid env hs (snd e)) es"
proof (induction es arbitrary: stack pkey hs)
  case Nil
  then show ?case by simp
next
  case (Cons e es)
  let ?cl = "spec_certificate_list (e # es)"
  let ?rest = "spec_certificate_list es"
  from Cons.prems(2) have oke: "spec_entry_ok e" and okes: "list_all spec_entry_ok es"
    by simp_all
  have pe: "parse_certificate_entry ?cl = Some (fst e, snd e, ?rest)"
    unfolding spec_entry_parse using oke by (simp add: spec_certificate_list_Cons)
  have ne: "?cl \<noteq> []" using spec_certificate_list_Nil_iff[of "e # es"] by simp
  show ?case
  proof (cases "process_certificate_entry env retain ?cl stack pkey hs")
    case (Inl h1)
    from certificate_loop_Inl[OF ne Inl] Cons.prems(1) show ?thesis by simp
  next
    case (Inr q)
    obtain rest s1 p1 h1 where q: "q = (rest, s1, p1, h1)" by (cases q)
    from Inr q have step: "process_certificate_entry env retain ?cl stack pkey hs =
        Inr (rest, s1, p1, h1)" by simp
    from process_certificate_entry_Inr[OF step] pe have rest: "rest = ?rest"
      and fr: "loop_frame hs h1" by auto
    from certificate_loop_Inr[OF ne step] Cons.prems(1)
    have "certificate_loop env retain ?rest s1 p1 h1 = (Some r, h)" unfolding rest by simp
    from Cons.IH[OF this okes]
    have "list_all (\<lambda>e. entry_extensions_valid env h1 (snd e)) es" .
    then have "list_all (\<lambda>e. entry_extensions_valid env hs (snd e)) es"
      by (simp add: entry_extensions_valid_frame[OF fr])
    moreover from process_certificate_entry_Inr_valid[OF step pe]
    have "entry_extensions_valid env hs (snd e)" .
    ultimately show ?thesis by simp
  qed
qed

lemma process_certificate_entries_valid:
  assumes ok: "tls13_process_certificate env allow hs = (True, h)"
    and msg: "init_msg hs = spec_certificate_msg es"
    and oks: "list_all spec_entry_ok es"
    and len: "length (spec_certificate_list es) < 256 ^ 3"
  shows "list_all (\<lambda>e. entry_extensions_valid env hs (snd e)) es"
proof -
  let ?r = "server hs \<and> retain_only_sha256_of_client_certs hs"
  have p: "parse_certificate_msg (init_msg hs) = Some (spec_certificate_list es)"
    unfolding parse_certificate_msg_Some_iff using msg len
    by (simp add: spec_certificate_msg_def)
  from ok have sk: "sk_new_ok env"
    by (auto simp: tls13_process_certificate_def split: option.splits if_splits)
  obtain res h2 where loop:
    "certificate_loop env ?r (spec_certificate_list es) [] None hs = (res, h2)"
    by (cases "certificate_loop env ?r (spec_certificate_list es) [] None hs")
  from ok loop obtain q where res: "res = Some q"
    by (cases res) (auto simp: process_certificate_Some[OF p sk])
  from certificate_loop_valid[OF loop[unfolded res] oks] show ?thesis .
qed

lemma process_certificate_second_entry_rejected:
  assumes sk: "sk_new_ok env"
    and p: "parse_certificate_msg (init_msg hs) = Some cl"
    and first: "process_certificate_entry env
                  (server hs \<and> retain_only_sha256_of_client_certs hs) cl [] None hs =
                Inr (rest, s1, p1, h1)"
    and pe: "parse_certificate_entry rest = Some (c2, x2, rest2)"
    and b: "buffer_new_ok env c2"
    and rej: "process_entry_extensions env x2 2 h1 = Inl h2"
  shows "tls13_process_certificate env allow hs = (False, h2)"
proof -
  let ?r = "server hs \<and> retain_only_sha256_of_client_certs hs"
  from process_certificate_entry_Inr[OF first] obtain c where s1: "s1 = [c]" by auto
  from first have ne: "cl \<noteq> []"
    using process_certificate_entry_shorter[OF first] by auto
  from pe have ne2: "rest \<noteq> []" by (auto simp: parse_certificate_entry_Some_iff)
  have "process_certificate_entry env ?r rest s1 p1 h1 = Inl h2"
    unfolding s1 using process_certificate_entry_nonleaf_eq[OF _ pe b, of "[c]" ?r p1 h1] rej
    by (simp add: numeral_2_eq_2)
  from certificate_loop_Inl[OF ne2 this]
  have "certificate_loop env ?r cl [] None hs = (None, h2)"
    unfolding certificate_loop_Inr[OF ne first] .
  then show ?thesis unfolding process_certificate_Some[OF p sk] by simp
qed

text \<open>
  C4: the extensions of every entry are parsed and validated, whatever the position of
  the entry. The extension part of the loop body gives the same verdict, the same alert
  and the same error-queue entry for an entry after the first as for the leaf (when the
  copies made for the leaf can be allocated), and on an entry after the first its success
  leaves the whole state as it is. For an accepted message of at least two entries, the
  session's OCSP response and SCT list after the handler are the values given by the
  extension block of the first entry alone (the old value of a field whose extension the
  leaf does not carry). The handler runs the extension part on every entry after the
  first: the loop body on such an entry is the extension part at that position, failing
  where it fails; the extension part succeeds after the first entry exactly when the
  block satisfies the conditions on extensions, which the leaf must satisfy too; every
  entry of an accepted message satisfies them; and when the extension part rejects the
  second entry, the handler fails in the state of that rejection, with its alert.
\<close>

theorem C4_leaf_only_extensions:
  "((\<forall>d. stow_ok env d) \<longrightarrow>
      verdict (process_entry_extensions env x n hs) =
      verdict (process_entry_extensions env x 1 hs)) \<and>
   (n \<noteq> 1 \<and> process_entry_extensions env x n hs = Inr h \<longrightarrow> h = hs) \<and>
   (tls13_process_certificate env allow hs = (True, h) \<and>
    init_msg hs = spec_certificate_msg ((c1, x1) # e2 # es) \<and> spec_entry_ok (c1, x1) \<and>
    length (spec_certificate_list ((c1, x1) # e2 # es)) < 256 ^ 3 \<longrightarrow>
      ocsp_response (new_session h) =
        leaf_ocsp_response env x1 (ocsp_response (new_session hs)) \<and>
      tlsext_signed_cert_timestamp_list (new_session h) =
        leaf_sct_list env x1 (tlsext_signed_cert_timestamp_list (new_session hs))) \<and>
   (stack \<noteq> [] \<and> parse_certificate_entry cl = Some (c, x, rest) \<and> buffer_new_ok env c \<longrightarrow>
      process_certificate_entry env retain cl stack pkey hs =
        (case process_entry_extensions env x (Suc (length stack)) hs of
           Inl h1 \<Rightarrow> Inl h1
         | Inr h1 \<Rightarrow> Inr (rest, stack @ [c], pkey, h1))) \<and>
   (n \<noteq> 1 \<longrightarrow>
      (process_entry_extensions env x n hs = Inr hs) = entry_extensions_valid env hs x) \<and>
   (process_entry_extensions env x 1 hs = Inr h \<longrightarrow> entry_extensions_valid env hs x) \<and>
   (tls13_process_certificate env allow hs = (True, h) \<and>
    init_msg hs = spec_certificate_msg entries \<and> list_all spec_entry_ok entries \<and>
    length (spec_certificate_list entries) < 256 ^ 3 \<longrightarrow>
      list_all (\<lambda>e. entry_extensions_valid env hs (snd e)) entries) \<and>
   (sk_new_ok env \<and> parse_certificate_msg (init_msg hs) = Some cl0 \<and>
    process_certificate_entry env (server hs \<and> retain_only_sha256_of_client_certs hs)
      cl0 [] None hs = Inr (rest1, s1, p1, hs1) \<and>
    parse_certificate_entry rest1 = Some (c2, x2, rest2) \<and> buffer_new_ok env c2 \<and>
    process_entry_extensions env x2 2 hs1 = Inl hs2 \<longrightarrow>
      tls13_process_certificate env allow hs = (False, hs2))"
proof (intro conjI impI)
  assume "\<forall>d. stow_ok env d"
  then show "verdict (process_entry_extensions env x n hs) =
      verdict (process_entry_extensions env x 1 hs)"
    by (rule process_entry_extensions_verdict)
next
  assume "n \<noteq> 1 \<and> process_entry_extensions env x n hs = Inr h"
  then show "h = hs" using process_entry_extensions_nonleaf by blast
next
  assume a: "tls13_process_certificate env allow hs = (True, h) \<and>
    init_msg hs = spec_certificate_msg ((c1, x1) # e2 # es) \<and> spec_entry_ok (c1, x1) \<and>
    length (spec_certificate_list ((c1, x1) # e2 # es)) < 256 ^ 3"
  then have "ocsp_response (new_session h) =
        leaf_ocsp_response env x1 (ocsp_response (new_session hs)) \<and>
      tlsext_signed_cert_timestamp_list (new_session h) =
        leaf_sct_list env x1 (tlsext_signed_cert_timestamp_list (new_session hs))"
    using process_certificate_leaf_fields[of env allow hs h c1 x1 "e2 # es"] by blast
  then show "ocsp_response (new_session h) =
        leaf_ocsp_response env x1 (ocsp_response (new_session hs))"
    and "tlsext_signed_cert_timestamp_list (new_session h) =
        leaf_sct_list env x1 (tlsext_signed_cert_timestamp_list (new_session hs))"
    by simp_all
next
  assume "stack \<noteq> [] \<and> parse_certificate_entry cl = Some (c, x, rest) \<and> buffer_new_ok env c"
  then show "process_certificate_entry env retain cl stack pkey hs =
        (case process_entry_extensions env x (Suc (length stack)) hs of
           Inl h1 \<Rightarrow> Inl h1
         | Inr h1 \<Rightarrow> Inr (rest, stack @ [c], pkey, h1))"
    using process_certificate_entry_nonleaf_eq[of stack cl c x rest env retain pkey hs] by blast
next
  assume "n \<noteq> 1"
  then show "(process_entry_extensions env x n hs = Inr hs) = entry_extensions_valid env hs x"
    by (rule process_entry_extensions_nonleaf_iff)
next
  assume "process_entry_extensions env x 1 hs = Inr h"
  then show "entry_extensions_valid env hs x"
    by (rule process_entry_extensions_Inr_valid)
next
  assume "tls13_process_certificate env allow hs = (True, h) \<and>
    init_msg hs = spec_certificate_msg entries \<and> list_all spec_entry_ok entries \<and>
    length (spec_certificate_list entries) < 256 ^ 3"
  then show "list_all (\<lambda>e. entry_extensions_valid env hs (snd e)) entries"
    using process_certificate_entries_valid[of env allow hs h entries] by blast
next
  assume "sk_new_ok env \<and> parse_certificate_msg (init_msg hs) = Some cl0 \<and>
    process_certificate_entry env (server hs \<and> retain_only_sha256_of_client_certs hs)
      cl0 [] None hs = Inr (rest1, s1, p1, hs1) \<and>
    parse_certificate_entry rest1 = Some (c2, x2, rest2) \<and> buffer_new_ok env c2 \<and>
    process_entry_extensions env x2 2 hs1 = Inl hs2"
  then show "tls13_process_certificate env allow hs = (False, hs2)"
    using process_certificate_second_entry_rejected[of env hs cl0 rest1 s1 p1 hs1 c2 x2 rest2 hs2 allow]
    by blast
qed

lemma example_status_request:
  "parse_two_extensions [0, 5, 0, 5, 1, 0, 0, 1, v] None None = Inr (Some [1, 0, 0, 1, v], None)"
  by (simp add: parse_two_extensions.simps[of "[0, 5, 0, 5, 1, 0, 0, 1, v]"]
        parse_two_extensions.simps[of "[]"] cbs_defs TLSEXT_TYPE_status_request_def)

lemma example_ocsp: "parse_status_request [1, 0, 0, 1, v] = Some [v]"
  by (simp add: parse_status_request_def cbs_defs TLSEXT_STATUSTYPE_ocsp_def)

theorem C4_leaf_only_extensions_witness:
  "ocsp_response (new_session (snd (tls13_process_certificate example_collab False stapled_chain_msg))) =
     Some [170] \<and>
   tlsext_signed_cert_timestamp_list
     (new_session (snd (tls13_process_certificate example_collab False stapled_chain_msg))) = None \<and>
   fst (tls13_process_certificate example_collab False bad_nonleaf_extension_msg) = False \<and>
   alerts (snd (tls13_process_certificate example_collab False bad_nonleaf_extension_msg)) =
     [(SSL3_AL_FATAL, SSL_AD_DECODE_ERROR)]"
proof -
  let ?x1 = "[0, 5, 0, 5, 1, 0, 0, 1, 170] :: bytes"
  let ?x2 = "[0, 5, 0, 5, 1, 0, 0, 1, 187] :: bytes"
  let ?y2 = "[0, 5, 0, 5, 2, 0, 0, 1, 187] :: bytes"
  have p: "parse_certificate_msg
             [0, 0, 0, 32,
              0, 0, 3, 9, 9, 9, 0, 9, 0, 5, 0, 5, 1, 0, 0, 1, 170,
              0, 0, 1, 8, 0, 9, 0, 5, 0, 5, t, 0, 0, 1, 187] =
           Some [0, 0, 3, 9, 9, 9, 0, 9, 0, 5, 0, 5, 1, 0, 0, 1, 170,
                 0, 0, 1, 8, 0, 9, 0, 5, 0, 5, t, 0, 0, 1, 187]" for t
    by (simp add: parse_certificate_msg_def cbs_defs)
  have q1: "parse_certificate_entry
              [0, 0, 3, 9, 9, 9, 0, 9, 0, 5, 0, 5, 1, 0, 0, 1, 170,
               0, 0, 1, 8, 0, 9, 0, 5, 0, 5, t, 0, 0, 1, 187] =
            Some ([9, 9, 9], ?x1, [0, 0, 1, 8, 0, 9, 0, 5, 0, 5, t, 0, 0, 1, 187])" for t
    by (simp add: parse_certificate_entry_def cbs_defs)
  have q2: "parse_certificate_entry [0, 0, 1, 8, 0, 9, 0, 5, 0, 5, t, 0, 0, 1, 187] =
            Some ([8], [0, 5, 0, 5, t, 0, 0, 1, 187], [])" for t
    by (simp add: parse_certificate_entry_def cbs_defs)
  have ok: "fst (tls13_process_certificate example_collab False stapled_chain_msg)"
    by (simp add: tls13_process_certificate_def p q1 q2 certificate_loop.simps
          process_certificate_entry_def leaf_certificate_checks_def
          process_entry_extensions_def process_status_request_def CBS_stow_def
          example_collab_def example_status_request example_ocsp
          stapled_chain_msg_def example_client_def empty_session_def Let_def)
  then have r: "tls13_process_certificate example_collab False stapled_chain_msg =
      (True, snd (tls13_process_certificate example_collab False stapled_chain_msg))"
    by (cases "tls13_process_certificate example_collab False stapled_chain_msg") simp
  have m: "init_msg stapled_chain_msg = spec_certificate_msg (([9, 9, 9], ?x1) # ([8], ?x2) # [])"
    by (simp add: stapled_chain_msg_def spec_certificate_msg_def spec_certificate_list_def
          spec_entry_def be_bytes_numeral)
  have e: "spec_entry_ok ([9, 9, 9], ?x1)" by (simp add: spec_entry_ok_def)
  have l: "length (spec_certificate_list (([9, 9, 9], ?x1) # ([8], ?x2) # [])) < 256 ^ 3"
    by (simp add: spec_certificate_list_def spec_entry_def)
  have v: "leaf_ocsp_response example_collab ?x1 None = Some [170]"
          "leaf_sct_list example_collab ?x1 None = None"
          "ocsp_response (new_session stapled_chain_msg) = None"
          "tlsext_signed_cert_timestamp_list (new_session stapled_chain_msg) = None"
    by (simp_all add: leaf_ocsp_response_def leaf_sct_list_def example_collab_def
          example_status_request example_ocsp stapled_chain_msg_def example_client_def
          empty_session_def)
  note t3 = mp[OF C4_leaf_only_extensions[THEN conjunct2, THEN conjunct2, THEN conjunct1]
             conjI[OF r conjI[OF m conjI[OF e l]]]]
  from t3 have 1: "ocsp_response
       (new_session (snd (tls13_process_certificate example_collab False stapled_chain_msg))) =
     Some [170] \<and>
   tlsext_signed_cert_timestamp_list
     (new_session (snd (tls13_process_certificate example_collab False stapled_chain_msg))) = None"
    by (simp add: v)
  let ?b = bad_nonleaf_extension_msg
  let ?h1 = "?b\<lparr>new_session := empty_session\<lparr>ocsp_response := Some [170]\<rparr>\<rparr>"
  let ?h2 = "?h1\<lparr>alerts := [(SSL3_AL_FATAL, SSL_AD_DECODE_ERROR)]\<rparr>"
  have sk: "sk_new_ok example_collab" by (simp add: example_collab_def)
  have bp: "parse_certificate_msg (init_msg ?b) =
      Some [0, 0, 3, 9, 9, 9, 0, 9, 0, 5, 0, 5, 1, 0, 0, 1, 170,
            0, 0, 1, 8, 0, 9, 0, 5, 0, 5, 2, 0, 0, 1, 187]"
    by (simp add: bad_nonleaf_extension_msg_def p)
  have first: "process_certificate_entry example_collab
       (server ?b \<and> retain_only_sha256_of_client_certs ?b)
       [0, 0, 3, 9, 9, 9, 0, 9, 0, 5, 0, 5, 1, 0, 0, 1, 170,
        0, 0, 1, 8, 0, 9, 0, 5, 0, 5, 2, 0, 0, 1, 187] [] None ?b =
     Inr ([0, 0, 1, 8, 0, 9, 0, 5, 0, 5, 2, 0, 0, 1, 187], [[9, 9, 9]], Some [9, 9], ?h1)"
    by (simp add: process_certificate_entry_def q1 leaf_certificate_checks_def
          process_entry_extensions_def process_status_request_def CBS_stow_def
          example_collab_def example_status_request example_ocsp
          bad_nonleaf_extension_msg_def example_client_def empty_session_def)
  have b: "buffer_new_ok example_collab [8]" by (simp add: example_collab_def)
  have x: "parse_two_extensions ?y2 None None = Inr (Some [2, 0, 0, 1, 187], None)"
    by (simp add: parse_two_extensions.simps[of ?y2]
          parse_two_extensions.simps[of "[]"] cbs_defs TLSEXT_TYPE_status_request_def)
  have y: "parse_status_request [2, 0, 0, 1, 187] = None"
    by (simp add: parse_status_request_def cbs_defs TLSEXT_STATUSTYPE_ocsp_def)
  have rej: "process_entry_extensions example_collab ?y2 2 ?h1 = Inl ?h2"
    by (simp add: process_entry_extensions_def process_status_request_def x y
          example_collab_def bad_nonleaf_extension_msg_def example_client_def
          ssl3_send_alert_def)
  note t8 = mp[OF C4_leaf_only_extensions[THEN conjunct2, THEN conjunct2, THEN conjunct2,
                    THEN conjunct2, THEN conjunct2, THEN conjunct2, THEN conjunct2]
             conjI[OF sk conjI[OF bp conjI[OF first conjI[OF q2 conjI[OF b rej]]]]]]
  from t8 have 2: "fst (tls13_process_certificate example_collab False ?b) = False \<and>
     alerts (snd (tls13_process_certificate example_collab False ?b)) =
       [(SSL3_AL_FATAL, SSL_AD_DECODE_ERROR)]"
    by simp
  from 1 2 show ?thesis by simp
qed

end
